(* ===== verification/Prelude.thy ===== *)
theory Prelude
  imports Main "HOL-Library.Char_ord" "HOL-Library.List_Lexorder" "HOL-Library.Sublist"
begin

text \<open>
  Shared vocabulary of the development: the error values a JavaScript function can throw, the
  result type of a function that may throw, sequencing and left-to-right traversal in that type,
  and generic facts on lists and association lists.  The collections \<open>res_simps\<close> (inversion of
  successful results) and \<open>js_simps\<close> (evaluation of JavaScript primitives) carry the component
  proofs.
\<close>

named_theorems res_simps
named_theorems js_simps

section \<open>Errors and results\<close>

datatype js_error = TypeError string | RangeError string | Error string

type_synonym 'a res = "js_error + 'a"

definition ebind :: "'a res \<Rightarrow> ('a \<Rightarrow> 'b res) \<Rightarrow> 'b res" where
  "ebind m f = (case m of Inl e \<Rightarrow> Inl e | Inr x \<Rightarrow> f x)"

definition emap :: "('a \<Rightarrow> 'b) \<Rightarrow> 'a res \<Rightarrow> 'b res" where
  "emap f m = ebind m (\<lambda>x. Inr (f x))"

definition is_ok :: "'a res \<Rightarrow> bool" where
  "is_ok m = (case m of Inl _ \<Rightarrow> False | Inr _ \<Rightarrow> True)"

text \<open>\<open>try { return m } catch { return d }\<close>.\<close>

definition ecatch :: "'a res \<Rightarrow> 'a res \<Rightarrow> 'a res" where
  "ecatch m d = (case m of Inl _ \<Rightarrow> d | Inr x \<Rightarrow> Inr x)"

lemma ebind_simps [simp]: "ebind (Inl e) f = Inl e" "ebind (Inr x) f = f x"
  by (simp_all add: ebind_def)

lemma emap_simps [simp]: "emap g (Inl e) = Inl e" "emap g (Inr x) = Inr (g x)"
  by (simp_all add: emap_def)

lemma is_ok_simps [simp]: "is_ok (Inl e) = False" "is_ok (Inr x) = True"
  by (simp_all add: is_ok_def)

lemma ecatch_simps [simp]: "ecatch (Inl e) d = d" "ecatch (Inr x) d = Inr x"
  by (simp_all add: ecatch_def)

lemma ebind_cong [fundef_cong]:
  "m = m' \<Longrightarrow> (\<And>x. m' = Inr x \<Longrightarrow> f x = g x) \<Longrightarrow> ebind m f = ebind m' g"
  by (cases m') auto

lemma ebind_Inr_iff [res_simps]: "ebind m f = Inr y \<longleftrightarrow> (\<exists>x. m = Inr x \<and> f x = Inr y)"
  by (cases m) auto

lemma emap_Inr_iff [res_simps]: "emap f m = Inr y \<longleftrightarrow> (\<exists>x. m = Inr x \<and> y = f x)"
  by (cases m) auto

lemma ebind_Inl_iff: "ebind m f = Inl e \<longleftrightarrow> m = Inl e \<or> (\<exists>x. m = Inr x \<and> f x = Inl e)"
  by (cases m) auto

lemma if_Inl_Inr_iff [res_simps]: "(if b then Inl e else m) = Inr y \<longleftrightarrow> \<not> b \<and> m = Inr y"
  by simp

lemma is_ok_iff: "is_ok m \<longleftrightarrow> (\<exists>x. m = Inr x)"
  by (cases m) auto

text \<open>\<open>if (b) errors.push(x)\<close>: the error lists of the verifiers are concatenations of these.\<close>

definition push_if :: "bool \<Rightarrow> 'a \<Rightarrow> 'a list" where
  "push_if b x = (if b then [x] else [])"

lemma push_if_Nil [simp]: "push_if b x = [] \<longleftrightarrow> \<not> b"
  by (simp add: push_if_def)

lemma push_if_simps [simp]: "push_if True x = [x]" "push_if False x = []"
  by (simp_all add: push_if_def)

section \<open>Traversals that stop at the first error\<close>

fun mapE :: "('a \<Rightarrow> 'b res) \<Rightarrow> 'a list \<Rightarrow> 'b list res" where
  "mapE f [] = Inr []"
| "mapE f (x # xs) = ebind (f x) (\<lambda>y. ebind (mapE f xs) (\<lambda>ys. Inr (y # ys)))"

text \<open>The index-aware variant models \<open>Array.prototype.map((item, index) => ...)\<close>.\<close>

fun mapiE :: "nat \<Rightarrow> (nat \<Rightarrow> 'a \<Rightarrow> 'b res) \<Rightarrow> 'a list \<Rightarrow> 'b list res" where
  "mapiE i f [] = Inr []"
| "mapiE i f (x # xs) = ebind (f i x) (\<lambda>y. ebind (mapiE (Suc i) f xs) (\<lambda>ys. Inr (y # ys)))"

fun foldE :: "('s \<Rightarrow> 'a \<Rightarrow> 's res) \<Rightarrow> 's \<Rightarrow> 'a list \<Rightarrow> 's res" where
  "foldE f s [] = Inr s"
| "foldE f s (x # xs) = ebind (f s x) (\<lambda>s'. foldE f s' xs)"

lemma mapE_cong [fundef_cong]:
  "xs = ys \<Longrightarrow> (\<And>x. x \<in> set ys \<Longrightarrow> f x = g x) \<Longrightarrow> mapE f xs = mapE g ys"
  by (induction ys arbitrary: xs) auto

lemma mapE_Inr_iff [res_simps]:
  "mapE f xs = Inr ys \<longleftrightarrow> list_all2 (\<lambda>x y. f x = Inr y) xs ys"
  by (induction xs arbitrary: ys) (auto simp: res_simps list_all2_Cons1)

lemma mapE_member:
  assumes "mapE f xs = Inr ys" "y \<in> set ys"
  shows "\<exists>x \<in> set xs. f x = Inr y"
  using assms by (induction xs arbitrary: ys) (auto simp: ebind_Inr_iff)

lemma mapE_image:
  assumes "mapE f xs = Inr ys" "x \<in> set xs"
  shows "\<exists>y \<in> set ys. f x = Inr y"
  using assms by (induction xs arbitrary: ys) (auto simp: ebind_Inr_iff)

lemma mapE_Inl: "mapE f xs = Inl e \<Longrightarrow> \<exists>x \<in> set xs. f x = Inl e"
  by (induction xs) (auto simp: ebind_Inl_iff)

lemma mapE_pure [simp]: "mapE (\<lambda>x. Inr (f x)) xs = Inr (map f xs)"
  by (induction xs) auto

lemma is_ok_emap [simp]: "is_ok (emap f m) \<longleftrightarrow> is_ok m"
  by (cases m) simp_all

lemma is_ok_mapE: "is_ok (mapE f xs) \<longleftrightarrow> (\<forall>x \<in> set xs. is_ok (f x))"
proof (induction xs)
  case (Cons x xs)
  then show ?case by (cases "f x"; cases "mapE f xs") auto
qed simp

lemma is_ok_ebind: "is_ok (ebind m f) \<longleftrightarrow> (\<exists>x. m = Inr x \<and> is_ok (f x))"
  by (cases m) auto

lemma is_ok_ebind_total: "(\<And>x. is_ok (f x)) \<Longrightarrow> is_ok (ebind m f) = is_ok m"
  by (cases m) auto

lemma mapE_append:
  "mapE f (xs @ ys) = ebind (mapE f xs) (\<lambda>us. ebind (mapE f ys) (\<lambda>vs. Inr (us @ vs)))"
proof (induction xs)
  case Nil
  show ?case by (cases "mapE f ys") auto
next
  case (Cons x xs)
  then show ?case
    by (cases "f x"; cases "mapE f xs"; cases "mapE f ys") auto
qed

lemma mapiE_Inr_iff [res_simps]:
  "mapiE i f xs = Inr ys \<longleftrightarrow> length ys = length xs \<and> (\<forall>k < length xs. f (i + k) (xs ! k) = Inr (ys ! k))"
proof (induction xs arbitrary: i ys)
  case Nil
  show ?case by auto
next
  case (Cons x xs)
  show ?case
  proof (cases ys)
    case Nil
    then show ?thesis by (auto simp: res_simps)
  next
    case (Cons y zs)
    then show ?thesis
      by (auto simp: res_simps Cons.IH All_less_Suc2)
  qed
qed

lemma foldE_invariant:
  assumes "foldE f s xs = Inr s'" and "P s"
    and "\<And>t x t'. P t \<Longrightarrow> x \<in> set xs \<Longrightarrow> f t x = Inr t' \<Longrightarrow> P t'"
  shows "P s'"
  using assms
proof (induction xs arbitrary: s)
  case (Cons x xs)
  from Cons.prems(1) obtain t where t: "f s x = Inr t" and rest: "foldE f t xs = Inr s'"
    by (auto simp: ebind_Inr_iff)
  have "P t" by (rule Cons.prems(3) [OF Cons.prems(2) _ t]) simp
  with rest show ?case by (rule Cons.IH) (use Cons.prems(3) in auto)
qed simp

lemma foldE_append: "foldE f s (xs @ ys) = ebind (foldE f s xs) (\<lambda>s'. foldE f s' ys)"
proof (induction xs arbitrary: s)
  case (Cons x xs)
  then show ?case by (cases "f s x") auto
qed simp

section \<open>Operations on a state that may throw\<close>

text \<open>
  A function that mutates an object and may throw: the result and the state it leaves behind, also
  when it throws.
\<close>

type_synonym ('s, 'a) sm = "'s \<Rightarrow> 'a res \<times> 's"

definition sret :: "'a \<Rightarrow> ('s, 'a) sm" where
  "sret x s = (Inr x, s)"

definition sbind :: "('s, 'a) sm \<Rightarrow> ('a \<Rightarrow> ('s, 'b) sm) \<Rightarrow> ('s, 'b) sm" where
  "sbind m f s = (case m s of (Inl e, s') \<Rightarrow> (Inl e, s') | (Inr x, s') \<Rightarrow> f x s')"

definition slift :: "'a res \<Rightarrow> ('s, 'a) sm" where
  "slift r s = (r, s)"

definition sget :: "('s, 's) sm" where
  "sget s = (Inr s, s)"

definition smodify :: "('s \<Rightarrow> 's) \<Rightarrow> ('s, unit) sm" where
  "smodify f s = (Inr (), f s)"

lemma sm_simps [simp]:
  "sret x s = (Inr x, s)" "slift r s = (r, s)" "sget s = (Inr s, s)" "smodify f s = (Inr (), f s)"
  by (simp_all add: sret_def slift_def sget_def smodify_def)

lemma sbind_simps [simp]:
  "m s = (Inl e, s') \<Longrightarrow> sbind m f s = (Inl e, s')"
  "m s = (Inr x, s') \<Longrightarrow> sbind m f s = f x s'"
  by (simp_all add: sbind_def)

lemma sbind_run:
  "sbind sget k s = k s s" "sbind (slift (Inr x)) f s = f x s" "sbind (slift (Inl e)) f s = (Inl e, s)"
  "sbind (smodify g) h s = h () (g s)" "sbind (sret x) f s = f x s"
  by simp_all

lemma sbind_assoc: "sbind (sbind m f) g s = sbind m (\<lambda>x. sbind (f x) g) s"
  by (simp add: sbind_def split: prod.split sum.split)

lemma sbind_Inr_iff:
  "sbind m f s = (Inr y, t) \<longleftrightarrow> (\<exists>x s'. m s = (Inr x, s') \<and> f x s' = (Inr y, t))"
  by (auto simp: sbind_def split: prod.splits sum.splits)

lemma sbind_Inl_iff:
  "sbind m f s = (Inl e, t) \<longleftrightarrow> m s = (Inl e, t) \<or> (\<exists>x s'. m s = (Inr x, s') \<and> f x s' = (Inl e, t))"
  by (auto simp: sbind_def split: prod.splits sum.splits)

text \<open>A property of the state that every step of a sequence keeps, whether or not one throws.\<close>

definition keeps :: "('s \<Rightarrow> bool) \<Rightarrow> ('s, 'a) sm \<Rightarrow> bool" where
  "keeps P m = (\<forall>s r t. P s \<longrightarrow> m s = (r, t) \<longrightarrow> P t)"

lemma keepsD: "keeps P m \<Longrightarrow> P s \<Longrightarrow> P (snd (m s))"
  by (cases "m s") (auto simp: keeps_def)

lemma keeps_slift [intro]: "keeps P (slift r)" and keeps_sret [intro]: "keeps P (sret x)" and keeps_sget [intro]: "keeps P sget"
  by (auto simp: keeps_def)

lemma keeps_smodify [intro]: "(\<And>s. P s \<Longrightarrow> P (f s)) \<Longrightarrow> keeps P (smodify f)"
  by (auto simp: keeps_def)

lemma keeps_sbind [intro]: "keeps P m \<Longrightarrow> (\<And>x. keeps P (f x)) \<Longrightarrow> keeps P (sbind m f)"
  unfolding keeps_def
proof (intro allI impI)
  fix s r t
  assume m: "\<forall>s r t. P s \<longrightarrow> m s = (r, t) \<longrightarrow> P t" and f: "\<And>x. \<forall>s r t. P s \<longrightarrow> f x s = (r, t) \<longrightarrow> P t"
    and s: "P s" and r: "sbind m f s = (r, t)"
  obtain q u where u: "m s = (q, u)" by (cases "m s")
  with m s have "P u" by blast
  with f r u show "P t" by (cases q) auto
qed

section \<open>Lists without repetition, in first-occurrence order\<close>

text \<open>
  A JavaScript \<open>Set\<close> keeps its elements in the order of their first insertion.  It is the list of
  its elements.
\<close>

definition set_add :: "'a \<Rightarrow> 'a list \<Rightarrow> 'a list" where
  "set_add x xs = (if x \<in> set xs then xs else xs @ [x])"

definition set_remove :: "'a \<Rightarrow> 'a list \<Rightarrow> 'a list" where
  "set_remove x xs = filter (\<lambda>y. y \<noteq> x) xs"

definition set_of :: "'a list \<Rightarrow> 'a list" where
  "set_of xs = fold set_add xs []"

lemma set_set_add [simp]: "set (set_add x xs) = insert x (set xs)"
  by (auto simp: set_add_def)

lemma set_set_remove [simp]: "set (set_remove x xs) = set xs - {x}"
  by (auto simp: set_remove_def)

lemma distinct_set_add [simp]: "distinct (set_add x xs) = distinct xs"
  by (auto simp: set_add_def)

lemma distinct_set_remove [simp]: "distinct xs \<Longrightarrow> distinct (set_remove x xs)"
  by (simp add: set_remove_def)

lemma set_fold_set_add: "set (fold set_add xs ys) = set xs \<union> set ys"
  by (induction xs arbitrary: ys) auto

lemma distinct_fold_set_add: "distinct (fold set_add xs ys) = distinct ys"
  by (induction xs arbitrary: ys) auto

lemma set_set_of [simp]: "set (set_of xs) = set xs"
  by (simp add: set_of_def set_fold_set_add)

lemma distinct_set_of [simp]: "distinct (set_of xs)"
  by (simp add: set_of_def distinct_fold_set_add)

lemma fold_set_add_distinct: "distinct (ys @ xs) \<Longrightarrow> fold set_add xs ys = ys @ xs"
proof (induction xs arbitrary: ys)
  case (Cons x xs)
  then have "set_add x ys = ys @ [x]" by (auto simp: set_add_def)
  with Cons.IH [of "ys @ [x]"] Cons.prems show ?case by simp
qed simp

lemma set_of_distinct: "distinct xs \<Longrightarrow> set_of xs = xs"
  by (simp add: set_of_def fold_set_add_distinct)

lemma length_set_of_le: "length (set_of xs) \<le> length xs"
proof -
  have "length (fold set_add xs ys) \<le> length ys + length xs" for ys :: "'a list"
  proof (induction xs arbitrary: ys)
    case (Cons x xs)
    have "length (set_add x ys) \<le> Suc (length ys)" by (simp add: set_add_def)
    with Cons [of "set_add x ys"] show ?case by simp
  qed simp
  from this [of "[]"] show ?thesis by (simp add: set_of_def)
qed

lemma length_set_of_iff: "length (set_of xs) = length xs \<longleftrightarrow> distinct xs"
proof
  assume "length (set_of xs) = length xs"
  moreover have "length (set_of xs) = card (set xs)"
    by (metis distinct_card distinct_set_of set_set_of)
  ultimately show "distinct xs" by (simp add: card_distinct)
qed (simp add: set_of_distinct)

section \<open>Key-value maps in insertion order\<close>

text \<open>A JavaScript \<open>Map\<close>: overwriting keeps the position, deleting and re-adding moves to the end.\<close>

type_synonym ('k, 'v) jmap = "('k \<times> 'v) list"

fun jm_set :: "'k \<Rightarrow> 'v \<Rightarrow> ('k, 'v) jmap \<Rightarrow> ('k, 'v) jmap" where
  "jm_set k v [] = [(k, v)]"
| "jm_set k v ((k', v') # m) = (if k = k' then (k, v) # m else (k', v') # jm_set k v m)"

definition jm_get :: "('k, 'v) jmap \<Rightarrow> 'k \<Rightarrow> 'v option" where
  "jm_get m k = map_of m k"

definition jm_delete :: "'k \<Rightarrow> ('k, 'v) jmap \<Rightarrow> ('k, 'v) jmap" where
  "jm_delete k m = filter (\<lambda>(k', _). k' \<noteq> k) m"

definition jm_has :: "('k, 'v) jmap \<Rightarrow> 'k \<Rightarrow> bool" where
  "jm_has m k = (k \<in> fst ` set m)"

abbreviation jm_keys :: "('k, 'v) jmap \<Rightarrow> 'k list" where
  "jm_keys m \<equiv> map fst m"

definition jm_wf :: "('k, 'v) jmap \<Rightarrow> bool" where
  "jm_wf m = distinct (map fst m)"

lemma jm_get_set: "jm_get (jm_set k v m) k' = (if k' = k then Some v else jm_get m k')"
  by (induction k v m rule: jm_set.induct) (auto simp: jm_get_def)

lemma jm_get_delete: "jm_get (jm_delete k m) k' = (if k' = k then None else jm_get m k')"
  by (induction m) (auto simp: jm_get_def jm_delete_def)

lemma jm_has_get: "jm_has m k \<longleftrightarrow> jm_get m k \<noteq> None"
  by (simp add: jm_has_def jm_get_def map_of_eq_None_iff)

lemma jm_keys_set: "fst ` set (jm_set k v m) = insert k (fst ` set m)"
  by (induction k v m rule: jm_set.induct) auto

lemma jm_keys_delete: "fst ` set (jm_delete k m) = fst ` set m - {k}"
  by (force simp: jm_delete_def)

lemma jm_has_set: "jm_has (jm_set k v m) k' \<longleftrightarrow> k' = k \<or> jm_has m k'"
  by (auto simp: jm_has_def jm_keys_set)

lemma jm_has_delete: "jm_has (jm_delete k m) k' \<longleftrightarrow> k' \<noteq> k \<and> jm_has m k'"
  by (auto simp: jm_has_def jm_keys_delete)

lemma jm_wf_set: "jm_wf m \<Longrightarrow> jm_wf (jm_set k v m)"
proof (induction k v m rule: jm_set.induct)
  case (2 k v k' v' m)
  then show ?case using jm_keys_set [of k v m] by (auto simp: jm_wf_def)
qed (simp add: jm_wf_def)

lemma jm_wf_delete: "jm_wf m \<Longrightarrow> jm_wf (jm_delete k m)"
  by (induction m) (auto simp: jm_wf_def jm_delete_def)

text \<open>
  The contract a client of a key-value store relies on, and what follows from it once and for all.
\<close>

locale key_value_store =
  fixes get :: "'m \<Rightarrow> 'k \<Rightarrow> 'v option"
    and put :: "'k \<Rightarrow> 'v \<Rightarrow> 'm \<Rightarrow> 'm"
    and del :: "'k \<Rightarrow> 'm \<Rightarrow> 'm"
    and wf :: "'m \<Rightarrow> bool"
  assumes get_put: "get (put k v m) k' = (if k' = k then Some v else get m k')"
    and get_del: "get (del k m) k' = (if k' = k then None else get m k')"
    and wf_put: "wf m \<Longrightarrow> wf (put k v m)"
    and wf_del: "wf m \<Longrightarrow> wf (del k m)"
begin

lemma dom_put: "dom (get (put k v m)) = insert k (dom (get m))"
  by (auto simp: dom_def get_put)

lemma dom_del: "dom (get (del k m)) = dom (get m) - {k}"
  by (auto simp: dom_def get_del)

lemma put_put_same: "get (put k v (put k w m)) = get (put k v m)"
  by (rule ext) (simp add: get_put)

lemma put_commute: "k \<noteq> k' \<Longrightarrow> get (put k v (put k' w m)) = get (put k' w (put k v m))"
  by (rule ext) (simp add: get_put)

lemma fold_put_other: "k \<notin> fst ` set kvs \<Longrightarrow> get (fold (\<lambda>(k, v). put k v) kvs m) k = get m k"
  by (induction kvs arbitrary: m) (auto simp: get_put)

end

interpretation jm: key_value_store jm_get jm_set jm_delete jm_wf
  by unfold_locales (simp_all add: jm_get_set jm_get_delete jm_wf_set jm_wf_delete)

text \<open>
  The contract of a set, and of a digest of a set that depends on the elements only.  The Merkle set
  and the vault's address sets implement both.
\<close>

locale set_adt =
  fixes empty :: 's
    and add :: "'a \<Rightarrow> 's \<Rightarrow> 's"
    and remove :: "'a \<Rightarrow> 's \<Rightarrow> 's"
    and member :: "'s \<Rightarrow> 'a \<Rightarrow> bool"
    and abs :: "'s \<Rightarrow> 'a set"
    and wf :: "'s \<Rightarrow> bool"
  assumes abs_empty: "abs empty = {}"
    and abs_add: "abs (add x s) = insert x (abs s)"
    and abs_remove: "abs (remove x s) = abs s - {x}"
    and member_abs: "member s x \<longleftrightarrow> x \<in> abs s"
    and wf_empty: "wf empty"
    and wf_add: "wf s \<Longrightarrow> wf (add x s)"
    and wf_remove: "wf s \<Longrightarrow> wf (remove x s)"
begin

lemma abs_fold_add: "abs (fold add xs s) = set xs \<union> abs s"
  by (induction xs arbitrary: s) (auto simp: abs_add)

lemma wf_fold_add: "wf s \<Longrightarrow> wf (fold add xs s)"
  by (induction xs arbitrary: s) (auto simp: wf_add)

lemma member_add: "member (add x s) y \<longleftrightarrow> y = x \<or> member s y"
  by (auto simp: member_abs abs_add)

lemma member_remove: "member (remove x s) y \<longleftrightarrow> y \<noteq> x \<and> member s y"
  by (auto simp: member_abs abs_remove)

end

locale set_digest = set_adt empty add remove member abs wf
  for empty :: 's
    and add :: "'a \<Rightarrow> 's \<Rightarrow> 's"
    and remove :: "'a \<Rightarrow> 's \<Rightarrow> 's"
    and member :: "'s \<Rightarrow> 'a \<Rightarrow> bool"
    and abs :: "'s \<Rightarrow> 'a set"
    and wf :: "'s \<Rightarrow> bool" +
  fixes digest :: "'s \<Rightarrow> 'd"
  assumes digest_abs: "wf s \<Longrightarrow> wf t \<Longrightarrow> abs s = abs t \<Longrightarrow> digest s = digest t"
begin

lemma digest_add_commute: "wf s \<Longrightarrow> digest (add x (add y s)) = digest (add y (add x s))"
  by (rule digest_abs) (auto simp: wf_add abs_add)

lemma digest_add_member: "wf s \<Longrightarrow> member s x \<Longrightarrow> digest (add x s) = digest s"
  by (rule digest_abs) (auto simp: wf_add abs_add member_abs)

lemma digest_remove_add: "wf s \<Longrightarrow> \<not> member s x \<Longrightarrow> digest (remove x (add x s)) = digest s"
  by (rule digest_abs) (auto simp: wf_add wf_remove abs_add abs_remove member_abs)

lemma digest_fold_add:
  "wf s \<Longrightarrow> set xs = set ys \<Longrightarrow> digest (fold add xs s) = digest (fold add ys s)"
  by (rule digest_abs) (auto simp: wf_fold_add abs_fold_add)

end

interpretation js_set: set_adt "[]" set_add set_remove "\<lambda>s x. x \<in> set s" set distinct
  by unfold_locales auto

text \<open>
  The contract of a verification that may throw: whenever it returns, its verdict is a given predicate of
  the object and of what was asked.  Consent grants and boundary manifests are verified this way, and
  recall decisions and path classifications rely on nothing else.
\<close>

locale verifier =
  fixes verify :: "'s \<Rightarrow> 'a \<Rightarrow> 'r res"
    and ok :: "'r \<Rightarrow> bool"
    and good :: "'s \<Rightarrow> 'a \<Rightarrow> bool"
  assumes verdict: "verify s x = Inr r \<Longrightarrow> ok r \<longleftrightarrow> good s x"
begin

lemma accepts_iff: "(\<exists>r. verify s x = Inr r \<and> ok r) \<longleftrightarrow> is_ok (verify s x) \<and> good s x"
  using verdict by (auto simp: is_ok_iff)

lemma some_accepted: "(\<exists>x \<in> A. \<exists>r. verify s x = Inr r \<and> ok r) \<longleftrightarrow> (\<exists>x \<in> A. is_ok (verify s x) \<and> good s x)"
  by (simp add: accepts_iff)

lemma refuses: "verify s x = Inr r \<Longrightarrow> \<not> good s x \<Longrightarrow> \<not> ok r"
  by (simp add: verdict)

end

section \<open>Sorting and binary search\<close>

lemma sorted_distinct_nth_less:
  "sorted xs \<Longrightarrow> distinct xs \<Longrightarrow> i < j \<Longrightarrow> j < length xs \<Longrightarrow> xs ! i < (xs ! j :: 'a :: linorder)"
  using sorted_nth_mono [of xs i j] nth_eq_iff_index_eq [of xs i j] by force

lemma sort_eq_iff_set:
  fixes xs :: "'a :: linorder list"
  assumes "distinct xs" "distinct ys"
  shows "sort xs = sort ys \<longleftrightarrow> set xs = set ys"
  by (metis assms distinct_sort set_sort sorted_distinct_set_unique sorted_sort)

end
