(* ===== verification/JsRegex.thy ===== *)
theory JsRegex
  imports Prelude
begin

text \<open>
  The regular expressions of the sources.  An expression without capture groups or back-references
  denotes a language, and \<open>RegExp.prototype.test\<close> asks whether some substring (the whole string,
  when both anchors are present) lies in it.  The matcher computes Brzozowski derivatives;
  \<open>rx_full_iff_lang\<close> shows that it decides the language.  The flag \<open>i\<close> is modelled by lower-casing
  the subject and writing the pattern in lower case, which is exact for the ASCII patterns used.
\<close>

section \<open>Character classes\<close>

definition ch_in :: "string \<Rightarrow> char \<Rightarrow> bool" where
  "ch_in cs c = (c \<in> set cs)"

definition ch_range :: "char \<Rightarrow> char \<Rightarrow> char \<Rightarrow> bool" where
  "ch_range a b c = (a \<le> c \<and> c \<le> b)"

definition ch_lower :: "char \<Rightarrow> bool" where "ch_lower c = ch_range (CHR ''a'') (CHR ''z'') c"
definition ch_upper :: "char \<Rightarrow> bool" where "ch_upper c = ch_range (CHR ''A'') (CHR ''Z'') c"
definition ch_digit :: "char \<Rightarrow> bool" where "ch_digit c = ch_range (CHR ''0'') (CHR ''9'') c"
definition ch_alnum :: "char \<Rightarrow> bool" where "ch_alnum c = (ch_lower c \<or> ch_upper c \<or> ch_digit c)"
definition ch_word :: "char \<Rightarrow> bool" where "ch_word c = (ch_alnum c \<or> c = CHR ''_'')"
definition ch_hex :: "char \<Rightarrow> bool" where
  "ch_hex c = (ch_range (CHR ''a'') (CHR ''f'') c \<or> ch_digit c)"

text \<open>\<open>\s\<close> on the code units below 256: tab to carriage return, space, no-break space.\<close>

definition ch_space :: "char \<Rightarrow> bool" where
  "ch_space c = (let n = of_char c :: nat in (9 \<le> n \<and> n \<le> 13) \<or> n = 32 \<or> n = 160)"

section \<open>Expressions and their languages\<close>

datatype rx =
    RNone
  | REps
  | RCls "char \<Rightarrow> bool"
  | RSeq rx rx
  | RAlt rx rx
  | RRep rx nat "nat option"

definition conc :: "string set \<Rightarrow> string set \<Rightarrow> string set" where
  "conc A B = {u @ v | u v. u \<in> A \<and> v \<in> B}"

primrec pow :: "string set \<Rightarrow> nat \<Rightarrow> string set" where
  "pow A 0 = {[]}"
| "pow A (Suc n) = conc A (pow A n)"

definition in_bounds :: "nat \<Rightarrow> nat option \<Rightarrow> nat \<Rightarrow> bool" where
  "in_bounds m n k = (m \<le> k \<and> (case n of None \<Rightarrow> True | Some n' \<Rightarrow> k \<le> n'))"

primrec lang :: "rx \<Rightarrow> string set" where
  "lang RNone = {}"
| "lang REps = {[]}"
| "lang (RCls p) = {[c] | c. p c}"
| "lang (RSeq r s) = conc (lang r) (lang s)"
| "lang (RAlt r s) = lang r \<union> lang s"
| "lang (RRep r m n) = \<Union> (pow (lang r) ` {k. in_bounds m n k})"

section \<open>The matcher\<close>

primrec nullable :: "rx \<Rightarrow> bool" where
  "nullable RNone = False"
| "nullable REps = True"
| "nullable (RCls p) = False"
| "nullable (RSeq r s) = (nullable r \<and> nullable s)"
| "nullable (RAlt r s) = (nullable r \<or> nullable s)"
| "nullable (RRep r m n) =
     ((m = 0 \<or> nullable r) \<and> (case n of None \<Rightarrow> True | Some n' \<Rightarrow> m \<le> n'))"

fun rseq :: "rx \<Rightarrow> rx \<Rightarrow> rx" where
  "rseq RNone s = RNone"
| "rseq REps s = s"
| "rseq r s = RSeq r s"

fun ralt :: "rx \<Rightarrow> rx \<Rightarrow> rx" where
  "ralt RNone s = s"
| "ralt r RNone = r"
| "ralt r s = RAlt r s"

primrec deriv :: "char \<Rightarrow> rx \<Rightarrow> rx" where
  "deriv c RNone = RNone"
| "deriv c REps = RNone"
| "deriv c (RCls p) = (if p c then REps else RNone)"
| "deriv c (RSeq r s) =
     (if nullable r then ralt (rseq (deriv c r) s) (deriv c s) else rseq (deriv c r) s)"
| "deriv c (RAlt r s) = ralt (deriv c r) (deriv c s)"
| "deriv c (RRep r m n) =
     (if n = Some 0 then RNone
      else rseq (deriv c r) (RRep r (m - 1) (map_option (\<lambda>k. k - 1) n)))"

fun rx_full :: "rx \<Rightarrow> string \<Rightarrow> bool" where
  "rx_full r [] = nullable r"
| "rx_full r (c # s) = rx_full (deriv c r) s"

text \<open>Building blocks: literals, options, repetitions, alternatives; \<open>/r/\<close>, \<open>/^r/\<close>, \<open>/r$/\<close>.\<close>

definition rx_lit :: "string \<Rightarrow> rx" where
  "rx_lit s = foldr (\<lambda>c r. RSeq (RCls (\<lambda>d. d = c)) r) s REps"

definition rx_opt :: "rx \<Rightarrow> rx" where "rx_opt r = RRep r 0 (Some 1)"
definition rx_star :: "rx \<Rightarrow> rx" where "rx_star r = RRep r 0 None"
definition rx_plus :: "rx \<Rightarrow> rx" where "rx_plus r = RRep r 1 None"
definition rx_times :: "nat \<Rightarrow> rx \<Rightarrow> rx" where "rx_times n r = RRep r n (Some n)"
definition rx_any :: rx where "rx_any = rx_star (RCls (\<lambda>_. True))"
definition rx_seqs :: "rx list \<Rightarrow> rx" where "rx_seqs rs = foldr RSeq rs REps"
definition rx_alts :: "rx list \<Rightarrow> rx" where "rx_alts rs = foldr RAlt rs RNone"

definition rx_search :: "rx \<Rightarrow> string \<Rightarrow> bool" where
  "rx_search r s = rx_full (rx_seqs [rx_any, r, rx_any]) s"

definition rx_prefix :: "rx \<Rightarrow> string \<Rightarrow> bool" where
  "rx_prefix r s = rx_full (RSeq r rx_any) s"

definition rx_suffix :: "rx \<Rightarrow> string \<Rightarrow> bool" where
  "rx_suffix r s = rx_full (RSeq rx_any r) s"

text \<open>\<open>\b\<close> holds between two positions of which exactly one is a word character.\<close>

definition word_at :: "string \<Rightarrow> nat \<Rightarrow> bool" where
  "word_at s i = (i < length s \<and> ch_word (s ! i))"

definition word_boundary :: "string \<Rightarrow> nat \<Rightarrow> bool" where
  "word_boundary s i = ((0 < i \<and> word_at s (i - 1)) \<noteq> word_at s i)"

definition rx_word_search :: "rx \<Rightarrow> string \<Rightarrow> bool" where
  "rx_word_search r s =
     list_ex (\<lambda>i. word_boundary s i \<and>
       list_ex (\<lambda>j. word_boundary s j \<and> rx_full r (take (j - i) (drop i s))) [i..<Suc (length s)])
     [0..<Suc (length s)]"

section \<open>Correctness of the matcher\<close>

lemma conc_simps [simp]: "conc {} B = {}" "conc {[]} B = B"
  by (auto simp: conc_def)

lemma Nil_in_conc [simp]: "[] \<in> conc A B \<longleftrightarrow> [] \<in> A \<and> [] \<in> B"
  by (auto simp: conc_def)

lemma lang_rseq [simp]: "lang (rseq r s) = conc (lang r) (lang s)"
  by (cases "(r, s)" rule: rseq.cases) auto

lemma lang_ralt [simp]: "lang (ralt r s) = lang r \<union> lang s"
  by (cases "(r, s)" rule: ralt.cases) auto

lemma Nil_in_pow: "[] \<in> pow A k \<longleftrightarrow> k = 0 \<or> [] \<in> A"
  by (induction k) auto

lemma nullable_iff_lang: "nullable r \<longleftrightarrow> [] \<in> lang r"
proof (induction r)
  case (RRep r m n)
  have "(\<exists>k. in_bounds m n k \<and> (k = 0 \<or> [] \<in> lang r)) \<longleftrightarrow> nullable (RRep r m n)"
    using RRep by (cases n) (auto simp: in_bounds_def)
  then show ?case by (auto simp: Nil_in_pow)
qed auto

lemma Cons_in_conc:
  "c # s \<in> conc A B \<longleftrightarrow> s \<in> conc {u. c # u \<in> A} B \<or> ([] \<in> A \<and> c # s \<in> B)"
proof
  assume "c # s \<in> conc A B"
  then obtain u v where uv: "c # s = u @ v" "u \<in> A" "v \<in> B" by (auto simp: conc_def)
  then show "s \<in> conc {u. c # u \<in> A} B \<or> ([] \<in> A \<and> c # s \<in> B)"
    by (cases u) (auto simp: conc_def)
next
  assume "s \<in> conc {u. c # u \<in> A} B \<or> ([] \<in> A \<and> c # s \<in> B)"
  then show "c # s \<in> conc A B"
  proof
    assume "s \<in> conc {u. c # u \<in> A} B"
    then obtain u v where "s = u @ v" "c # u \<in> A" "v \<in> B" by (auto simp: conc_def)
    then have "c # s = (c # u) @ v" by simp
    with \<open>c # u \<in> A\<close> \<open>v \<in> B\<close> show ?thesis unfolding conc_def by blast
  next
    assume "[] \<in> A \<and> c # s \<in> B"
    then show ?thesis unfolding conc_def by force
  qed
qed

lemma pow_mono_Nil: "[] \<in> A \<Longrightarrow> s \<in> pow A k \<Longrightarrow> k \<le> l \<Longrightarrow> s \<in> pow A l"
proof (induction l)
  case (Suc l)
  show ?case
  proof (cases "k = Suc l")
    case False
    with Suc have "s \<in> pow A l" by simp
    with Suc.prems(1) show ?thesis by (force simp: conc_def intro: exI [of _ "[]"])
  qed (use Suc in simp)
qed simp

lemma Cons_in_pow:
  "c # s \<in> pow A k \<longleftrightarrow> k > 0 \<and> s \<in> conc {u. c # u \<in> A} (pow A (k - 1))"
proof (induction k)
  case (Suc k)
  have skip: "s \<in> conc {u. c # u \<in> A} (pow A k)"
    if Nil: "[] \<in> A" and pos: "k > 0" and s: "s \<in> conc {u. c # u \<in> A} (pow A (k - 1))"
  proof -
    from s obtain u v where "s = u @ v" "c # u \<in> A" "v \<in> pow A (k - 1)" by (auto simp: conc_def)
    moreover from this have "v \<in> pow A k" using pow_mono_Nil [OF Nil, of v "k - 1" k] by simp
    ultimately show ?thesis by (auto simp: conc_def)
  qed
  show ?case using Suc skip by (auto simp: Cons_in_conc)
qed auto

lemma lang_deriv: "s \<in> lang (deriv c r) \<longleftrightarrow> c # s \<in> lang r"
proof (induction r arbitrary: s)
  case (RSeq r1 r2)
  have "{u. c # u \<in> lang r1} = lang (deriv c r1)" using RSeq.IH(1) by auto
  with RSeq show ?case by (auto simp: Cons_in_conc nullable_iff_lang)
next
  case (RRep r m n)
  let ?n = "map_option (\<lambda>k. k - 1) n"
  have hd: "{u. c # u \<in> lang r} = lang (deriv c r)" using RRep.IH by auto
  have bnd: "in_bounds m n (Suc k) \<longleftrightarrow> n \<noteq> Some 0 \<and> in_bounds (m - 1) ?n k" for k
    by (cases n) (auto simp: in_bounds_def)
  have "c # s \<in> lang (RRep r m n)
      \<longleftrightarrow> (\<exists>k. in_bounds m n k \<and> 0 < k \<and> s \<in> conc (lang (deriv c r)) (pow (lang r) (k - 1)))"
    by (auto simp: Cons_in_pow hd)
  also have "\<dots> \<longleftrightarrow> (\<exists>k. in_bounds m n (Suc k) \<and> s \<in> conc (lang (deriv c r)) (pow (lang r) k))"
    by (metis Suc_pred' diff_Suc_1 zero_less_Suc)
  also have "\<dots> \<longleftrightarrow> s \<in> lang (deriv c (RRep r m n))"
    by (auto simp: bnd conc_def)
  finally show ?case by simp
qed auto

lemma rx_full_iff_lang: "rx_full r s \<longleftrightarrow> s \<in> lang r"
  by (induction r s rule: rx_full.induct) (simp_all add: nullable_iff_lang lang_deriv)

lemma ch_lower_iff: "ch_lower c \<longleftrightarrow> 97 \<le> (of_char c :: nat) \<and> (of_char c :: nat) \<le> 122"
  by (simp add: ch_lower_def ch_range_def less_eq_char_def)

lemma ch_upper_iff: "ch_upper c \<longleftrightarrow> 65 \<le> (of_char c :: nat) \<and> (of_char c :: nat) \<le> 90"
  by (simp add: ch_upper_def ch_range_def less_eq_char_def)

section \<open>Languages of the building blocks\<close>

named_theorems rx_lang

lemma lang_lit [rx_lang]: "lang (rx_lit s) = {s}"
  by (induction s) (auto simp: rx_lit_def conc_def)

lemma pow_cls: "pow {[c] |c. p c} n = {s. length s = n \<and> list_all p s}"
proof (induction n)
  case (Suc n)
  have "x # xs \<in> conc {[c] |c. p c} A \<longleftrightarrow> p x \<and> xs \<in> A" for x xs A
    unfolding Cons_in_conc by (auto simp: conc_def)
  then have "s \<in> conc {[c] |c. p c} {s. length s = n \<and> list_all p s}
      \<longleftrightarrow> length s = Suc n \<and> list_all p s" for s
    by (cases s) auto
  then show ?case by (auto simp: Suc)
qed auto

lemma lang_times_cls [rx_lang]: "lang (rx_times n (RCls p)) = {s. length s = n \<and> list_all p s}"
  by (auto simp: rx_times_def in_bounds_def pow_cls)

lemma lang_star_cls [rx_lang]: "lang (rx_star (RCls p)) = {s. list_all p s}"
  by (auto simp: rx_star_def in_bounds_def pow_cls)

lemma lang_rep_cls [rx_lang]:
  "lang (RRep (RCls p) m (Some n)) = {s. m \<le> length s \<and> length s \<le> n \<and> list_all p s}"
  by (auto simp: in_bounds_def pow_cls)

lemma lang_opt [rx_lang]: "lang (rx_opt r) = insert [] (lang r)"
proof -
  have "{k. in_bounds 0 (Some (1::nat)) k} = {0, 1}" by (auto simp: in_bounds_def)
  then show ?thesis by (auto simp: rx_opt_def conc_def)
qed

lemma lang_any [rx_lang]: "lang rx_any = UNIV"
  by (simp add: rx_any_def rx_lang list_all_iff)

lemma lang_seqs [rx_lang]: "lang (rx_seqs []) = {[]}" "lang (rx_seqs (r # rs)) = conc (lang r) (lang (rx_seqs rs))"
  by (simp_all add: rx_seqs_def)

lemma lang_alts [rx_lang]: "lang (rx_alts rs) = \<Union> (lang ` set rs)"
  by (induction rs) (auto simp: rx_alts_def)

lemma conc_single: "conc {s} B = {s @ v | v. v \<in> B}"
  by (auto simp: conc_def)

lemma conc_UNIV_single: "conc A {[]} = A"
  by (auto simp: conc_def)

lemma rx_search_iff: "rx_search r s \<longleftrightarrow> (\<exists>u v w. s = u @ v @ w \<and> v \<in> lang r)"
  by (auto simp: rx_search_def rx_full_iff_lang rx_lang conc_def)

end
