(* ===== verification/JsValue.thy ===== *)
theory JsValue
  imports JsRegex
begin

text \<open>
  JavaScript values and the parts of the language and its standard library that the sources use:
  property access and assignment, nullish coalescing, truthiness, strict equality, conversion to
  string, \<open>JSON.stringify\<close> of primitives, string methods.

  Representation.  A string is the list of its UTF-16 code units, restricted to units below 256
  (\<open>char\<close>).  A finite double is named by its shortest decimal notation
  (\<open>Number::toString\<close>): \<open>NInt i\<close> is the one written as the integer \<open>i\<close> in plain digits (every safe
  integer, so every count, index and sequence number, and other integers below $10^{21}$), \<open>NDec m e\<close> any
  other, with the digits \<open>m\<close> and exponent \<open>e\<close> of its notation $m \cdot 10^e$; \<open>NNegZero\<close> is \<open>-0\<close>, and there
  are the three non-finite values.  An object is the list of its own
  enumerable properties in enumeration order; \<open>JInst\<close> is an object whose prototype is neither
  \<open>Object.prototype\<close> nor \<open>null\<close> (a class instance, a \<open>Date\<close>, a \<open>Map\<close>), \<open>JBytes\<close> a Node
  \<open>Buffer\<close>, \<open>JHole\<close> a missing element of a sparse array.  Values are finite trees: a cyclic
  object, which the sources detect and reject, has no representation.
\<close>

section \<open>Values\<close>

datatype jsnum = NInt int | NNegZero | NDec int int | NNaN | NPosInf | NNegInf

datatype jsval =
    JUndef
  | JNull
  | JBool bool
  | JNum jsnum
  | JStr string
  | JArr "jsval list"
  | JObj "(string \<times> jsval) list"
  | JInst string "(string \<times> jsval) list"
  | JBytes string
  | JFun
  | JSym
  | JBig int
  | JHole

type_synonym props = "(string \<times> jsval) list"

abbreviation JInt :: "int \<Rightarrow> jsval" where
  "JInt i \<equiv> JNum (NInt i)"

section \<open>Numbers\<close>

definition is_finite :: "jsnum \<Rightarrow> bool" where
  "is_finite n = (case n of NNaN \<Rightarrow> False | NPosInf \<Rightarrow> False | NNegInf \<Rightarrow> False | _ \<Rightarrow> True)"

text \<open>\<open>Number.isInteger\<close> together with the integer it denotes.\<close>

fun num_int :: "jsnum \<Rightarrow> int option" where
  "num_int (NInt i) = Some i"
| "num_int NNegZero = Some 0"
| "num_int (NDec m e) = (if 0 \<le> e then Some (m * 10 ^ nat e) else None)"
| "num_int _ = None"

definition as_int :: "jsval \<Rightarrow> int option" where
  "as_int v = (case v of JNum n \<Rightarrow> num_int n | _ \<Rightarrow> None)"

definition isInteger :: "jsval \<Rightarrow> bool" where
  "isInteger v = (as_int v \<noteq> None)"

text \<open>\<open>Number.isInteger(v) && v >= 0\<close>, the guard of most counters.\<close>

definition as_count :: "jsval \<Rightarrow> nat option" where
  "as_count v = (case as_int v of None \<Rightarrow> None | Some i \<Rightarrow> if i < 0 then None else Some (nat i))"

definition digit_char :: "nat \<Rightarrow> char" where
  "digit_char d = char_of (48 + d)"

fun nat_to_string :: "nat \<Rightarrow> string" where
  "nat_to_string n =
     (if n < 10 then [digit_char n] else nat_to_string (n div 10) @ [digit_char (n mod 10)])"

declare nat_to_string.simps [simp del]

definition int_to_string :: "int \<Rightarrow> string" where
  "int_to_string i = (if i < 0 then CHR ''-'' # nat_to_string (nat (- i)) else nat_to_string (nat i))"

text \<open>\<open>Number::toString\<close> of ECMA-262: \<open>k\<close> significant digits, decimal point after digit \<open>n\<close>.\<close>

definition exp_suffix :: "int \<Rightarrow> string" where
  "exp_suffix x = ''e'' @ (if x < 0 then ''-'' else ''+'') @ nat_to_string (nat \<bar>x\<bar>)"

definition dec_to_string :: "nat \<Rightarrow> int \<Rightarrow> string" where
  "dec_to_string m e =
     (let s = nat_to_string m; k = int (length s); n = k + e in
      if k \<le> n \<and> n \<le> 21 then s @ replicate (nat (n - k)) (CHR ''0'')
      else if 0 < n \<and> n \<le> 21 then take (nat n) s @ ''.'' @ drop (nat n) s
      else if - 6 < n \<and> n \<le> 0 then ''0.'' @ replicate (nat (- n)) (CHR ''0'') @ s
      else if k = 1 then s @ exp_suffix (n - 1)
      else take 1 s @ ''.'' @ drop 1 s @ exp_suffix (n - 1))"

fun num_to_string :: "jsnum \<Rightarrow> string" where
  "num_to_string (NInt i) = int_to_string i"
| "num_to_string NNegZero = ''0''"
| "num_to_string (NDec m e) = (if m < 0 then ''-'' else '''') @ dec_to_string (nat \<bar>m\<bar>) e"
| "num_to_string NNaN = ''NaN''"
| "num_to_string NPosInf = ''Infinity''"
| "num_to_string NNegInf = ''-Infinity''"

section \<open>Objects\<close>

text \<open>
  Own property keys are enumerated with the array indices first, in ascending order, and then the
  other keys in insertion order.
\<close>

fun digits_value :: "nat \<Rightarrow> string \<Rightarrow> nat" where
  "digits_value a [] = a"
| "digits_value a (c # s) = digits_value (10 * a + (of_char c - 48)) s"

definition is_array_index :: "string \<Rightarrow> bool" where
  "is_array_index k =
     (k \<noteq> [] \<and> list_all ch_digit k \<and> (k = ''0'' \<or> hd k \<noteq> CHR ''0'')
      \<and> digits_value 0 k < 4294967295)"

definition before_index :: "string \<Rightarrow> string \<times> 'v \<Rightarrow> bool" where
  "before_index k p = (is_array_index (fst p) \<and> digits_value 0 (fst p) < digits_value 0 k)"

definition has_key :: "(string \<times> 'v) list \<Rightarrow> string \<Rightarrow> bool" where
  "has_key xs k = (k \<in> fst ` set xs)"

definition obj_put :: "string \<Rightarrow> jsval \<Rightarrow> props \<Rightarrow> props" where
  "obj_put k v xs =
     (if has_key xs k then map (\<lambda>p. if fst p = k then (k, v) else p) xs
      else if is_array_index k then
        takeWhile (before_index k) xs @ (k, v) # dropWhile (before_index k) xs
      else xs @ [(k, v)])"

definition obj_get :: "props \<Rightarrow> string \<Rightarrow> jsval" where
  "obj_get xs k = (case map_of xs k of None \<Rightarrow> JUndef | Some v \<Rightarrow> v)"

definition obj_del :: "string \<Rightarrow> props \<Rightarrow> props" where
  "obj_del k xs = filter (\<lambda>(k', _). k' \<noteq> k) xs"

definition obj_puts :: "props \<Rightarrow> props \<Rightarrow> props" where
  "obj_puts kvs xs = fold (\<lambda>(k, v). obj_put k v) kvs xs"

fun index_props :: "nat \<Rightarrow> jsval list \<Rightarrow> props" where
  "index_props i [] = []"
| "index_props i (x # xs) = (nat_to_string i, x) # index_props (Suc i) xs"

text \<open>\<open>Object.entries\<close> (own enumerable properties); nothing for the primitives and functions.\<close>

fun props_of :: "jsval \<Rightarrow> props" where
  "props_of (JObj xs) = xs"
| "props_of (JInst c xs) = xs"
| "props_of (JArr xs) = filter (\<lambda>p. snd p \<noteq> JHole) (index_props 0 xs)"
| "props_of (JBytes s) = index_props 0 (map (\<lambda>c. JInt (int (of_char c))) s)"
| "props_of (JStr s) = index_props 0 (map (\<lambda>c. JStr [c]) s)"
| "props_of _ = []"

definition keys_of :: "jsval \<Rightarrow> string list" where
  "keys_of v = map fst (props_of v)"

text \<open>\<open>v.k\<close> and \<open>v?.k\<close>; the former throws on \<open>undefined\<close> and \<open>null\<close>.\<close>

fun getp :: "jsval \<Rightarrow> string \<Rightarrow> jsval" where
  "getp (JObj xs) k = obj_get xs k"
| "getp (JInst c xs) k = obj_get xs k"
| "getp (JArr xs) k = (if k = ''length'' then JInt (int (length xs)) else JUndef)"
| "getp _ k = JUndef"

fun nullish :: "jsval \<Rightarrow> bool" where
  "nullish JUndef = True"
| "nullish JNull = True"
| "nullish _ = False"

definition getE :: "jsval \<Rightarrow> string \<Rightarrow> jsval res" where
  "getE v k = (if nullish v then Inl (TypeError (''Cannot read properties of '' @
      (if v = JUndef then ''undefined'' else ''null'') @ '' (reading '' @ [CHR 0x27] @ k @ [CHR 0x27] @ '')''))
     else Inr (getp v k))"

definition coal :: "jsval \<Rightarrow> jsval \<Rightarrow> jsval" where
  "coal a b = (if nullish a then b else a)"

text \<open>\<open>o.a ?? o.b ?? ... ?? d\<close> with and without a final default.\<close>

fun coals :: "jsval \<Rightarrow> string list \<Rightarrow> jsval \<Rightarrow> jsval" where
  "coals obj [] d = d"
| "coals obj (k # ks) d = coal (getp obj k) (coals obj ks d)"

fun pick :: "jsval \<Rightarrow> string list \<Rightarrow> jsval" where
  "pick obj [] = JUndef"
| "pick obj [k] = getp obj k"
| "pick obj (k # k' # ks) = coal (getp obj k) (pick obj (k' # ks))"

text \<open>\<open>{ ...a, ...b }\<close> and \<open>const { k, ...rest } = a\<close>.\<close>

definition spread2 :: "jsval \<Rightarrow> props \<Rightarrow> jsval" where
  "spread2 a kvs = JObj (obj_puts kvs (obj_puts (props_of a) []))"

definition omit :: "string list \<Rightarrow> jsval \<Rightarrow> jsval" where
  "omit ks a = JObj (filter (\<lambda>(k, _). k \<notin> set ks) (obj_puts (props_of a) []))"

text \<open>The elements of an array; \<open>xs[i]\<close> for an index in range: a missing element reads as \<open>undefined\<close>.\<close>

definition elems :: "jsval \<Rightarrow> jsval list" where
  "elems v = (case v of JArr xs \<Rightarrow> xs | _ \<Rightarrow> [])"

definition element :: "jsval \<Rightarrow> jsval" where
  "element x = (if x = JHole then JUndef else x)"

section \<open>Types, truthiness, equality\<close>

fun js_typeof :: "jsval \<Rightarrow> string" where
  "js_typeof JUndef = ''undefined''"
| "js_typeof JNull = ''object''"
| "js_typeof (JBool b) = ''boolean''"
| "js_typeof (JNum n) = ''number''"
| "js_typeof (JStr s) = ''string''"
| "js_typeof JFun = ''function''"
| "js_typeof JSym = ''symbol''"
| "js_typeof (JBig i) = ''bigint''"
| "js_typeof JHole = ''undefined''"
| "js_typeof _ = ''object''"

fun isArray :: "jsval \<Rightarrow> bool" where
  "isArray (JArr xs) = True"
| "isArray _ = False"

fun isString :: "jsval \<Rightarrow> bool" where
  "isString (JStr s) = True"
| "isString _ = False"

fun isObject :: "jsval \<Rightarrow> bool" where
  "isObject (JObj xs) = True"
| "isObject (JInst c xs) = True"
| "isObject (JBytes s) = True"
| "isObject (JArr xs) = True"
| "isObject _ = False"

fun truthy :: "jsval \<Rightarrow> bool" where
  "truthy JUndef = False"
| "truthy JNull = False"
| "truthy JHole = False"
| "truthy (JBool b) = b"
| "truthy (JNum n) = (n \<noteq> NInt 0 \<and> n \<noteq> NNegZero \<and> n \<noteq> NNaN)"
| "truthy (JStr s) = (s \<noteq> [])"
| "truthy (JBig i) = (i \<noteq> 0)"
| "truthy _ = True"

text \<open>
  \<open>===\<close>.  Two objects are strictly equal only when they are the same reference; the sources compare
  references nowhere with an effect on their result, so distinct occurrences count as different.
\<close>

definition num_eq :: "jsnum \<Rightarrow> jsnum \<Rightarrow> bool" where
  "num_eq m n =
     (case m of
        NNaN \<Rightarrow> False
      | NNegZero \<Rightarrow> n = NNegZero \<or> n = NInt 0
      | NInt i \<Rightarrow> n = NInt i \<or> (i = 0 \<and> n = NNegZero)
      | _ \<Rightarrow> n = m)"

definition js_eq :: "jsval \<Rightarrow> jsval \<Rightarrow> bool" where
  "js_eq a b =
     (case a of
        JNum m \<Rightarrow> (case b of JNum n \<Rightarrow> num_eq m n | _ \<Rightarrow> False)
      | JArr _ \<Rightarrow> False
      | JObj _ \<Rightarrow> False
      | JInst _ _ \<Rightarrow> False
      | JBytes _ \<Rightarrow> False
      | JFun \<Rightarrow> False
      | JSym \<Rightarrow> False
      | _ \<Rightarrow> b = a)"

text \<open>\<open>xs.includes(v)\<close>.\<close>

definition js_includes :: "jsval list \<Rightarrow> jsval \<Rightarrow> bool" where
  "js_includes xs v = (v = JNum NNaN \<and> v \<in> set xs \<or> list_ex (\<lambda>x. js_eq (element x) v) xs)"

section \<open>Conversion to string\<close>

fun join :: "string \<Rightarrow> string list \<Rightarrow> string" where
  "join d [] = []"
| "join d [x] = x"
| "join d (x # y # xs) = x @ d @ join d (y # xs)"

text \<open>\<open>String(v)\<close>; an own \<open>toString\<close> or \<open>valueOf\<close> property is not consulted.\<close>

fun js_String :: "jsval \<Rightarrow> string" where
  "js_String JUndef = ''undefined''"
| "js_String JNull = ''null''"
| "js_String (JBool b) = (if b then ''true'' else ''false'')"
| "js_String (JNum n) = num_to_string n"
| "js_String (JStr s) = s"
| "js_String (JArr xs) =
     join '','' (map (\<lambda>x. if nullish x \<or> x = JHole then [] else js_String x) xs)"
| "js_String (JObj xs) = ''[object Object]''"
| "js_String (JInst c xs) = ''[object Object]''"
| "js_String (JBytes s) = s"
| "js_String JFun = ''function''"
| "js_String JSym = ''Symbol()''"
| "js_String (JBig i) = int_to_string i"
| "js_String JHole = ''undefined''"

text \<open>\<open>RE.test(v ?? '')\<close>.\<close>

definition test_str :: "(string \<Rightarrow> bool) \<Rightarrow> jsval \<Rightarrow> bool" where
  "test_str p v = p (js_String (coal v (JStr [])))"

section \<open>JSON string literals\<close>

definition hex_digit :: "nat \<Rightarrow> char" where
  "hex_digit n = (if n < 10 then char_of (48 + n) else char_of (87 + n))"

definition json_escape :: "char \<Rightarrow> string" where
  "json_escape c =
     (let n = of_char c :: nat in
      if n = 34 then [CHR 0x5C, CHR 0x22]
      else if n = 92 then [CHR 0x5C, CHR 0x5C]
      else if n = 8 then [CHR 0x5C, CHR ''b'']
      else if n = 12 then [CHR 0x5C, CHR ''f'']
      else if n = 10 then [CHR 0x5C, CHR ''n'']
      else if n = 13 then [CHR 0x5C, CHR ''r'']
      else if n = 9 then [CHR 0x5C, CHR ''t'']
      else if n < 32 then [CHR 0x5C, CHR ''u'', CHR ''0'', CHR ''0'', hex_digit (n div 16), hex_digit (n mod 16)]
      else [c])"

definition json_string :: "string \<Rightarrow> string" where
  "json_string s = [CHR 0x22] @ concat (map json_escape s) @ [CHR 0x22]"

section \<open>String methods\<close>

definition lower_char :: "char \<Rightarrow> char" where
  "lower_char c =
     (let n = of_char c :: nat in
      if (65 \<le> n \<and> n \<le> 90) \<or> (192 \<le> n \<and> n \<le> 222 \<and> n \<noteq> 215) then char_of (n + 32) else c)"

definition toLowerCase :: "string \<Rightarrow> string" where
  "toLowerCase s = map lower_char s"

definition str_includes :: "string \<Rightarrow> string \<Rightarrow> bool" where
  "str_includes s t = list_ex (\<lambda>i. take (length t) (drop i s) = t) [0..<Suc (length s)]"

definition startsWith :: "string \<Rightarrow> string \<Rightarrow> bool" where
  "startsWith s t = (take (length t) s = t)"

definition endsWith :: "string \<Rightarrow> string \<Rightarrow> bool" where
  "endsWith s t = (length t \<le> length s \<and> drop (length s - length t) s = t)"

text \<open>\<open>s.replace(/([a-z0-9])([A-Z])/g, '$1_$2')\<close>.\<close>

fun split_camel :: "string \<Rightarrow> string" where
  "split_camel (a # b # s) =
     (if (ch_lower a \<or> ch_digit a) \<and> ch_upper b then a # CHR ''_'' # b # split_camel s
      else a # split_camel (b # s))"
| "split_camel s = s"

section \<open>Facts\<close>

lemma nullish_iff: "nullish v \<longleftrightarrow> v = JUndef \<or> v = JNull"
  by (cases v) auto

lemma isArray_iff: "isArray v \<longleftrightarrow> (\<exists>xs. v = JArr xs)"
  by (cases v) auto

lemma isString_iff: "isString v \<longleftrightarrow> (\<exists>s. v = JStr s)"
  by (cases v) auto

lemma coal_simps [simp]:
  "coal JUndef b = b" "coal JNull b = b" "coal (JStr s) b = JStr s" "coal (JNum n) b = JNum n"
  "coal (JArr xs) b = JArr xs" "coal (JObj ps) b = JObj ps" "coal (JBool t) b = JBool t"
  by (simp_all add: coal_def)

lemma as_int_JInt [simp]: "as_int (JInt i) = Some i"
  by (simp add: as_int_def)

lemma js_eq_JStr [simp]: "js_eq (JStr s) v \<longleftrightarrow> v = JStr s"
  by (simp add: js_eq_def)

lemma js_eq_JStr2 [simp]: "js_eq v (JStr s) \<longleftrightarrow> v = JStr s"
  by (cases v) (auto simp: js_eq_def)

lemma js_eq_JBool2 [simp]: "js_eq v (JBool s) \<longleftrightarrow> v = JBool s"
  by (cases v) (auto simp: js_eq_def)

lemma js_eq_JInt: "js_eq v (JInt i) \<Longrightarrow> as_int v = Some i"
proof (cases v)
  case (JNum n)
  then show "js_eq v (JInt i) \<Longrightarrow> as_int v = Some i"
    by (cases n) (auto simp: js_eq_def num_eq_def as_int_def)
qed (simp_all add: js_eq_def)

lemma map_of_update_key:
  "map_of (map (\<lambda>p. if fst p = k then (k, v) else p) xs) k'
     = (if k' = k \<and> k \<in> fst ` set xs then Some v else map_of xs k')"
proof (induction xs)
  case (Cons p xs)
  then show ?case by (cases p; cases "k' = k") simp_all
qed simp

lemma map_of_insert_key:
  assumes "k \<notin> fst ` set (us @ vs)"
  shows "map_of (us @ (k, v) # vs) k' = (if k' = k then Some v else map_of (us @ vs) k')"
proof (cases "k' = k")
  case True
  from assms have "map_of us k = None" by (auto simp: map_of_eq_None_iff)
  with True show ?thesis by (simp add: map_add_def)
qed (simp add: map_add_def split: option.split)

lemma map_of_obj_put: "map_of (obj_put k v xs) k' = (if k' = k then Some v else map_of xs k')"
proof (cases "has_key xs k")
  case True
  then show ?thesis by (simp add: obj_put_def has_key_def map_of_update_key)
next
  case False
  let ?t = "takeWhile (before_index k) xs" and ?d = "dropWhile (before_index k) xs"
  from False have "k \<notin> fst ` set (?t @ ?d)" "k \<notin> fst ` set (xs @ [])"
    by (simp_all add: has_key_def)
  from this [THEN map_of_insert_key, of v k'] False show ?thesis
    by (cases "k' = k") (simp_all add: obj_put_def)
qed

lemma obj_get_put: "obj_get (obj_put k v xs) k' = (if k' = k then v else obj_get xs k')"
  by (simp add: obj_get_def map_of_obj_put)

lemma keys_obj_put: "fst ` set (obj_put k v xs) = insert k (fst ` set xs)"
proof (cases "has_key xs k")
  case False
  have "set xs = set (takeWhile (before_index k) xs) \<union> set (dropWhile (before_index k) xs)"
    by (metis set_append takeWhile_dropWhile_id)
  with False show ?thesis by (auto simp: obj_put_def)
next
  case True
  then have "map fst (obj_put k v xs) = map fst xs" by (auto simp: obj_put_def)
  then have "fst ` set (obj_put k v xs) = fst ` set xs" by (metis list.set_map)
  with True show ?thesis by (simp add: has_key_def insert_absorb)
qed

lemma distinct_obj_put: "distinct (map fst xs) \<Longrightarrow> distinct (map fst (obj_put k v xs))"
proof (cases "has_key xs k")
  case True
  then have "map fst (obj_put k v xs) = map fst xs"
    by (auto simp: obj_put_def)
  then show "distinct (map fst xs) \<Longrightarrow> ?thesis" by simp
next
  case False
  assume d: "distinct (map fst xs)"
  let ?t = "takeWhile (before_index k) xs" and ?d = "dropWhile (before_index k) xs"
  have "map fst xs = map fst ?t @ map fst ?d" by (metis map_append takeWhile_dropWhile_id)
  moreover have "k \<notin> fst ` set ?t" "k \<notin> fst ` set ?d"
    using False by (auto simp: has_key_def dest: set_takeWhileD set_dropWhileD)
  ultimately show ?thesis using d False by (auto simp: obj_put_def has_key_def)
qed

lemma obj_get_del: "obj_get (obj_del k xs) k' = (if k' = k then JUndef else obj_get xs k')"
proof -
  have "map_of (filter (\<lambda>(k', _). k' \<noteq> k) xs) k' = (if k' = k then None else map_of xs k')"
    by (induction xs) auto
  then show ?thesis by (simp add: obj_del_def obj_get_def)
qed

lemma obj_get_Nil [simp]: "obj_get [] k = JUndef"
  by (simp add: obj_get_def)

lemma obj_get_Cons: "obj_get ((k, v) # xs) k' = (if k' = k then v else obj_get xs k')"
  by (simp add: obj_get_def)

lemma obj_puts_simps [simp]:
  "obj_puts [] xs = xs" "obj_puts ((k, v) # kvs) xs = obj_puts kvs (obj_put k v xs)"
  by (simp_all add: obj_puts_def)

lemma obj_get_puts:
  "distinct (map fst kvs) \<Longrightarrow>
     obj_get (obj_puts kvs xs) k = (if has_key kvs k then obj_get kvs k else obj_get xs k)"
proof (induction kvs arbitrary: xs)
  case (Cons p kvs)
  obtain a b where p: "p = (a, b)" by (cases p)
  have "has_key ((a, b) # kvs) k \<longleftrightarrow> k = a \<or> has_key kvs k" by (simp add: has_key_def)
  moreover have "\<not> has_key kvs a" using Cons.prems by (simp add: p has_key_def)
  ultimately show ?case using Cons by (auto simp: p obj_get_put obj_get_Cons)
qed (simp add: has_key_def)

lemma obj_get_puts_notin:
  "k \<notin> fst ` set kvs \<Longrightarrow> obj_get (obj_puts kvs xs) k = obj_get xs k"
  by (induction kvs arbitrary: xs) (auto simp: obj_get_put)

lemma distinct_obj_puts: "distinct (map fst xs) \<Longrightarrow> distinct (map fst (obj_puts kvs xs))"
  by (induction kvs arbitrary: xs) (auto simp: distinct_obj_put)

lemma keys_obj_puts: "fst ` set (obj_puts kvs xs) = fst ` set kvs \<union> fst ` set xs"
proof (induction kvs arbitrary: xs)
  case (Cons p kvs)
  then show ?case by (cases p) (simp add: keys_obj_put)
qed simp

lemma set_obj_put: "set (obj_put k v xs) \<subseteq> insert (k, v) (set xs)"
proof (cases "has_key xs k")
  case False
  have "set (takeWhile (before_index k) xs) \<union> set (dropWhile (before_index k) xs) = set xs"
    by (metis set_append takeWhile_dropWhile_id)
  with False show ?thesis by (auto simp: obj_put_def)
qed (auto simp: obj_put_def)

lemma set_obj_puts: "set (obj_puts kvs xs) \<subseteq> set kvs \<union> set xs"
proof (induction kvs arbitrary: xs)
  case (Cons p kvs)
  then show ?case using set_obj_put [of "fst p" "snd p" xs] by (cases p) fastforce
qed simp

lemma obj_puts_fresh:
  "distinct (map fst (ys @ xs)) \<Longrightarrow> \<forall>k \<in> fst ` set xs. \<not> is_array_index k \<Longrightarrow> obj_puts xs ys = ys @ xs"
proof (induction xs arbitrary: ys)
  case (Cons x xs)
  obtain k v where x: "x = (k, v)" by (cases x)
  with Cons.prems have "obj_put k v ys = ys @ [x]" by (auto simp: obj_put_def has_key_def)
  with Cons.IH [of "ys @ [x]"] Cons.prems show ?case by (simp add: x)
qed simp

lemma as_count_Some: "as_count v = Some n \<longleftrightarrow> as_int v = Some (int n)"
  by (auto simp: as_count_def split: option.splits)

text \<open>An object as the language has it: no key occurs twice.\<close>

definition plain_obj :: "jsval \<Rightarrow> bool" where
  "plain_obj v = (\<exists>ps. v = JObj ps \<and> distinct (map fst ps))"

lemma plain_obj_JObj [simp]: "plain_obj (JObj ps) \<longleftrightarrow> distinct (map fst ps)"
  by (simp add: plain_obj_def)

lemma obj_get_notin: "k \<notin> fst ` set xs \<Longrightarrow> obj_get xs k = JUndef"
  by (simp add: obj_get_def map_of_eq_None_iff [THEN iffD2])

lemma map_of_distinct_obj: "distinct (map fst ps) \<Longrightarrow> obj_get (obj_puts ps []) k = obj_get ps k"
  using obj_get_notin [of k ps] by (auto simp: obj_get_puts has_key_def)

lemma obj_get_filter_key:
  "obj_get (filter (\<lambda>(k, _). P k) xs) k = (if P k then obj_get xs k else JUndef)"
proof -
  have "map_of (filter (\<lambda>(k, _). P k) xs) k = (if P k then map_of xs k else None)"
    by (induction xs) auto
  then show ?thesis by (simp add: obj_get_def)
qed

lemma obj_get_filter_defined:
  "distinct (map fst xs) \<Longrightarrow> obj_get (filter (\<lambda>p. snd p \<noteq> JUndef) xs) k = obj_get xs k"
proof (induction xs)
  case (Cons p xs)
  then show ?case by (cases p) (auto simp: obj_get_Cons obj_get_notin)
qed simp

lemma getp_omit: "plain_obj v \<Longrightarrow> getp (omit ks v) k = (if k \<in> set ks then JUndef else getp v k)"
  by (auto simp: plain_obj_def omit_def obj_get_filter_key map_of_distinct_obj)

lemma plain_obj_omit: "plain_obj (omit ks v)"
  by (auto simp: plain_obj_def omit_def distinct_obj_puts intro: distinct_map_filter)

lemma getp_spread2:
  "plain_obj v \<Longrightarrow> distinct (map fst kvs) \<Longrightarrow>
     getp (spread2 v kvs) k = (if has_key kvs k then obj_get kvs k else getp v k)"
  by (auto simp: plain_obj_def spread2_def obj_get_puts [where kvs = kvs] map_of_distinct_obj)

lemma plain_obj_spread2: "plain_obj (spread2 v kvs)"
  by (simp add: plain_obj_def spread2_def distinct_obj_puts)

end
