(* ===== verification/NumberText.thy ===== *)
theory NumberText
  imports JsValue
begin

text \<open>
  Number texts are uniquely readable.  \<open>read_dec\<close> reads the digits and the exponent of an unsigned
  notation; the notation of a number determines the number among those in normal form (\<open>num_ok\<close>).
\<close>

section \<open>Digits\<close>

lemma of_char_digit_char [simp]: "d < 10 \<Longrightarrow> of_char (digit_char d) = (48 + d :: nat)"
  by (simp add: digit_char_def)

lemma ch_digit_iff: "ch_digit c \<longleftrightarrow> 48 \<le> (of_char c :: nat) \<and> (of_char c :: nat) \<le> 57"
  by (simp add: ch_digit_def ch_range_def less_eq_char_def)

lemma not_index: "ch_lower c \<Longrightarrow> \<not> is_array_index (c # s)"
  by (auto simp: is_array_index_def ch_lower_iff ch_digit_iff)

lemma ch_digit_digit_char [simp]: "d < 10 \<Longrightarrow> ch_digit (digit_char d)"
  by (simp add: ch_digit_iff)

lemma nat_to_string_digits: "list_all ch_digit (nat_to_string n)"
  by (induction n rule: nat_to_string.induct) (subst nat_to_string.simps, simp)

lemma nat_to_string_nonempty [simp]: "nat_to_string n \<noteq> []"
  by (subst nat_to_string.simps) simp

lemma digits_value_append: "digits_value a (s @ t) = digits_value (digits_value a s) t"
  by (induction s arbitrary: a) auto

lemma digits_value_nat_to_string [simp]: "digits_value 0 (nat_to_string n) = n"
proof (induction n rule: nat_to_string.induct)
  case (1 n)
  then show ?case by (subst nat_to_string.simps) (simp add: digits_value_append)
qed

lemma digits_value_zeros: "digits_value a (replicate k (CHR ''0'')) = a * 10 ^ k"
  by (induction k arbitrary: a) (auto simp: algebra_simps)

lemma nat_to_string_inj: "nat_to_string m = nat_to_string n \<Longrightarrow> m = n"
  by (metis digits_value_nat_to_string)

lemma digits_not: "list_all ch_digit s \<Longrightarrow> \<not> ch_digit c \<Longrightarrow> c \<notin> set s"
  by (auto simp: list_all_iff)

lemma not_digits [simp]: "\<not> ch_digit (CHR ''.'')" "\<not> ch_digit (CHR ''e'')" "\<not> ch_digit (CHR ''-'')" "\<not> ch_digit (CHR ''+'')"
  by (simp_all add: ch_digit_iff)

section \<open>Reading a notation\<close>

fun read_exp :: "string \<Rightarrow> int" where
  "read_exp (e # s # ds) = (if s = CHR ''-'' then - int (digits_value 0 ds) else int (digits_value 0 ds))"
| "read_exp _ = 0"

definition read_dec :: "string \<Rightarrow> nat \<times> int" where
  "read_dec u =
     (let mantissa = takeWhile (\<lambda>c. c \<noteq> CHR ''e'') u; exponent = dropWhile (\<lambda>c. c \<noteq> CHR ''e'') u;
          whole = takeWhile (\<lambda>c. c \<noteq> CHR ''.'') mantissa; fraction = drop 1 (dropWhile (\<lambda>c. c \<noteq> CHR ''.'') mantissa)
      in (digits_value 0 (whole @ fraction), read_exp exponent - int (length fraction)))"

lemma read_exp_suffix: "read_exp (exp_suffix x) = x"
  by (simp add: exp_suffix_def)

lemma read_dec_plain:
  assumes "list_all ch_digit s" and "x = [] \<or> hd x = CHR ''e''"
  shows "read_dec (s @ x) = (digits_value 0 s, read_exp x)"
proof -
  have "\<forall>c \<in> set s. c \<noteq> CHR ''e'' \<and> c \<noteq> CHR ''.''" using assms(1) digits_not by fastforce
  then have "takeWhile (\<lambda>c. c \<noteq> CHR ''e'') (s @ x) = s" "dropWhile (\<lambda>c. c \<noteq> CHR ''e'') (s @ x) = x"
    "takeWhile (\<lambda>c. c \<noteq> CHR ''.'') s = s" "dropWhile (\<lambda>c. c \<noteq> CHR ''.'') s = []"
    using assms(2) by (cases x; force simp: takeWhile_append2 dropWhile_append2)+
  then show ?thesis by (simp only: read_dec_def Let_def append_Nil2 drop_Nil list.size(3) of_nat_0 diff_0_right)
qed

lemma read_dec_point:
  assumes "list_all ch_digit s" and "list_all ch_digit t" and "x = [] \<or> hd x = CHR ''e''"
  shows "read_dec (s @ CHR ''.'' # t @ x) = (digits_value 0 (s @ t), read_exp x - int (length t))"
proof -
  have no: "\<forall>c \<in> set s \<union> set t. c \<noteq> CHR ''e'' \<and> c \<noteq> CHR ''.''" using assms(1,2) digits_not by fastforce
  then have "takeWhile (\<lambda>c. c \<noteq> CHR ''e'') ((s @ CHR ''.'' # t) @ x) = s @ CHR ''.'' # t"
    "dropWhile (\<lambda>c. c \<noteq> CHR ''e'') ((s @ CHR ''.'' # t) @ x) = x"
    using assms(3) by (cases x; force simp: takeWhile_append2 dropWhile_append2)+
  moreover have "takeWhile (\<lambda>c. c \<noteq> CHR ''.'') (s @ CHR ''.'' # t) = s" "dropWhile (\<lambda>c. c \<noteq> CHR ''.'') (s @ CHR ''.'' # t) = CHR ''.'' # t"
    using no by (force simp: takeWhile_append2 dropWhile_append2)+
  ultimately show ?thesis by (simp add: read_dec_def Let_def)
qed

lemma list_all_take_drop: "list_all P s \<Longrightarrow> list_all P (take i s)" "list_all P s \<Longrightarrow> list_all P (drop i s)"
  by (auto simp: list_all_iff dest: in_set_takeD in_set_dropD)

lemma zeros_digits: "list_all ch_digit (replicate k (CHR ''0''))"
  by (simp add: list_all_iff ch_digit_iff)

text \<open>The five forms of a notation all read back to the digits, some zeros shifted into them.\<close>

lemma read_dec_to_string: "\<exists>a. read_dec (dec_to_string m e) = (m * 10 ^ a, e - int a)"
proof -
  define s where "s = nat_to_string m"
  define n where "n = int (length s) + e"
  have s: "list_all ch_digit s" "s \<noteq> []" "digits_value 0 s = m" by (simp_all add: s_def nat_to_string_digits)
  note notation_cases = dec_to_string_def [of m e, folded s_def, unfolded Let_def, folded n_def]
  have suffix: "exp_suffix x = [] \<or> hd (exp_suffix x) = CHR ''e''" for x by (simp add: exp_suffix_def)
  consider (whole) "int (length s) \<le> n" "n \<le> 21" | (point) "n < int (length s)" "0 < n" "n \<le> 21"
    | (small) "- 6 < n" "n \<le> 0" | (single) "length s = 1" "n \<le> - 6 \<or> 21 < n" | (exp) "length s \<noteq> 1" "n \<le> - 6 \<or> 21 < n"
    by linarith
  then show ?thesis
  proof cases
    case whole
    have "read_dec ((s @ replicate (nat e) (CHR ''0'')) @ []) = (m * 10 ^ nat e, 0)"
      by (subst read_dec_plain) (use s zeros_digits in \<open>simp_all add: digits_value_append digits_value_zeros\<close>)
    with whole show ?thesis by (intro exI [of _ "nat e"]) (simp add: notation_cases n_def)
  next
    case point
    have "read_dec (take (nat n) s @ CHR ''.'' # drop (nat n) s @ []) = (m, e)"
      by (subst read_dec_point) (use s point in \<open>simp_all add: list_all_take_drop n_def\<close>)
    with point show ?thesis by (intro exI [of _ 0]) (simp add: notation_cases)
  next
    case small
    have "read_dec (''0'' @ CHR ''.'' # (replicate (nat (- n)) (CHR ''0'') @ s) @ []) = (m, e)"
      by (subst read_dec_point)
        (use s small zeros_digits in \<open>simp_all add: digits_value_append digits_value_zeros n_def ch_digit_iff\<close>)
    moreover have "\<not> int (length s) \<le> n" using small(2) s(2) by (cases s) (auto simp: n_def)
    ultimately show ?thesis using small by (intro exI [of _ 0]) (simp add: notation_cases)
  next
    case single
    have "read_dec (s @ exp_suffix (n - 1)) = (m, e)"
      by (subst read_dec_plain) (use s single suffix in \<open>simp_all add: read_exp_suffix n_def\<close>)
    with single show ?thesis by (intro exI [of _ 0]) (auto simp: notation_cases)
  next
    case exp
    from s(2) have len: "1 < length s" using exp(1) by (cases s) (auto simp: Suc_lessI)
    have "read_dec (take 1 s @ CHR ''.'' # drop 1 s @ exp_suffix (n - 1)) = (m, e)"
      by (subst read_dec_point) (use s len suffix in \<open>simp_all add: list_all_take_drop read_exp_suffix n_def del: One_nat_def\<close>)
    with exp len show ?thesis by (intro exI [of _ 0]) (auto simp: notation_cases)
  qed
qed

lemma scaled_inj:
  fixes m n :: nat
  assumes "m * 10 ^ a = n * 10 ^ b" and "\<not> 10 dvd m" and "\<not> 10 dvd n"
  shows "m = n \<and> a = b"
proof -
  have le: "q \<le> p" if "x * 10 ^ p = y * 10 ^ q" "\<not> 10 dvd x" for x y p q :: nat
  proof (rule ccontr)
    assume "\<not> q \<le> p"
    then obtain d where d: "q = p + Suc d" by (metis add_Suc_right less_imp_Suc_add not_le)
    with that(1) have "x * 10 ^ p = (y * 10 ^ Suc d) * 10 ^ p" by (simp add: power_add algebra_simps)
    then have "x = 10 * (y * 10 ^ d)" by simp
    with that(2) show False by (metis dvd_triv_left)
  qed
  from le [OF assms(1,2)] le [OF assms(1) [symmetric] assms(3)] have "a = b" by simp
  with assms(1) show ?thesis by simp
qed

lemma dec_to_string_inj:
  assumes "dec_to_string m e = dec_to_string n f" and "\<not> 10 dvd m" and "\<not> 10 dvd n"
  shows "m = n \<and> e = f"
proof -
  obtain a b where "read_dec (dec_to_string m e) = (m * 10 ^ a, e - int a)" "read_dec (dec_to_string n f) = (n * 10 ^ b, f - int b)"
    using read_dec_to_string by blast
  with assms scaled_inj [of m a n b] show ?thesis by simp
qed

section \<open>Numbers in normal form\<close>

text \<open>
  The notation of \<open>NDec m e\<close> has no superfluous digits and is not that of an integer in plain digits,
  which is an \<open>NInt\<close>.
\<close>

definition num_ok :: "jsnum \<Rightarrow> bool" where
  "num_ok n =
     (case n of
        NInt i \<Rightarrow> True
      | NDec m e \<Rightarrow> \<not> 10 dvd m \<and> (e < 0 \<or> 21 < int (length (nat_to_string (nat \<bar>m\<bar>))) + e)
      | _ \<Rightarrow> False)"

lemma num_ok_NInt [simp]: "num_ok (NInt i)"
  by (simp add: num_ok_def)

definition num_char :: "char \<Rightarrow> bool" where
  "num_char c = (ch_digit c \<or> c \<in> set ''.e+-'')"

lemma exp_suffix_chars: "list_all num_char (exp_suffix x)"
  using nat_to_string_digits [of "nat \<bar>x\<bar>"] by (auto simp: exp_suffix_def num_char_def list_all_iff)

lemma nat_to_string_chars: "list_all num_char (nat_to_string n)"
  using nat_to_string_digits [of n] by (auto simp: num_char_def list_all_iff)

lemma dec_to_string_chars: "list_all num_char (dec_to_string m e)"
proof -
  have "num_char (CHR ''0'')" "num_char (CHR ''.'')" by (simp_all add: num_char_def ch_digit_iff)
  then show ?thesis using exp_suffix_chars nat_to_string_chars [of m] list_all_take_drop [of num_char "nat_to_string m"]
    by (simp add: dec_to_string_def Let_def) (simp add: list_all_iff)
qed

lemma num_to_string_chars: "num_ok n \<Longrightarrow> list_all num_char (num_to_string n)"
proof -
  have "num_char (CHR ''-'')" by (simp add: num_char_def)
  then show "num_ok n \<Longrightarrow> ?thesis" using dec_to_string_chars nat_to_string_chars
    by (cases n) (auto simp: num_ok_def int_to_string_def)
qed

lemma hd_nat_to_string: "ch_digit (hd (nat_to_string n @ x))"
  using nat_to_string_digits [of n] by (cases "nat_to_string n") auto

lemma dec_to_string_hd: "ch_digit (hd (dec_to_string m e))" "dec_to_string m e \<noteq> []"
proof -
  obtain c s where s: "nat_to_string m = c # s" "ch_digit c"
    using nat_to_string_digits [of m] nat_to_string_nonempty [of m] by (cases "nat_to_string m") auto
  have "ch_digit (CHR ''0'')" by (simp add: ch_digit_iff)
  with s show "ch_digit (hd (dec_to_string m e))" "dec_to_string m e \<noteq> []"
    by (simp_all add: dec_to_string_def Let_def take_Cons')
qed

text \<open>A notation that is not an integer in plain digits has a point or an exponent.\<close>

lemma dec_not_digits:
  assumes "e < 0 \<or> 21 < int (length (nat_to_string m)) + e"
  shows "\<not> list_all ch_digit (dec_to_string m e)"
proof -
  define k where "k = int (length (nat_to_string m))"
  have "\<not> (k \<le> k + e \<and> k + e \<le> 21)" using assms unfolding k_def by linarith
  then have "CHR ''.'' \<in> set (dec_to_string m e) \<or> CHR ''e'' \<in> set (dec_to_string m e)"
    unfolding dec_to_string_def Let_def k_def [symmetric] if_not_P exp_suffix_def
    by (subst if_not_P, assumption) (simp split: if_split)
  then show ?thesis using not_digits(1,2) by (metis digits_not)
qed

abbreviation sign_text :: "bool \<Rightarrow> string" where
  "sign_text b \<equiv> (if b then ''-'' else '''')"

lemma int_to_string_sign: "int_to_string i = sign_text (i < 0) @ nat_to_string (nat \<bar>i\<bar>)"
  by (simp add: int_to_string_def)

lemma sign_inj:
  assumes "sign_text b @ s = sign_text c @ t" and "ch_digit (hd s)" and "ch_digit (hd t)"
  shows "b = c \<and> s = t"
proof -
  have "hd s \<noteq> CHR ''-''" "hd t \<noteq> CHR ''-''" using assms(2,3) by (auto simp: ch_digit_iff)
  with assms(1) show ?thesis by (auto split: if_splits)
qed

lemma signed_eq: "m = n" if "nat \<bar>m\<bar> = nat \<bar>n\<bar>" and "m < 0 \<longleftrightarrow> n < (0 :: int)"
  using that by linarith

lemma int_to_string_inj: "int_to_string i = int_to_string j \<Longrightarrow> i = j"
  using sign_inj [of "i < 0" "nat_to_string (nat \<bar>i\<bar>)" "j < 0" "nat_to_string (nat \<bar>j\<bar>)"] hd_nat_to_string [of _ "[]"]
  by (auto simp: int_to_string_sign intro!: signed_eq dest: nat_to_string_inj)

lemma int_not_dec: "num_ok (NDec m e) \<Longrightarrow> int_to_string i \<noteq> num_to_string (NDec m e)"
  using sign_inj [of "i < 0" "nat_to_string (nat \<bar>i\<bar>)" "m < 0" "dec_to_string (nat \<bar>m\<bar>) e"] hd_nat_to_string [of _ "[]"]
    dec_to_string_hd dec_not_digits [of e "nat \<bar>m\<bar>"] nat_to_string_digits [of "nat \<bar>i\<bar>"]
  by (auto simp: int_to_string_sign num_ok_def)

lemma dec_inj:
  assumes "num_to_string (NDec m e) = num_to_string (NDec n f)" and "num_ok (NDec m e)" and "num_ok (NDec n f)"
  shows "m = n \<and> e = f"
proof -
  have "(10 :: nat) dvd nat \<bar>k\<bar> \<longleftrightarrow> 10 dvd k" for k using int_dvd_int_iff [of 10 "nat \<bar>k\<bar>"] by simp
  then have "\<not> 10 dvd nat \<bar>m\<bar>" "\<not> 10 dvd nat \<bar>n\<bar>" using assms(2,3) by (simp_all add: num_ok_def)
  moreover have "(m < 0) = (n < 0) \<and> dec_to_string (nat \<bar>m\<bar>) e = dec_to_string (nat \<bar>n\<bar>) f"
    using sign_inj [of "m < 0" "dec_to_string (nat \<bar>m\<bar>) e" "n < 0" "dec_to_string (nat \<bar>n\<bar>) f"] assms(1) dec_to_string_hd by simp
  ultimately show ?thesis using dec_to_string_inj signed_eq by blast
qed

lemma num_to_string_inj:
  assumes "num_to_string p = num_to_string q" and "num_ok p" and "num_ok q"
  shows "p = q"
  using assms dec_inj int_to_string_inj int_not_dec int_not_dec [THEN not_sym]
  by (cases p; cases q) (auto simp: num_ok_def simp del: num_to_string.simps(3))

section \<open>Numbers inside a text\<close>

definition delim :: "string \<Rightarrow> bool" where
  "delim s = (s = [] \<or> \<not> num_char (hd s))"

lemma num_to_string_append:
  assumes "num_to_string p @ x = num_to_string q @ y" and "num_ok p" and "num_ok q" and "delim x" and "delim y"
  shows "p = q \<and> x = y"
proof -
  have "takeWhile num_char (num_to_string n @ z) = num_to_string n" if "num_ok n" "delim z" for n z
    using num_to_string_chars [OF that(1)] that(2) by (cases z) (auto simp: delim_def list_all_iff takeWhile_append2)
  with assms have "num_to_string p = num_to_string q" by metis
  with assms num_to_string_inj show ?thesis by auto
qed

lemma hd_num_to_string: "num_ok n \<Longrightarrow> ch_digit (hd (num_to_string n @ x)) \<or> hd (num_to_string n @ x) = CHR ''-''"
  using hd_nat_to_string dec_to_string_hd by (cases n) (auto simp: num_ok_def int_to_string_def)

lemma num_to_string_nonempty: "num_ok n \<Longrightarrow> num_to_string n \<noteq> []"
  using dec_to_string_hd by (cases n) (auto simp: num_ok_def int_to_string_def)

declare not_digits [simp del]

end
