(* ===== verification/Canonical.thy ===== *)
theory Canonical
  imports NumberText
begin

text \<open>
  Canonical JSON (\<open>canonicalize\<close> of \<open>packages/core\<close>): the text every hash, signature, identifier
  and Merkle leaf of the system is computed from.  The main result is that the encoding is
  injective up to the order of object keys: two JSON values with the same canonical text are the
  same value.  The proof goes through the printer \<open>pr\<close> on normalised values, whose output is
  uniquely decodable.
\<close>

section \<open>The encoder\<close>

lemma size_field [termination_simp]: "(k, v) \<in> set xs \<Longrightarrow> size v < Suc (size_list (size_prod (\<lambda>x. 0) size) xs)"
  by (induction xs) (auto simp: less_Suc_eq_le)

lemma size_elem [termination_simp]: "x \<in> set xs \<Longrightarrow> size x < Suc (size_list size xs)"
  by (induction xs) (auto simp: less_Suc_eq_le)

fun canonicalizeValue :: "jsval \<Rightarrow> string res" where
  "canonicalizeValue JNull = Inr ''null''"
| "canonicalizeValue (JStr s) = Inr (json_string s)"
| "canonicalizeValue (JNum n) =
     (if \<not> is_finite n then Inl (TypeError ''canonical JSON cannot encode non-finite numbers'')
      else Inr (num_to_string (if n = NNegZero then NInt 0 else n)))"
| "canonicalizeValue (JBool b) = Inr (if b then ''true'' else ''false'')"
| "canonicalizeValue JUndef = Inl (TypeError ''canonical JSON cannot encode undefined'')"
| "canonicalizeValue JFun = Inl (TypeError ''canonical JSON cannot encode function'')"
| "canonicalizeValue JSym = Inl (TypeError ''canonical JSON cannot encode symbol'')"
| "canonicalizeValue (JBig i) = Inl (TypeError ''canonical JSON cannot encode bigint'')"
| "canonicalizeValue JHole = Inl (TypeError ''canonical JSON cannot encode undefined'')"
| "canonicalizeValue (JArr xs) =
     ebind (mapE (\<lambda>x. if x = JHole then Inl (TypeError ''canonical JSON cannot encode sparse arrays'')
                        else canonicalizeValue x) xs)
       (\<lambda>items. Inr (''['' @ join '','' items @ '']''))"
| "canonicalizeValue (JInst c xs) =
     Inl (TypeError ''canonical JSON only accepts plain objects, arrays, and primitives'')"
| "canonicalizeValue (JBytes s) =
     Inl (TypeError ''canonical JSON only accepts plain objects, arrays, and primitives'')"
| "canonicalizeValue (JObj xs) =
     ebind (mapE (\<lambda>(k, v). ebind (canonicalizeValue v) (\<lambda>s. Inr (json_string k @ '':'' @ s)))
              (sort_key fst xs))
       (\<lambda>fields. Inr (''{'' @ join '','' fields @ ''}''))"

definition canonicalize :: "jsval \<Rightarrow> string res" where
  "canonicalize v = canonicalizeValue v"

section \<open>JSON values, their normal form and its printer\<close>

fun jsonable :: "jsval \<Rightarrow> bool" where
  "jsonable JNull = True"
| "jsonable (JBool b) = True"
| "jsonable (JStr s) = True"
| "jsonable (JNum n) = (n = NNegZero \<or> num_ok n)"
| "jsonable (JArr xs) = (\<forall>x \<in> set xs. jsonable x)"
| "jsonable (JObj xs) = (distinct (map fst xs) \<and> (\<forall>p \<in> set xs. jsonable (snd p)))"
| "jsonable _ = False"

fun norm :: "jsval \<Rightarrow> jsval" where
  "norm (JNum n) = JNum (if n = NNegZero then NInt 0 else n)"
| "norm (JArr xs) = JArr (map norm xs)"
| "norm (JObj xs) = JObj (sort_key fst (map (\<lambda>p. (fst p, norm (snd p))) xs))"
| "norm v = v"

fun pr :: "jsval \<Rightarrow> string" where
  "pr (JStr s) = json_string s"
| "pr (JNum n) = num_to_string n"
| "pr (JBool b) = (if b then ''true'' else ''false'')"
| "pr (JArr xs) = ''['' @ join '','' (map pr xs) @ '']''"
| "pr (JObj xs) = ''{'' @ join '','' (map (\<lambda>p. json_string (fst p) @ '':'' @ pr (snd p)) xs) @ ''}''"
| "pr v = ''null''"

fun printable :: "jsval \<Rightarrow> bool" where
  "printable JNull = True"
| "printable (JBool b) = True"
| "printable (JStr s) = True"
| "printable (JNum n) = num_ok n"
| "printable (JArr xs) = (\<forall>x \<in> set xs. printable x)"
| "printable (JObj xs) = (\<forall>p \<in> set xs. printable (snd p))"
| "printable _ = False"

section \<open>Sorting commutes with a map on the values\<close>

lemma insort_key_map_snd:
  "insort_key fst (fst p, f (snd p)) (map (\<lambda>p. (fst p, f (snd p))) xs)
     = map (\<lambda>p. (fst p, f (snd p))) (insort_key fst p xs)"
  by (induction xs) auto

lemma sort_key_map_snd:
  "sort_key fst (map (\<lambda>p. (fst p, f (snd p))) xs) = map (\<lambda>p. (fst p, f (snd p))) (sort_key fst xs)"
  by (induction xs) (auto simp: insort_key_map_snd)

lemma printable_norm: "jsonable v \<Longrightarrow> printable (norm v)"
  by (induction v) (auto simp: num_ok_def)

section \<open>Canonical text is the print of the normal form\<close>

lemma canonicalize_pr: "jsonable v \<Longrightarrow> canonicalizeValue v = Inr (pr (norm v))"
proof (induction v rule: canonicalizeValue.induct)
  case (3 n)
  then show ?case by (cases n) (auto simp: is_finite_def num_ok_def)
next
  case (10 xs)
  have "mapE (\<lambda>x. if x = JHole then Inl (TypeError ''canonical JSON cannot encode sparse arrays'')
      else canonicalizeValue x) xs = mapE (\<lambda>x. Inr (pr (norm x))) xs"
    using 10 by (intro mapE_cong) auto
  then show ?case by (simp add: comp_def)
next
  case (13 xs)
  have "mapE (\<lambda>(k, v). ebind (canonicalizeValue v) (\<lambda>s. Inr (json_string k @ '':'' @ s))) (sort_key fst xs)
      = mapE (\<lambda>p. Inr (json_string (fst p) @ '':'' @ pr (norm (snd p)))) (sort_key fst xs)"
    using 13 by (intro mapE_cong) (auto split: prod.splits)
  then show ?case by (simp add: sort_key_map_snd comp_def)
qed simp_all

section \<open>Unique decodability\<close>

lemma char_eq_iff: "c = d \<longleftrightarrow> of_char c = (of_char d :: nat)"
  by (metis char_of_char)

lemma of_char_hex_digit [simp]: "n < 16 \<Longrightarrow> of_char (hex_digit n) = (if n < 10 then 48 + n else 87 + n :: nat)"
  by (simp add: hex_digit_def)

definition hex_value :: "char \<Rightarrow> nat" where
  "hex_value h = (let n = of_char h in if n \<le> 57 then n - 48 else n - 87)"

definition unescape_letter :: "char \<Rightarrow> nat" where
  "unescape_letter c =
     (if c = CHR ''b'' then 8 else if c = CHR ''f'' then 12 else if c = CHR ''n'' then 10
      else if c = CHR ''r'' then 13 else if c = CHR ''t'' then 9 else of_char c)"

fun unescape :: "string \<Rightarrow> (char \<times> string) option" where
  "unescape (b # e # r) =
     (if b \<noteq> CHR 0x5C then Some (b, e # r)
      else if e = CHR ''u'' then
        (case r of _ # _ # h # l # r' \<Rightarrow> Some (char_of (16 * hex_value h + hex_value l), r') | _ \<Rightarrow> None)
      else Some (char_of (unescape_letter e), r))"
| "unescape [b] = Some (b, [])"
| "unescape [] = None"

lemma hex_value_hex_digit [simp]: "n < 16 \<Longrightarrow> hex_value (hex_digit n) = n"
  by (simp add: hex_value_def)

lemma char_of_eqI: "of_char c = (n :: nat) \<Longrightarrow> char_of n = c"
  by auto

lemma unescape_plain: "b \<noteq> CHR 0x5C \<Longrightarrow> unescape (b # x) = Some (b, x)"
  by (cases x) auto

lemma unescape_json_escape: "unescape (json_escape c @ x) = Some (c, x)"
proof -
  let ?n = "of_char c :: nat"
  have small: "char_of (16 * (?n div 16) + ?n mod 16) = c"
    by (simp add: char_of_eqI)
  have plain: "c \<noteq> CHR 0x5C" if "?n \<noteq> 92" using that by (simp add: char_eq_iff)
  show ?thesis
    by (simp add: json_escape_def Let_def unescape_letter_def char_of_eqI small plain unescape_plain)
qed

lemma json_escape_append: "json_escape c @ x = json_escape d @ y \<Longrightarrow> c = d \<and> x = y"
  by (metis unescape_json_escape option.inject prod.inject)

lemma json_escape_not_quote: "json_escape c @ x \<noteq> CHR 0x22 # y"
  by (auto simp: json_escape_def Let_def char_eq_iff split: if_splits)

lemma json_body_append:
  "concat (map json_escape s) @ CHR 0x22 # x = concat (map json_escape t) @ CHR 0x22 # y
     \<Longrightarrow> s = t \<and> x = y"
proof (induction s arbitrary: t)
  case Nil
  then show ?case
    by (cases t) (use json_escape_not_quote in \<open>auto dest: sym\<close>)
next
  case (Cons c s)
  show ?case
  proof (cases t)
    case Nil
    with Cons.prems json_escape_not_quote show ?thesis by simp
  next
    case (Cons d t')
    with Cons.prems have "json_escape c @ concat (map json_escape s) @ CHR 0x22 # x
        = json_escape d @ concat (map json_escape t') @ CHR 0x22 # y" by simp
    from json_escape_append [OF this] Cons.IH [of t'] show ?thesis by (simp add: Cons)
  qed
qed

lemma json_string_append:
  assumes "json_string s @ x = json_string t @ y"
  shows "s = t \<and> x = y"
  using assms json_body_append [of s x t y] by (simp add: json_string_def)

text \<open>The first character of a printed value tells its kind.\<close>

lemma pr_nonempty [simp]: "printable v \<Longrightarrow> pr v \<noteq> []"
  by (cases v) (auto simp: json_string_def num_to_string_nonempty)

definition kind :: "char \<Rightarrow> nat" where
  "kind c = (if ch_digit c \<or> c = CHR ''-'' then 0 else of_char c)"

lemma kind_simps [simp]:
  "kind (CHR ''n'') = 110" "kind (CHR ''t'') = 116" "kind (CHR ''f'') = 102"
  "kind (CHR ''['') = 91" "kind (CHR ''{'') = 123" "kind (CHR 0x22) = 34"
  "kind (CHR '']'') = 93" "kind (CHR ''}'') = 125"
  by (simp_all add: kind_def ch_digit_iff)

fun val_kind :: "jsval \<Rightarrow> nat" where
  "val_kind (JStr s) = 34"
| "val_kind (JNum n) = 0"
| "val_kind (JBool b) = (if b then 116 else 102)"
| "val_kind (JArr xs) = 91"
| "val_kind (JObj xs) = 123"
| "val_kind v = 110"

lemma kind_num: "num_ok n \<Longrightarrow> kind (hd (num_to_string n @ x)) = 0"
  using hd_num_to_string [of n x] by (auto simp: kind_def)

lemma kind_pr: "printable v \<Longrightarrow> kind (hd (pr v @ x)) = val_kind v"
  by (cases v) (auto simp: json_string_def kind_num)

lemma join_append_inj:
  assumes "join '','' (map f xs) @ e # x = join '','' (map f ys) @ e # y"
    and elem: "\<And>a b u v. a \<in> set xs \<Longrightarrow> b \<in> set ys \<Longrightarrow> delim u \<Longrightarrow> delim v \<Longrightarrow>
      f a @ u = f b @ v \<Longrightarrow> g a = g b \<and> u = v"
    and hd: "\<And>a u. a \<in> set xs \<union> set ys \<Longrightarrow> hd (f a @ u) \<noteq> e \<and> f a \<noteq> []"
    and e: "\<not> num_char e" "e \<noteq> CHR '',''"
  shows "map g xs = map g ys \<and> x = y"
  using assms(1) elem hd
proof (induction xs arbitrary: ys)
  case Nil
  show ?case
  proof (cases ys)
    case (Cons b ys')
    obtain r where "join '','' (map f ys) @ e # y = f b @ r"
      by (cases ys') (auto simp: Cons)
    with Nil Cons show ?thesis by (metis append_Nil join.simps(1) list.map(1) list.sel(1) list.set_intros(1) Un_iff)
  qed (use Nil in auto)
next
  case (Cons a xs)
  show ?case
  proof (cases ys)
    case Nil
    obtain r where "join '','' (map f (a # xs)) @ e # x = f a @ r"
      by (cases xs) auto
    with Nil Cons.prems show ?thesis by (metis append_Nil join.simps(1) list.map(1) list.sel(1) list.set_intros(1) Un_iff)
  next
    case (Cons b ys')
    have comma: "\<not> num_char (CHR '','')" by (simp add: num_char_def ch_digit_iff)
    define tail where "tail zs w = (if zs = [] then e # w else CHR '','' # join '','' (map f zs) @ e # w)" for zs w
    have split: "join '','' (map f (c # zs)) @ e # w = f c @ tail zs w" for c zs w
      by (cases zs) (auto simp: tail_def)
    have delim: "delim (tail zs w)" for zs w
      using e comma by (auto simp: tail_def delim_def)
    from Cons.prems(1) have "f a @ tail xs x = f b @ tail ys' y" by (simp only: split Cons)
    from Cons.prems(2) [OF _ _ delim delim this] have "g a = g b" and t: "tail xs x = tail ys' y"
      by (auto simp: Cons)
    show ?thesis
    proof (cases "xs = []"; cases "ys' = []")
      assume "xs \<noteq> []" "ys' \<noteq> []"
      with t have "join '','' (map f xs) @ e # x = join '','' (map f ys') @ e # y" by (simp add: tail_def)
      then have "map g xs = map g ys' \<and> x = y"
      proof (rule Cons.IH)
        show "g a = g b \<and> u = v" if "a \<in> set xs" "b \<in> set ys'" "delim u" "delim v" "f a @ u = f b @ v"
          for a b u v using that Cons.prems(2) [of a b u v] by (simp add: Cons)
        show "hd (f a @ u) \<noteq> e \<and> f a \<noteq> []" if "a \<in> set xs \<union> set ys'" for a u
          using that Cons.prems(3) [of a u] by (auto simp: Cons)
      qed
      with \<open>g a = g b\<close> show ?thesis by (simp add: Cons)
    qed (use t e \<open>g a = g b\<close> in \<open>auto simp: tail_def Cons\<close>)
  qed
qed

lemma pr_head: "printable v \<Longrightarrow> hd (pr v @ x) \<noteq> CHR '']'' \<and> pr v \<noteq> []"
  using kind_pr [of v x] pr_nonempty [of v] by (cases v) auto

lemma pr_append_inj:
  "printable v \<Longrightarrow> printable w \<Longrightarrow> delim x \<Longrightarrow> delim y \<Longrightarrow> pr v @ x = pr w @ y \<Longrightarrow> v = w \<and> x = y"
proof (induction v arbitrary: w x y)
  case (JArr xs)
  from JArr.prems have "val_kind w = 91" by (metis kind_pr val_kind.simps(4))
  with JArr.prems(2) obtain ys where w: "w = JArr ys" by (cases w) (auto split: if_splits)
  have "join '','' (map pr xs) @ CHR '']'' # x = join '','' (map pr ys) @ CHR '']'' # y"
    using JArr.prems(5) by (simp add: w)
  then have "map id xs = map id ys \<and> x = y"
  proof (rule join_append_inj)
    show "id a = id b \<and> u = v" if "a \<in> set xs" "b \<in> set ys" "delim u" "delim v" "pr a @ u = pr b @ v"
      for a b u v using JArr.IH [OF that(1) _ _ that(3,4,5)] that JArr.prems by (simp add: w)
    show "hd (pr a @ u) \<noteq> CHR '']'' \<and> pr a \<noteq> []" if "a \<in> set xs \<union> set ys" for a u
      using that JArr.prems by (intro pr_head) (auto simp: w)
  qed (simp_all add: num_char_def ch_digit_iff)
  then show ?case by (simp add: w)
next
  case (JObj xs)
  let ?f = "\<lambda>p. json_string (fst p) @ '':'' @ pr (snd p)"
  from JObj.prems have "val_kind w = 123" by (metis kind_pr val_kind.simps(5))
  with JObj.prems(2) obtain ys where w: "w = JObj ys" by (cases w) (auto split: if_splits)
  have "join '','' (map ?f xs) @ CHR ''}'' # x = join '','' (map ?f ys) @ CHR ''}'' # y"
    using JObj.prems(5) by (simp add: w)
  then have "map id xs = map id ys \<and> x = y"
  proof (rule join_append_inj)
    show "id a = id b \<and> u = v" if "a \<in> set xs" "b \<in> set ys" "delim u" "delim v" "?f a @ u = ?f b @ v"
      for a b u v
    proof -
      from that(5) have "json_string (fst a) @ ('':'' @ pr (snd a) @ u) = json_string (fst b) @ ('':'' @ pr (snd b) @ v)"
        by simp
      from json_string_append [OF this] have "fst a = fst b" "pr (snd a) @ u = pr (snd b) @ v" by auto
      moreover have "snd a \<in> Basic_BNFs.snds a" by (cases a) (simp add: prod_set_defs)
      ultimately show ?thesis
        using JObj.IH [OF that(1) _ _ _ that(3,4)] that JObj.prems by (auto simp: w prod_eq_iff)
    qed
    show "hd (?f a @ u) \<noteq> CHR ''}'' \<and> ?f a \<noteq> []" for a :: "string \<times> jsval" and u
      by (simp add: json_string_def)
  qed (simp_all add: num_char_def ch_digit_iff)
  then show ?case by (simp add: w)
next
  case (JNum n)
  from JNum.prems have "val_kind w = 0" by (metis kind_pr val_kind.simps(2))
  with JNum.prems(2) obtain q where w: "w = JNum q" "num_ok q" by (cases w) (auto split: if_splits)
  with JNum.prems num_to_string_append [of n x q y] show ?case by simp
next
  case (JStr s)
  from JStr.prems have "val_kind w = 34" by (metis kind_pr val_kind.simps(1))
  with JStr.prems(2) obtain t where w: "w = JStr t" by (cases w) (auto split: if_splits)
  from JStr.prems(5) show ?case using json_string_append [of s x t y] by (simp add: w)
next
  case (JBool b)
  from JBool.prems have "val_kind w = val_kind (JBool b)" by (metis kind_pr)
  with JBool.prems(2) have "w = JBool b" by (cases w) (auto split: if_splits)
  with JBool.prems(5) show ?case by auto
next
  case JNull
  from JNull.prems have "val_kind w = val_kind JNull" by (metis kind_pr printable.simps(1))
  with JNull.prems(2) have "w = JNull" by (cases w) (auto split: if_splits)
  with JNull.prems(5) show ?case by auto
qed auto

lemma canonicalize_inj:
  assumes "jsonable v" "jsonable w"
  shows "canonicalize v = canonicalize w \<longleftrightarrow> norm v = norm w"
  using assms pr_append_inj [of "norm v" "norm w" "[]" "[]"]
  by (auto simp: canonicalize_def canonicalize_pr printable_norm delim_def)

lemma obj_get_norm:
  assumes "distinct (map fst xs)"
  shows "getp (norm (JObj xs)) k = norm (obj_get xs k)"
proof -
  let ?ys = "map (\<lambda>p. (fst p, norm (snd p))) xs"
  have "map_of (sort_key fst ?ys) = map_of ?ys"
    by (rule map_of_inject_set [THEN iffD2]) (use assms in \<open>auto simp: distinct_map inj_on_def\<close>)
  moreover have "map_of ?ys k = map_option norm (map_of xs k)" by (induction xs) auto
  ultimately show ?thesis by (simp add: obj_get_def split: option.split)
qed

lemma getp_norm: "plain_obj v \<Longrightarrow> getp (norm v) k = norm (getp v k)"
  unfolding plain_obj_def using obj_get_norm by auto

lemma jsonable_getp: "jsonable (JObj ps) \<Longrightarrow> obj_get ps k \<noteq> JUndef \<Longrightarrow> jsonable (obj_get ps k)"
  by (auto simp: obj_get_def split: option.splits dest: map_of_SomeD)

text \<open>
  C3. Canonical text determines the JSON value: two JSON values have the same canonical text exactly
  when they have the same normal form, that is when they differ only in the order of object keys and
  in the sign of zero.
\<close>

theorem canonicalize_eq_iff:
  assumes "jsonable v" "jsonable w"
  shows "canonicalize v = canonicalize w \<longleftrightarrow> norm v = norm w"
  by (rule canonicalize_inj [OF assms])

theorem canonicalize_eq_iff_witness:
  "canonicalize (JObj [(''b'', JNum NNegZero), (''a'', JNull)]) = canonicalize (JObj [(''a'', JNull), (''b'', JInt 0)])
     \<and> canonicalize (JArr [JInt 1, JInt 2]) \<noteq> canonicalize (JArr [JNum (NDec 12 (- 1))])"
proof
  show "canonicalize (JObj [(''b'', JNum NNegZero), (''a'', JNull)]) = canonicalize (JObj [(''a'', JNull), (''b'', JInt 0)])"
    by (subst canonicalize_eq_iff) (simp_all add: less_eq_char_def)
  show "canonicalize (JArr [JInt 1, JInt 2]) \<noteq> canonicalize (JArr [JNum (NDec 12 (- 1))])"
    by (subst canonicalize_eq_iff) (simp_all add: num_ok_def)
qed

end
