(* ===== verification/Hashing.thy ===== *)
theory Hashing
  imports Canonical
begin

text \<open>
  Hash, HMAC and signature wrappers of \<open>packages/core\<close>.  The cryptography itself belongs to the
  Node runtime and is a parameter: a \<open>node\<close> record supplies SHA-256 and HMAC-SHA-256 digests in
  hexadecimal, Ed25519 signing and verification, base64 coding, the derivation of a public key, the
  answer of a keyring that a caller passes as a \<open>Map\<close> or a function, and the current time.  The last
  fields are the parts of the engine the model does not compute: \<open>Date.parse\<close> on texts outside the
  ISO formats, the double a numeric text denotes, double arithmetic outside the safe integers, and the
  elements of an instance of \<open>Set\<close>.  What the code relies on is stated as the predicates \<open>hash_hex\<close> and
  \<open>key_pair_ok\<close>; collision freedom is only ever assumed on the finite set of strings a particular
  computation hashes.
\<close>

section \<open>The runtime\<close>

record node =
  nd_sha256 :: "string \<Rightarrow> string"
  nd_hmac :: "string \<Rightarrow> string \<Rightarrow> string"
  nd_sign :: "string \<Rightarrow> jsval \<Rightarrow> string res"
  nd_verify :: "string \<Rightarrow> jsval \<Rightarrow> string \<Rightarrow> bool res"
  nd_b64url :: "string \<Rightarrow> string"
  nd_b64dec :: "string \<Rightarrow> string \<Rightarrow> string"
  nd_spki :: "jsval \<Rightarrow> string res"
  nd_keyring :: "jsval \<Rightarrow> jsval \<Rightarrow> jsval"
  nd_now :: string
  nd_date :: "string \<Rightarrow> int option"
  nd_number :: "string \<Rightarrow> jsnum"
  nd_arith :: "string \<Rightarrow> jsnum \<Rightarrow> jsnum \<Rightarrow> jsnum"
  nd_set :: "jsval \<Rightarrow> jsval list option"

definition hash_hex :: "node \<Rightarrow> bool" where
  "hash_hex N = (\<forall>s. length (nd_sha256 N s) = 64 \<and> list_all ch_hex (nd_sha256 N s))"

text \<open>The coding the verifier picks for a signature text: \<open>+\<close> and \<open>/\<close> select plain base64.\<close>

definition signature_encoding :: "string \<Rightarrow> string" where
  "signature_encoding s =
     (if CHR ''+'' \<in> set s \<or> CHR ''/'' \<in> set s then ''base64'' else ''base64url'')"

definition key_pair_ok :: "node \<Rightarrow> jsval \<Rightarrow> jsval \<Rightarrow> bool" where
  "key_pair_ok N priv pub =
     (\<forall>m. \<exists>b. nd_sign N m priv = Inr b \<and> nd_b64url N b \<noteq> [] \<and>
       nd_verify N m pub (nd_b64dec N (signature_encoding (nd_b64url N b)) (nd_b64url N b)) = Inr True)"

section \<open>UTF-8\<close>

definition utf8_char :: "char \<Rightarrow> string" where
  "utf8_char c =
     (let n = of_char c :: nat in
      if n < 128 then [c] else [char_of (192 + n div 64), char_of (128 + n mod 64)])"

definition utf8 :: "string \<Rightarrow> string" where
  "utf8 s = concat (map utf8_char s)"

section \<open>Digests\<close>

definition SHA256_PREFIX :: string where
  "SHA256_PREFIX = ''sha256:''"

definition bytesForHash :: "jsval \<Rightarrow> string res" where
  "bytesForHash v =
     (case v of JStr s \<Rightarrow> Inr (utf8 s) | JBytes b \<Rightarrow> Inr b | _ \<Rightarrow> emap utf8 (canonicalize v))"

definition bytesForKey :: "jsval \<Rightarrow> string res" where
  "bytesForKey v =
     (case v of JStr s \<Rightarrow> Inr (utf8 s) | JBytes b \<Rightarrow> Inr b | _ \<Rightarrow> emap utf8 (canonicalize v))"

definition bytesForSigning :: "jsval \<Rightarrow> string res" where
  "bytesForSigning v = (case v of JStr s \<Rightarrow> Inr (utf8 s) | _ \<Rightarrow> emap utf8 (canonicalize v))"

definition sha256Hex :: "node \<Rightarrow> jsval \<Rightarrow> string res" where
  "sha256Hex N v = emap (nd_sha256 N) (bytesForHash v)"

definition prefixedSha256 :: "node \<Rightarrow> jsval \<Rightarrow> string res" where
  "prefixedSha256 N v = emap (\<lambda>h. SHA256_PREFIX @ h) (sha256Hex N v)"

text \<open>The digest of a string, which cannot fail.\<close>

definition sha256Str :: "node \<Rightarrow> string \<Rightarrow> string" where
  "sha256Str N s = nd_sha256 N (utf8 s)"

definition isPlainRecord :: "jsval \<Rightarrow> bool" where
  "isPlainRecord v = (isObject v \<and> \<not> isArray v)"

definition hasOwn :: "jsval \<Rightarrow> string \<Rightarrow> bool" where
  "hasOwn v k = (k \<in> set (keys_of v))"

definition hmacSha256Hex :: "node \<Rightarrow> jsval \<Rightarrow> jsval \<Rightarrow> string res" where
  "hmacSha256Hex N keyOrArgs value =
     (let own = isPlainRecord keyOrArgs \<and> hasOwn keyOrArgs ''key'';
          key = (if own then getp keyOrArgs ''key'' else keyOrArgs);
          val = (if own then getp keyOrArgs ''value'' else value)
      in if key = JUndef then Inl (TypeError ''hmacSha256Hex requires a key'')
         else ebind (bytesForKey key) (\<lambda>k. ebind (bytesForHash val) (\<lambda>b. Inr (nd_hmac N k b))))"

section \<open>Root and hash formats\<close>

definition HASH_RE :: rx where
  "HASH_RE = rx_times 64 (RCls ch_hex)"

definition ROOT_RE :: rx where
  "ROOT_RE = RSeq (rx_lit ''sha256:'') (rx_times 64 (RCls ch_hex))"

definition NULLIFIER_RE :: rx where
  "NULLIFIER_RE = RSeq (rx_lit ''nullifier:hmac-sha256:'') (rx_times 64 (RCls ch_hex))"

definition isSha256Root :: "jsval \<Rightarrow> bool" where
  "isSha256Root v = test_str (rx_full ROOT_RE) v"

definition isNullifier :: "jsval \<Rightarrow> bool" where
  "isNullifier v = test_str (rx_full NULLIFIER_RE) v"

definition verificationResult :: "bool \<Rightarrow> string list \<Rightarrow> props \<Rightarrow> jsval" where
  "verificationResult ok errors extra =
     JObj (obj_puts extra
       [(''ok'', JBool ok), (''valid'', JBool ok), (''errors'', JArr (map JStr errors))])"

definition verifySha256Root :: "jsval \<Rightarrow> string \<Rightarrow> jsval" where
  "verifySha256Root v field =
     (let ok = isSha256Root v
      in verificationResult ok (if ok then [] else [field @ '' must be a sha256 root'']) [])"

definition verifyNullifier :: "jsval \<Rightarrow> string \<Rightarrow> jsval" where
  "verifyNullifier v field =
     (let ok = isNullifier v
      in verificationResult ok (if ok then [] else [field @ '' must be a nullifier'']) [])"

definition normalizeSha256Root :: "jsval \<Rightarrow> string \<Rightarrow> string res" where
  "normalizeSha256Root v field =
     (case v of
        JStr s \<Rightarrow>
          if rx_full ROOT_RE s then Inr s
          else if rx_full HASH_RE s then Inr (SHA256_PREFIX @ s)
          else Inl (TypeError (field @ '' must be a sha256 root''))
      | _ \<Rightarrow> Inl (TypeError (field @ '' must be a sha256 root'')))"

definition GENESIS :: string where
  "GENESIS = ''GENESIS''"

definition normalizePreviousHash :: "jsval \<Rightarrow> string res" where
  "normalizePreviousHash v =
     (if v = JStr GENESIS then Inr GENESIS else normalizeSha256Root v ''previous hash'')"

definition isPreviousHash :: "jsval \<Rightarrow> bool" where
  "isPreviousHash v = (v = JStr GENESIS \<or> test_str (rx_full ROOT_RE) v)"

definition sha256Root :: "node \<Rightarrow> jsval \<Rightarrow> string res" where
  "sha256Root N v = prefixedSha256 N v"

definition rootFromHashable :: "node \<Rightarrow> jsval \<Rightarrow> jsval \<Rightarrow> string res" where
  "rootFromHashable N root fallbackValue =
     (if root \<noteq> JUndef then normalizeSha256Root root ''root''
      else ebind (canonicalize fallbackValue) (\<lambda>c. prefixedSha256 N (JStr c)))"

section \<open>Required fields\<close>

definition requiredString :: "jsval \<Rightarrow> string \<Rightarrow> string res" where
  "requiredString v field =
     (case v of
        JStr s \<Rightarrow> if s = [] then Inl (TypeError (field @ '' is required'')) else Inr s
      | _ \<Rightarrow> Inl (TypeError (field @ '' is required'')))"

definition requiredInteger :: "jsval \<Rightarrow> string \<Rightarrow> jsval res" where
  "requiredInteger v field =
     (case as_int v of
        Some i \<Rightarrow> if i < 0 then Inl (TypeError (field @ '' must be a non-negative integer'')) else Inr v
      | None \<Rightarrow> Inl (TypeError (field @ '' must be a non-negative integer'')))"

section \<open>Signatures\<close>

definition ED25519 :: string where
  "ED25519 = ''Ed25519''"

definition decodeSignature :: "node \<Rightarrow> jsval \<Rightarrow> string res" where
  "decodeSignature N signature =
     (let value = (if isPlainRecord signature then getp signature ''value'' else signature)
      in case value of
           JStr s \<Rightarrow> Inr (nd_b64dec N (signature_encoding s) s)
         | _ \<Rightarrow> Inl (TypeError ''signature must be a string''))"

definition sign_bytes :: "node \<Rightarrow> jsval \<Rightarrow> jsval \<Rightarrow> string res" where
  "sign_bytes N payload privateKey =
     (if privateKey = JUndef then Inl (TypeError ''signPayload requires a privateKey'')
      else ebind (bytesForSigning payload) (\<lambda>b. emap (nd_b64url N) (nd_sign N b privateKey)))"

definition signPayload :: "node \<Rightarrow> jsval \<Rightarrow> jsval \<Rightarrow> string res" where
  "signPayload N payloadOrArgs maybePrivateKey =
     (if isPlainRecord payloadOrArgs \<and> hasOwn payloadOrArgs ''payload''
      then sign_bytes N (getp payloadOrArgs ''payload'') (getp payloadOrArgs ''privateKey'')
      else sign_bytes N payloadOrArgs maybePrivateKey)"

definition verify_bytes :: "node \<Rightarrow> jsval \<Rightarrow> jsval \<Rightarrow> jsval \<Rightarrow> bool" where
  "verify_bytes N payload signature publicKey =
     (if publicKey = JUndef \<or> signature = JUndef then False
      else case ebind (bytesForSigning payload) (\<lambda>b.
                ebind (decodeSignature N signature) (\<lambda>sig. nd_verify N b publicKey sig)) of
             Inl _ \<Rightarrow> False
           | Inr ok \<Rightarrow> ok)"

definition verifySignature :: "node \<Rightarrow> jsval \<Rightarrow> jsval \<Rightarrow> jsval \<Rightarrow> bool" where
  "verifySignature N payloadOrArgs maybeSignature maybePublicKey =
     (if isPlainRecord payloadOrArgs \<and> hasOwn payloadOrArgs ''payload''
      then verify_bytes N (getp payloadOrArgs ''payload'') (getp payloadOrArgs ''signature'')
             (getp payloadOrArgs ''publicKey'')
      else verify_bytes N payloadOrArgs maybeSignature maybePublicKey)"

section \<open>Keyed addresses\<close>

definition keyed_options :: "jsval \<Rightarrow> jsval \<Rightarrow> jsval \<Rightarrow> jsval" where
  "keyed_options args maybeValue maybeOptions =
     (if isPlainRecord args \<and> (hasOwn args ''secret'' \<or> hasOwn args ''key'') then args
      else JObj (obj_puts (props_of maybeOptions) [(''secret'', args), (''value'', maybeValue)]))"

definition createMemoryAddress :: "node \<Rightarrow> jsval \<Rightarrow> jsval \<Rightarrow> jsval \<Rightarrow> string res" where
  "createMemoryAddress N args maybeValue maybeOptions =
     (let options = keyed_options args maybeValue maybeOptions;
          secret = pick options [''secret'', ''key'']
      in if secret = JUndef then Inl (TypeError ''createMemoryAddress requires a secret key'')
         else
          (let payload = JObj
             [(''namespace'', coals options [''namespace''] (JStr ''memory'')),
              (''tenant_id'', coals options [''tenant_id'', ''tenantId''] JNull),
              (''subject_id'', coals options [''subject_id'', ''subjectId''] JNull),
              (''value'', coals options [''value'', ''plaintext'', ''content'', ''components''] JNull)];
            prefix = js_String (coals options [''prefix''] (JStr ''mem''))
           in emap (\<lambda>d. prefix @ '':hmac-sha256:'' @ d)
                (hmacSha256Hex N (JObj [(''key'', secret), (''value'', payload)]) JUndef)))"

definition deriveNullifier :: "node \<Rightarrow> jsval \<Rightarrow> jsval \<Rightarrow> jsval \<Rightarrow> string res" where
  "deriveNullifier N args maybeValue maybeOptions =
     (let options = keyed_options args maybeValue maybeOptions;
          secret = pick options [''secret'', ''key'']
      in if secret = JUndef then Inl (TypeError ''deriveNullifier requires a secret key'')
         else
          (let payload = JObj
             [(''domain'', JStr ''enigma.nullifier.v1''),
              (''scope'', coals options [''scope'', ''namespace''] (JStr ''memory-boundary'')),
              (''subject_ref'', coals options [''subject_ref'', ''subjectRef''] JNull),
              (''capability_id'', coals options [''capability_id'', ''capabilityId''] JNull),
              (''policy_id'', coals options [''policy_id'', ''policyId''] JNull),
              (''value'', coals options [''value'', ''claim'', ''ref'', ''components''] JNull)]
           in emap (\<lambda>d. ''nullifier:hmac-sha256:'' @ d)
                (hmacSha256Hex N (JObj [(''key'', secret), (''value'', payload)]) JUndef)))"

section \<open>Facts\<close>

lemma sha256Hex_JStr [simp]: "sha256Hex N (JStr s) = Inr (sha256Str N s)"
  by (simp add: sha256Hex_def bytesForHash_def sha256Str_def)

lemma prefixedSha256_JStr [simp]: "prefixedSha256 N (JStr s) = Inr (SHA256_PREFIX @ sha256Str N s)"
  by (simp add: prefixedSha256_def)

lemma hash_hexD: "hash_hex N \<Longrightarrow> length (sha256Str N s) = 64 \<and> list_all ch_hex (sha256Str N s)"
  by (simp add: hash_hex_def sha256Str_def)

lemma HASH_RE_iff: "rx_full HASH_RE s \<longleftrightarrow> length s = 64 \<and> list_all ch_hex s"
  by (simp add: rx_full_iff_lang HASH_RE_def rx_lang)

lemma ROOT_RE_iff: "rx_full ROOT_RE s \<longleftrightarrow> (\<exists>h. s = SHA256_PREFIX @ h \<and> length h = 64 \<and> list_all ch_hex h)"
  by (auto simp: rx_full_iff_lang ROOT_RE_def SHA256_PREFIX_def rx_lang conc_single)

lemma NULLIFIER_RE_iff:
  "rx_full NULLIFIER_RE s \<longleftrightarrow>
     (\<exists>h. s = ''nullifier:hmac-sha256:'' @ h \<and> length h = 64 \<and> list_all ch_hex h)"
  by (auto simp: rx_full_iff_lang NULLIFIER_RE_def rx_lang conc_single)

lemma root_of_hash [simp]: "hash_hex N \<Longrightarrow> rx_full ROOT_RE (SHA256_PREFIX @ sha256Str N s)"
  using hash_hexD by (auto simp: ROOT_RE_iff)

lemma test_str_JStr [simp]: "test_str p (JStr s) = p s"
  by (simp add: test_str_def)

lemma normalizeSha256Root_root: "normalizeSha256Root v f = Inr r \<Longrightarrow> rx_full ROOT_RE r"
  by (auto simp: normalizeSha256Root_def HASH_RE_iff ROOT_RE_iff split: jsval.splits if_splits)

lemma normalizeSha256Root_idem: "rx_full ROOT_RE r \<Longrightarrow> normalizeSha256Root (JStr r) f = Inr r"
  by (simp add: normalizeSha256Root_def)

lemma normalizePreviousHash_ok: "normalizePreviousHash v = Inr r \<Longrightarrow> isPreviousHash (JStr r)"
  by (auto simp: normalizePreviousHash_def isPreviousHash_def dest: normalizeSha256Root_root split: if_splits)

lemma requiredString_Inr: "requiredString v f = Inr s \<longleftrightarrow> v = JStr s \<and> s \<noteq> []"
  by (auto simp: requiredString_def split: jsval.splits)

lemma requiredInteger_Inr: "requiredInteger v f = Inr w \<longleftrightarrow> w = v \<and> as_count v \<noteq> None"
  by (auto simp: requiredInteger_def as_count_def split: option.splits)

lemma signPayload_args [simp]:
  "signPayload N (JObj [(''payload'', p), (''privateKey'', k)]) m = sign_bytes N p k"
  by (simp add: signPayload_def isPlainRecord_def hasOwn_def keys_of_def obj_get_def)

lemma verifySignature_args [simp]:
  "verifySignature N (JObj [(''payload'', p), (''signature'', s), (''publicKey'', k)]) m q
     = verify_bytes N p s k"
  by (simp add: verifySignature_def isPlainRecord_def hasOwn_def keys_of_def obj_get_def)

lemma verify_sign_bytes:
  assumes "key_pair_ok N priv pub" "pub \<noteq> JUndef"
    and "sign_bytes N payload priv = Inr sig"
    and "isPlainRecord sg" "getp sg ''value'' = JStr sig"
  shows "verify_bytes N payload sg pub"
proof -
  from assms(3) obtain b s where b: "bytesForSigning payload = Inr b"
    and s: "nd_sign N b priv = Inr s" "sig = nd_b64url N s"
    by (auto simp: sign_bytes_def res_simps)
  have "nd_verify N b pub (nd_b64dec N (signature_encoding sig) sig) = Inr True"
    using assms(1) s unfolding key_pair_ok_def by (metis sum.inject(2))
  moreover have "sg \<noteq> JUndef" using assms(4) by (auto simp: isPlainRecord_def)
  ultimately show ?thesis using assms b
    by (simp add: verify_bytes_def decodeSignature_def)
qed

lemma sign_bytes_nonempty:
  "key_pair_ok N priv pub \<Longrightarrow> sign_bytes N payload priv = Inr sig \<Longrightarrow> sig \<noteq> []"
  by (auto simp: sign_bytes_def res_simps key_pair_ok_def) (metis sum.inject(2))

lemma getp_verificationResult:
  "''ok'' \<notin> fst ` set extra \<Longrightarrow> getp (verificationResult b es extra) ''ok'' = JBool b"
  "''errors'' \<notin> fst ` set extra \<Longrightarrow> getp (verificationResult b es extra) ''errors'' = JArr (map JStr es)"
  by (simp_all add: verificationResult_def obj_get_puts_notin) (simp_all add: obj_get_def)

lemma utf8_char_append:
  assumes "utf8_char c @ u = utf8_char d @ v"
  shows "c = d \<and> u = v"
proof -
  let ?m = "of_char c :: nat" and ?n = "of_char d :: nat"
  have less: "?m < 256" "?n < 256" by simp_all
  then have q: "?m div 64 < 4" "?n div 64 < 4" by (simp_all add: less_mult_imp_div_less)
  have "?m = ?n"
  proof (cases "?m < 128"; cases "?n < 128")
    assume "?m < 128" "?n < 128"
    with assms show ?thesis by (simp add: utf8_char_def Let_def)
  next
    assume "?m < 128" "\<not> ?n < 128"
    with assms have "c = char_of (192 + ?n div 64)" by (simp add: utf8_char_def Let_def)
    then have "?m = (192 + ?n div 64) mod 256" by simp
    with \<open>?m < 128\<close> q(2) show ?thesis by simp
  next
    assume "\<not> ?m < 128" "?n < 128"
    with assms have "d = char_of (192 + ?m div 64)" by (simp add: utf8_char_def Let_def)
    then have "?n = (192 + ?m div 64) mod 256" by simp
    with \<open>?n < 128\<close> q(1) show ?thesis by simp
  next
    assume "\<not> ?m < 128" "\<not> ?n < 128"
    with assms have "char_of (192 + ?m div 64) = (char_of (192 + ?n div 64) :: char)"
      "char_of (128 + ?m mod 64) = (char_of (128 + ?n mod 64) :: char)" by (simp_all add: utf8_char_def Let_def)
    then have "(192 + ?m div 64) mod 256 = (192 + ?n div 64) mod 256"
      "(128 + ?m mod 64) mod 256 = (128 + ?n mod 64) mod 256" by (metis of_char_of)+
    with q have "?m div 64 = ?n div 64" "?m mod 64 = ?n mod 64" by simp_all
    then show ?thesis by (metis div_mult_mod_eq)
  qed
  then have "c = d" by simp
  with assms show ?thesis by simp
qed

lemma utf8_inj: "utf8 s = utf8 t \<Longrightarrow> s = t"
proof (induction s arbitrary: t)
  case Nil
  then show ?case by (cases t) (auto simp: utf8_def utf8_char_def Let_def split: if_splits)
next
  case (Cons c s)
  then obtain d t' where t: "t = d # t'"
    by (cases t) (auto simp: utf8_def utf8_char_def Let_def split: if_splits)
  with Cons show ?case using utf8_char_append [of c "utf8 s" d "utf8 t'"] by (simp add: utf8_def)
qed

end
