(* ===== verification/Sample_Runtime.thy ===== *)
theory Sample_Runtime
  imports Hashing
begin

text \<open>
  A concrete runtime for witnesses: a 32-bit polynomial digest printed as 64 hexadecimal digits, and a
  signature scheme that signs by copying.  It satisfies the documented behaviour the properties
  assume of the Node runtime (\<open>hash_hex\<close>, \<open>key_pair_ok\<close>) and is collision free on the small sets of
  strings the witnesses hash.
\<close>

fun hex_digits :: "nat \<Rightarrow> nat \<Rightarrow> string" where
  "hex_digits 0 n = []"
| "hex_digits (Suc k) n = hex_digits k (n div 16) @ [hex_digit (n mod 16)]"

definition poly_hash :: "string \<Rightarrow> nat" where
  "poly_hash s = fold (\<lambda>c a. (a * 31 + of_char c) mod 4294967296) s 7"

definition sample_digest :: "string \<Rightarrow> string" where
  "sample_digest s = replicate 56 (CHR ''0'') @ hex_digits 8 (poly_hash s)"

definition sample :: node where
  "sample = \<lparr>
     nd_sha256 = sample_digest,
     nd_hmac = (\<lambda>k s. sample_digest (k @ s)),
     nd_sign = (\<lambda>m k. Inr m),
     nd_verify = (\<lambda>m k s. Inr (s = m)),
     nd_b64url = (\<lambda>b. CHR ''_'' # b),
     nd_b64dec = (\<lambda>e s. tl s),
     nd_spki = (\<lambda>k. Inr ''sample-public-key''),
     nd_keyring = (\<lambda>r k. JUndef),
     nd_now = ''2026-01-01T00:00:00.000Z'',
     nd_date = (\<lambda>_. None),
     nd_number = (\<lambda>_. NNaN),
     nd_arith = (\<lambda>_ _ _. NNaN),
     nd_set = (\<lambda>_. None)\<rparr>"

lemma ch_hex_hex_digit: "n < 16 \<Longrightarrow> ch_hex (hex_digit n)"
proof -
  have "\<forall>n \<in> set [0..<16]. ch_hex (hex_digit n)" by code_simp
  then show "n < 16 \<Longrightarrow> ch_hex (hex_digit n)" by simp
qed

lemma hex_digits_hex: "length (hex_digits k n) = k \<and> list_all ch_hex (hex_digits k n)"
  by (induction k arbitrary: n) (simp_all add: ch_hex_hex_digit)

lemma hash_hex_sample: "hash_hex sample"
proof -
  have "ch_hex (CHR ''0'')" by code_simp
  then show ?thesis
    using hex_digits_hex by (simp add: hash_hex_def sample_def sample_digest_def list_all_iff)
qed

lemma key_pair_ok_sample: "key_pair_ok sample k p"
  by (simp add: key_pair_ok_def sample_def)

lemma sha256Str_sample: "sha256Str sample s = sample_digest (utf8 s)"
  by (simp add: sha256Str_def sample_def)

lemma hex_digits_inj: "m < 16 ^ k \<Longrightarrow> n < 16 ^ k \<Longrightarrow> hex_digits k m = hex_digits k n \<Longrightarrow> m = n"
proof (induction k arbitrary: m n)
  case (Suc k)
  from Suc.prems(3) have "hex_digits k (m div 16) = hex_digits k (n div 16)"
    and "hex_value (hex_digit (m mod 16)) = hex_value (hex_digit (n mod 16))" by simp_all
  moreover have "m div 16 < 16 ^ k" "n div 16 < 16 ^ k"
    using Suc.prems(1,2) by (simp_all add: less_mult_imp_div_less mult.commute)
  ultimately have "m div 16 = n div 16" "m mod 16 = n mod 16"
    using Suc.IH by simp_all
  then show ?case by (metis div_mult_mod_eq)
qed simp

lemma poly_hash_less: "poly_hash s < 16 ^ 8"
proof -
  have "fold (\<lambda>c a. (a * 31 + of_char c) mod 4294967296) s a < (4294967296 :: nat)" if "a < 4294967296" for a
    using that by (induction s arbitrary: a) simp_all
  from this [of 7] show ?thesis by (simp add: poly_hash_def)
qed

lemma sample_digest_eq_iff: "sample_digest s = sample_digest t \<longleftrightarrow> poly_hash s = poly_hash t"
  using hex_digits_inj [OF poly_hash_less poly_hash_less] by (auto simp: sample_digest_def)

text \<open>Evaluation of the digest by the simplifier.\<close>

lemma hex_digits_numeral:
  "hex_digits (numeral k) n = hex_digits (pred_numeral k) (n div 16) @ [hex_digit (n mod 16)]"
  by (simp only: numeral_eq_Suc [of k] hex_digits.simps)

lemma replicate_56: "replicate 56 x = replicate 8 x @ replicate 8 x @ replicate 8 x @ replicate 8 x @ replicate 8 x @ replicate 8 x @ replicate 8 x"
  by (simp add: numeral_eq_Suc)

lemma replicate_8: "replicate 8 x = [x, x, x, x, x, x, x, x]"
  by (simp add: numeral_eq_Suc)

lemmas poly_eval = poly_hash_def utf8_def utf8_char_def

lemmas sample_eval =
  sha256Str_sample sample_digest_def poly_eval hex_digits_numeral replicate_56 replicate_8 hex_digit_def

end
