(* ===== verification/PublicSafe.thy ===== *)
theory PublicSafe
  imports Hashing Sample_Runtime
begin

text \<open>
  The public-safe scan of \<open>packages/core\<close>: a walk over a value that reports field names, strings,
  numeric vectors and values that must not appear in a public artifact, and the operations guarded
  by it (\<open>assertPublicSafeFields\<close>, \<open>publicSafeHash\<close>, \<open>verifyPublicSafeArtifact\<close>,
  \<open>verifyPublicSafeHash\<close>).  The scan is related to a specification without paths
  (\<open>public_safe\<close>) and to the sub-values of the scanned value.
\<close>

section \<open>Patterns\<close>

definition rx_cls :: "string \<Rightarrow> rx" where
  "rx_cls cs = RCls (ch_in cs)"

definition ws_plus :: rx where
  "ws_plus = rx_plus (RCls ch_space)"

definition at_least :: "nat \<Rightarrow> (char \<Rightarrow> bool) \<Rightarrow> rx" where
  "at_least n p = RRep (RCls p) n None"

definition lower_alnum_or :: "string \<Rightarrow> char \<Rightarrow> bool" where
  "lower_alnum_or cs c = (ch_lower c \<or> ch_digit c \<or> c \<in> set cs)"

definition alnum_or :: "string \<Rightarrow> char \<Rightarrow> bool" where
  "alnum_or cs c = (ch_alnum c \<or> c \<in> set cs)"

text \<open>Case-insensitive; the subject is lower-cased first.\<close>

definition SECRET_VALUE_RE :: rx where
  "SECRET_VALUE_RE = rx_alts
     [rx_seqs [rx_lit ''-----begin '', rx_star (RCls (\<lambda>c. ch_lower c \<or> c = CHR '' '')), rx_lit ''private key-----''],
      rx_seqs [rx_alts [rx_lit ''sk'', rx_lit ''pk'', rx_lit ''rk''], rx_lit ''_'',
               rx_alts [rx_lit ''live'', rx_lit ''test'', rx_lit ''proj''], rx_lit ''_'',
               at_least 12 (lower_alnum_or ''_-'')],
      rx_seqs [rx_lit ''gh'', rx_cls ''pousr'', rx_lit ''_'', at_least 20 (lower_alnum_or ''_'')],
      rx_seqs [rx_lit ''xox'', rx_cls ''baprs'', rx_lit ''-'', at_least 20 (lower_alnum_or ''-'')],
      rx_seqs [rx_lit ''bearer'', ws_plus, at_least 20 (lower_alnum_or ''._~+/=-'')]]"

definition secret_value :: "string \<Rightarrow> bool" where
  "secret_value s = rx_search SECRET_VALUE_RE (toLowerCase s)"

definition LOCAL_PATH_RE :: rx where
  "LOCAL_PATH_RE = rx_alts
     [rx_seqs [RCls (\<lambda>c. ch_lower c \<or> ch_upper c), rx_lit '':'', rx_cls [CHR 0x5C, CHR ''/'']],
      rx_lit [CHR 0x5C, CHR 0x5C],
      rx_seqs [rx_lit ''/'', rx_alts (map rx_lit [''Users'', ''home'', ''tmp'', ''var'', ''etc'', ''private'', ''Volumes'']), rx_lit ''/'']]"

definition local_path :: "string \<Rightarrow> bool" where
  "local_path s = rx_prefix LOCAL_PATH_RE s"

definition FORBIDDEN_PUBLIC_CLAIM_RE :: rx where
  "FORBIDDEN_PUBLIC_CLAIM_RE = rx_alts
     [rx_seqs [rx_lit ''provider'', rx_opt (rx_lit ''-native''), ws_plus,
               rx_alts [rx_lit ''deletion'', rx_seqs [rx_lit ''memory'', ws_plus, rx_lit ''control'']]],
      rx_seqs [rx_lit ''model'', ws_plus, rx_lit ''forgetting''],
      rx_seqs [rx_lit ''compliance'', ws_plus, rx_lit ''certification''],
      rx_seqs [rx_lit ''certif'', rx_alts [rx_lit ''y'', rx_lit ''ies'', rx_lit ''ied''], ws_plus, rx_lit ''compliance''],
      rx_seqs [rx_lit ''benchmark'', ws_plus, rx_lit ''superiority''],
      rx_seqs [rx_lit ''hosted'', ws_plus, rx_alts [rx_lit ''saas'', rx_lit ''cloud''], ws_plus, rx_lit ''ready''],
      rx_seqs [rx_lit ''byoc'', ws_plus, rx_lit ''ready''],
      rx_seqs [rx_lit ''patent'', rx_alts [rx_lit ''ability'', rx_lit ''able'']],
      rx_seqs [rx_lit ''legal'', ws_plus, rx_lit ''conclusion''],
      rx_seqs [rx_lit ''raw'', ws_plus, rx_lit ''embedding'', rx_opt (rx_lit ''s''), ws_plus,
               rx_opt (rx_seqs [rx_lit ''are'', ws_plus]), rx_lit ''safe''],
      rx_seqs [rx_lit ''hardware'', ws_plus, rx_lit ''tamper'', rx_opt (RCls (\<lambda>c. c = CHR ''-'' \<or> ch_space c)), rx_lit ''proof''],
      rx_seqs [rx_lit ''tamper'', rx_opt (RCls (\<lambda>c. c = CHR ''-'' \<or> ch_space c)), rx_lit ''proof'', ws_plus, rx_lit ''hardware'']]"

definition forbidden_claim :: "string \<Rightarrow> bool" where
  "forbidden_claim s = rx_word_search FORBIDDEN_PUBLIC_CLAIM_RE (toLowerCase s)"

definition PUBLIC_FORBIDDEN_KEYS :: "string list" where
  "PUBLIC_FORBIDDEN_KEYS =
     [''api_key'', ''authorization'', ''body'', ''content'', ''cookie'', ''credential'', ''credentials'',
      ''embedding'', ''embeddings'', ''file_path'', ''local_path'', ''password'', ''plaintext'',
      ''private_key'', ''prompt'', ''provider_response'', ''raw'', ''raw_memory'', ''response'',
      ''secret'', ''text'', ''token'', ''transcript'', ''vector'', ''vectors'']"

definition forbidden_suffixes :: "string list" where
  "forbidden_suffixes =
     [''plaintext'', ''prompt'', ''response'', ''transcript'', ''embedding'', ''embeddings'', ''vector'',
      ''vectors'', ''private_key'', ''token'', ''secret'', ''password'', ''api_key'', ''credential'',
      ''credentials'', ''cookie'', ''authorization'']"

definition normalized_key :: "string \<Rightarrow> string" where
  "normalized_key key = toLowerCase (split_camel key)"

definition isForbiddenPublicKey :: "string \<Rightarrow> bool" where
  "isForbiddenPublicKey key =
     (let normalized = normalized_key key
      in normalized \<in> set PUBLIC_FORBIDDEN_KEYS
         \<or> rx_full (RSeq (RAlt REps (RSeq rx_any (rx_lit ''_''))) (rx_alts (map rx_lit forbidden_suffixes))) normalized)"

section \<open>Strings of the public grammar\<close>

definition SCHEMA_ID_RE :: rx where
  "SCHEMA_ID_RE = rx_seqs
     [RCls ch_lower, rx_star (RCls (lower_alnum_or ''_'')),
      rx_star (rx_seqs [rx_lit ''.'', rx_plus (RCls (lower_alnum_or ''_''))]),
      rx_lit ''.v'', rx_plus (RCls ch_digit)]"

definition DATE_TIME_RE :: rx where
  "DATE_TIME_RE = rx_seqs
     [rx_times 4 (RCls ch_digit), rx_lit ''-'', rx_times 2 (RCls ch_digit), rx_lit ''-'', rx_times 2 (RCls ch_digit),
      rx_lit ''T'', rx_times 2 (RCls ch_digit), rx_lit '':'', rx_times 2 (RCls ch_digit), rx_lit '':'',
      rx_times 2 (RCls ch_digit), rx_opt (rx_seqs [rx_lit ''.'', rx_times 3 (RCls ch_digit)]), rx_lit ''Z'']"

definition status_words :: "string list" where
  "status_words =
     [''ok'', ''valid'', ''invalid'', ''active'', ''quarantine'', ''quarantined'', ''tombstone'', ''tombstoned'',
      ''revoked'', ''granted'', ''omitted'', ''selected'', ''provided'', ''missing'', ''blocked'', ''pass'',
      ''fail'', ''unknown'']"

definition URI_RE :: rx where
  "URI_RE = rx_seqs
     [RCls ch_lower, rx_star (RCls (lower_alnum_or ''+.-'')), rx_lit '':'',
      RRep (RCls (alnum_or (''._~:@/+?#[]!$&()*%,;=-'' @ [CHR 0x27]))) 1 (Some 256)]"

definition isPublicSafeString :: "string \<Rightarrow> bool" where
  "isPublicSafeString s =
     (s = [] \<or> rx_full ROOT_RE s \<or> rx_full HASH_RE s \<or> rx_full NULLIFIER_RE s
      \<or> rx_full SCHEMA_ID_RE s \<or> rx_full DATE_TIME_RE s \<or> s \<in> set status_words \<or> rx_full URI_RE s)"

section \<open>The scan\<close>

type_synonym issue = "string \<times> string"

definition scanPublicSafeString :: "bool \<Rightarrow> string \<Rightarrow> string \<Rightarrow> issue list" where
  "scanPublicSafeString strict s path =
     (if secret_value s then [(path, ''secret-shaped string is not public-safe'')] else []) @
     (if local_path s then [(path, ''local absolute path is not public-safe'')] else []) @
     (if forbidden_claim s then [(path, ''forbidden public claim is not allowed'')] else []) @
     (if strict \<and> \<not> isPublicSafeString s then [(path, ''string is outside public artifact grammar'')] else [])"

definition looksLikeEmbeddingVector :: "jsval list \<Rightarrow> bool" where
  "looksLikeEmbeddingVector xs =
     (length xs \<ge> 32 \<and> list_all (\<lambda>x. case x of JNum n \<Rightarrow> is_finite n | _ \<Rightarrow> False) xs)"

definition index_path :: "string \<Rightarrow> nat \<Rightarrow> string" where
  "index_path path i = path @ ''['' @ nat_to_string i @ '']''"

definition key_path :: "string \<Rightarrow> string \<Rightarrow> string" where
  "key_path path k = path @ ''.'' @ k"

lemma size_enumerate [termination_simp]:
  "(i, x) \<in> set (enumerate n xs) \<Longrightarrow> size x < Suc (size_list size xs)"
  by (auto simp: in_set_enumerate_eq intro: size_elem)

fun scanPublicSafeValue :: "bool \<Rightarrow> jsval \<Rightarrow> string \<Rightarrow> issue list" where
  "scanPublicSafeValue st JNull path = []"
| "scanPublicSafeValue st JUndef path = [(path, ''undefined is not public-safe JSON'')]"
| "scanPublicSafeValue st (JStr s) path = scanPublicSafeString st s path"
| "scanPublicSafeValue st (JNum n) path = (if is_finite n then [] else [(path, ''number must be finite'')])"
| "scanPublicSafeValue st (JBool b) path = []"
| "scanPublicSafeValue st JFun path = [(path, ''function is not public-safe JSON'')]"
| "scanPublicSafeValue st JSym path = [(path, ''symbol is not public-safe JSON'')]"
| "scanPublicSafeValue st (JBig i) path = [(path, ''bigint is not public-safe JSON'')]"
| "scanPublicSafeValue st JHole path = [(path, ''sparse arrays are not public-safe'')]"
| "scanPublicSafeValue st (JArr xs) path =
     (if looksLikeEmbeddingVector xs then [(path, ''numeric vector-like arrays are not public-safe'')] else []) @
     concat (map (\<lambda>(i, x). scanPublicSafeValue st x (index_path path i)) (enumerate 0 xs))"
| "scanPublicSafeValue st (JBytes s) path = []"
| "scanPublicSafeValue st (JObj ps) path =
     concat (map (\<lambda>(k, v).
       (if isForbiddenPublicKey k then [(key_path path k, ''field name is not public-safe'')] else []) @
       scanPublicSafeValue st v (key_path path k)) ps)"
| "scanPublicSafeValue st (JInst c ps) path =
     concat (map (\<lambda>(k, v).
       (if isForbiddenPublicKey k then [(key_path path k, ''field name is not public-safe'')] else []) @
       scanPublicSafeValue st v (key_path path k)) ps)"

text \<open>\<open>options.strictStrings === true\<close>.\<close>

definition strict_of :: "jsval \<Rightarrow> bool" where
  "strict_of options = (getp options ''strictStrings'' = JBool True)"

definition scan_issues :: "jsval \<Rightarrow> jsval \<Rightarrow> issue list" where
  "scan_issues v options = scanPublicSafeValue (strict_of options) v ''$''"

definition issue_text :: "issue \<Rightarrow> string" where
  "issue_text i = fst i @ '': '' @ snd i"

definition scanPublicSafeFields :: "jsval \<Rightarrow> jsval \<Rightarrow> jsval" where
  "scanPublicSafeFields v options =
     (let issues = scan_issues v options
      in verificationResult (issues = []) (map issue_text issues)
           [(''forbidden_paths'', JArr (map (JStr \<circ> fst) issues))])"

definition assertPublicSafeFields :: "jsval \<Rightarrow> jsval \<Rightarrow> jsval res" where
  "assertPublicSafeFields v options =
     (let issues = scan_issues v options
      in if issues \<noteq> [] then Inl (TypeError (''public-safe scan failed: '' @ join ''; '' (map issue_text issues)))
         else Inr v)"

definition publicSafeHash :: "node \<Rightarrow> jsval \<Rightarrow> jsval \<Rightarrow> string res" where
  "publicSafeHash N v options =
     ebind (assertPublicSafeFields v options) (\<lambda>_.
       ebind (canonicalize v) (\<lambda>c. prefixedSha256 N (JStr c)))"

definition verifyPublicSafeArtifact :: "node \<Rightarrow> jsval \<Rightarrow> jsval \<Rightarrow> jsval res" where
  "verifyPublicSafeArtifact N v options =
     (let issues = scan_issues v options; ok = (issues = []);
          result = (\<lambda>hash. verificationResult ok (map issue_text issues)
             [(''forbidden_paths'', JArr (map (JStr \<circ> fst) issues)), (''public_hash'', hash)])
      in if ok then ebind (canonicalize v) (\<lambda>c. emap (result \<circ> JStr) (prefixedSha256 N (JStr c)))
         else Inr (result JNull))"

definition verifyPublicSafeHash :: "node \<Rightarrow> jsval \<Rightarrow> jsval \<Rightarrow> jsval \<Rightarrow> jsval res" where
  "verifyPublicSafeHash N v maybeExpectedHash options =
     (let expected = coals options [''expected_hash'', ''expectedHash'', ''hash'', ''public_hash'', ''publicHash''] maybeExpectedHash;
          issues = scan_issues v options
      in if issues \<noteq> [] then
           Inr (verificationResult False (map issue_text issues)
             [(''forbidden_paths'', JArr (map (JStr \<circ> fst) issues)), (''public_hash'', JNull)])
         else
           ebind (canonicalize v) (\<lambda>c. ebind (prefixedSha256 N (JStr c)) (\<lambda>publicHash.
             let errors =
               (if expected = JUndef then []
                else case normalizeSha256Root expected ''expectedHash'' of
                       Inl _ \<Rightarrow> [''expectedHash must be a sha256 root'']
                     | Inr r \<Rightarrow> if r \<noteq> publicHash then [''public hash mismatch''] else [])
             in Inr (verificationResult (errors = []) errors
                  [(''forbidden_paths'', JArr []), (''public_hash'', JStr publicHash)]))))"

section \<open>Specification without paths\<close>

definition safe_string :: "bool \<Rightarrow> string \<Rightarrow> bool" where
  "safe_string st s = (\<not> secret_value s \<and> \<not> local_path s \<and> \<not> forbidden_claim s \<and> (st \<longrightarrow> isPublicSafeString s))"

fun public_safe :: "bool \<Rightarrow> jsval \<Rightarrow> bool" where
  "public_safe st JNull = True"
| "public_safe st (JBool b) = True"
| "public_safe st (JBytes s) = True"
| "public_safe st (JNum n) = is_finite n"
| "public_safe st (JStr s) = safe_string st s"
| "public_safe st (JArr xs) = (\<not> looksLikeEmbeddingVector xs \<and> (\<forall>x \<in> set xs. public_safe st x))"
| "public_safe st (JObj ps) = (\<forall>p \<in> set ps. \<not> isForbiddenPublicKey (fst p) \<and> public_safe st (snd p))"
| "public_safe st (JInst c ps) = (\<forall>p \<in> set ps. \<not> isForbiddenPublicKey (fst p) \<and> public_safe st (snd p))"
| "public_safe st _ = False"

text \<open>Sub-values reachable through fields and elements.\<close>

inductive subval :: "jsval \<Rightarrow> jsval \<Rightarrow> bool" where
  sub_refl: "subval v v"
| sub_elem: "x \<in> set xs \<Longrightarrow> subval v x \<Longrightarrow> subval v (JArr xs)"
| sub_field: "(k, w) \<in> set ps \<Longrightarrow> subval v w \<Longrightarrow> subval v (JObj ps)"
| sub_inst: "(k, w) \<in> set ps \<Longrightarrow> subval v w \<Longrightarrow> subval v (JInst c ps)"

text \<open>What the value itself must satisfy, its components apart.\<close>

definition safe_here :: "bool \<Rightarrow> jsval \<Rightarrow> bool" where
  "safe_here st v =
     (case v of
        JNull \<Rightarrow> True
      | JBool b \<Rightarrow> True
      | JBytes s \<Rightarrow> True
      | JNum n \<Rightarrow> is_finite n
      | JStr s \<Rightarrow> safe_string st s
      | JArr xs \<Rightarrow> \<not> looksLikeEmbeddingVector xs
      | JObj ps \<Rightarrow> \<not> list_ex isForbiddenPublicKey (map fst ps)
      | JInst c ps \<Rightarrow> \<not> list_ex isForbiddenPublicKey (map fst ps)
      | _ \<Rightarrow> False)"

section \<open>The scan implements the specification\<close>

lemma scanPublicSafeString_Nil: "scanPublicSafeString st s path = [] \<longleftrightarrow> safe_string st s"
  by (auto simp: scanPublicSafeString_def safe_string_def)

lemma enumerate_all_iff:
  assumes "\<And>i x. (i, x) \<in> set (enumerate n xs) \<Longrightarrow> P i x \<longleftrightarrow> Q x"
  shows "(\<forall>p \<in> set (enumerate n xs). P (fst p) (snd p)) \<longleftrightarrow> (\<forall>x \<in> set xs. Q x)"
  using assms
proof (induction xs arbitrary: n)
  case (Cons x xs)
  have "(\<forall>p \<in> set (enumerate (Suc n) xs). P (fst p) (snd p)) \<longleftrightarrow> (\<forall>x \<in> set xs. Q x)"
    by (rule Cons.IH) (use Cons.prems in simp)
  with Cons.prems [of n x] show ?case by simp
qed simp

lemma concat_map_Nil: "concat (map f xs) = [] \<longleftrightarrow> (\<forall>x \<in> set xs. f x = [])"
  by auto

lemma scan_fields_iff:
  assumes "\<And>k v. (k, v) \<in> set ps \<Longrightarrow> scan v (key_path path k) = [] \<longleftrightarrow> Q v"
  shows "concat (map (\<lambda>(k, v).
       (if isForbiddenPublicKey k then [(key_path path k, ''field name is not public-safe'')] else []) @
       scan v (key_path path k)) ps) = [] \<longleftrightarrow> (\<forall>p \<in> set ps. \<not> isForbiddenPublicKey (fst p) \<and> Q (snd p))"
  unfolding concat_map_Nil
proof (rule ball_cong [OF refl])
  fix p
  assume "p \<in> set ps"
  with assms show "((\<lambda>(k, v).
       (if isForbiddenPublicKey k then [(key_path path k, ''field name is not public-safe'')] else []) @
       scan v (key_path path k)) p = []) = (\<not> isForbiddenPublicKey (fst p) \<and> Q (snd p))"
    by (cases p) simp
qed

lemma scan_iff_public_safe: "scanPublicSafeValue st v path = [] \<longleftrightarrow> public_safe st v"
proof (induction st v path rule: scanPublicSafeValue.induct)
  case (10 st xs path)
  have "(\<forall>p \<in> set (enumerate 0 xs). scanPublicSafeValue st (snd p) (index_path path (fst p)) = [])
      \<longleftrightarrow> (\<forall>x \<in> set xs. public_safe st x)"
    by (rule enumerate_all_iff) (use 10 in blast)
  then show ?case by (simp add: concat_map_Nil case_prod_unfold)
next
  case (12 st ps path)
  show ?case
    unfolding scanPublicSafeValue.simps public_safe.simps by (rule scan_fields_iff) (use 12 in blast)
next
  case (13 st c ps path)
  show ?case
    unfolding scanPublicSafeValue.simps public_safe.simps by (rule scan_fields_iff) (use 13 in blast)
qed (simp_all add: scanPublicSafeString_Nil)

lemma public_safe_here: "public_safe st v \<Longrightarrow> safe_here st v"
  by (cases v) (auto simp: safe_here_def list_ex_iff)

lemma public_safe_subval: "subval w v \<Longrightarrow> public_safe st v \<Longrightarrow> public_safe st w"
  by (induction rule: subval.induct) auto

lemma safe_here_public_safe:
  "(\<And>w. subval w v \<Longrightarrow> safe_here st w) \<Longrightarrow> public_safe st v"
proof (induction v)
  case (JArr xs)
  have "public_safe st x" if "x \<in> set xs" for x
    using JArr.IH [OF that] JArr.prems sub_elem [OF that] by blast
  with JArr.prems [OF sub_refl] show ?case by (simp add: safe_here_def)
next
  case (JObj ps)
  have "public_safe st w" if "(k, w) \<in> set ps" for k w
    using JObj.IH [OF that] JObj.prems sub_field [OF that] by (simp add: prod_set_defs)
  with JObj.prems [OF sub_refl] show ?case by (auto simp: safe_here_def list_ex_iff)
next
  case (JInst c ps)
  have "public_safe st w" if "(k, w) \<in> set ps" for k w
    using JInst.IH [OF that] JInst.prems sub_inst [OF that] by (simp add: prod_set_defs)
  with JInst.prems [OF sub_refl] show ?case by (auto simp: safe_here_def list_ex_iff)
qed (use sub_refl in \<open>force simp: safe_here_def\<close>)+

lemma public_safe_iff_all_here: "public_safe st v \<longleftrightarrow> (\<forall>w. subval w v \<longrightarrow> safe_here st w)"
  using public_safe_here public_safe_subval safe_here_public_safe by blast

lemma assertPublicSafeFields_Inr:
  "assertPublicSafeFields v options = Inr w \<longleftrightarrow> w = v \<and> public_safe (strict_of options) v"
  by (auto simp: assertPublicSafeFields_def Let_def scan_issues_def scan_iff_public_safe)

fun no_instances :: "jsval \<Rightarrow> bool" where
  "no_instances (JInst c ps) = False"
| "no_instances (JBytes s) = False"
| "no_instances (JArr xs) = (\<forall>x \<in> set xs. no_instances x)"
| "no_instances (JObj ps) = (\<forall>p \<in> set ps. no_instances (snd p))"
| "no_instances _ = True"

lemma canonicalize_public_safe:
  "public_safe st v \<Longrightarrow> no_instances v \<Longrightarrow> is_ok (canonicalizeValue v)"
proof (induction v rule: canonicalizeValue.induct)
  case (10 xs)
  then have "JHole \<notin> set xs" by (metis public_safe.simps(6,13))
  with 10 show ?case by (auto simp: is_ok_ebind_total is_ok_mapE)
next
  case (13 xs)
  then have "\<forall>p \<in> set xs. is_ok (canonicalizeValue (snd p))" by fastforce
  then show ?case by (simp add: is_ok_mapE is_ok_ebind_total case_prod_unfold)
qed auto

section \<open>Properties\<close>

lemma sample_safe: "public_safe st (JArr [JBool True, JNull])"
  by (simp add: looksLikeEmbeddingVector_def)

lemma suffix_lang:
  "conc (insert [] (conc UNIV {t})) S = {k. \<exists>s \<in> S. k = s \<or> (\<exists>u. k = u @ t @ s)}"
proof (intro set_eqI iffI)
  fix k
  assume "k \<in> {k. \<exists>s \<in> S. k = s \<or> (\<exists>u. k = u @ t @ s)}"
  then obtain s where s: "s \<in> S" "k = s \<or> (\<exists>u. k = u @ t @ s)" by blast
  then obtain p where "p \<in> insert [] (conc UNIV {t})" "k = p @ s"
    by (cases "k = s") (force simp: conc_def)+
  with s show "k \<in> conc (insert [] (conc UNIV {t})) S" by (auto simp: conc_def)
qed (force simp: conc_def)

lemma isForbiddenPublicKey_iff:
  "isForbiddenPublicKey key \<longleftrightarrow>
     normalized_key key \<in> set PUBLIC_FORBIDDEN_KEYS
     \<or> (\<exists>s \<in> set forbidden_suffixes. normalized_key key = s \<or> (\<exists>u. normalized_key key = u @ ''_'' @ s))"
  by (simp add: isForbiddenPublicKey_def Let_def rx_full_iff_lang rx_lang suffix_lang)

lemma sample_unsafe: "\<not> public_safe st (JObj [(''token'', JNull)])"
  by (simp add: isForbiddenPublicKey_iff normalized_key_def toLowerCase_def lower_char_def
      PUBLIC_FORBIDDEN_KEYS_def ch_lower_iff ch_upper_iff)

text \<open>
  C24. \<open>scanPublicSafeFields\<close> reports success exactly when every value inside the scanned one, at any
  depth, is safe on its own: no forbidden field name, secret-shaped string, local path, forbidden
  claim, long numeric vector, non-finite number or non-JSON value (and, in strict mode, only strings
  of the public grammar).
\<close>

theorem scanPublicSafeFields_correct:
  "getp (scanPublicSafeFields v options) ''ok'' = JBool True
     \<longleftrightarrow> (\<forall>w. subval w v \<longrightarrow> safe_here (strict_of options) w)"
  by (simp add: scanPublicSafeFields_def Let_def scan_issues_def scan_iff_public_safe
      getp_verificationResult public_safe_iff_all_here)

theorem scanPublicSafeFields_correct_witness:
  "getp (scanPublicSafeFields (JArr [JBool True, JNull]) (JObj [])) ''ok'' = JBool True
     \<and> getp (scanPublicSafeFields (JObj [(''token'', JNull)]) (JObj [])) ''ok'' \<noteq> JBool True"
  unfolding scanPublicSafeFields_correct public_safe_iff_all_here [symmetric]
  using sample_safe sample_unsafe by blast

lemma publicSafeHash_total:
  assumes "hash_hex N" and safe: "public_safe (strict_of options) v" and "no_instances v"
  shows "\<exists>h. publicSafeHash N v options = Inr h \<and> isSha256Root (JStr h)"
proof -
  from canonicalize_public_safe [OF safe assms(3)] obtain c where "canonicalizeValue v = Inr c"
    by (auto simp: is_ok_iff)
  with safe assms(1) show ?thesis
    by (simp add: publicSafeHash_def assertPublicSafeFields_def scan_issues_def scan_iff_public_safe
        canonicalize_def isSha256Root_def)
qed

lemma canonicalizeValue_TypeError: "canonicalizeValue v = Inl e \<Longrightarrow> \<exists>msg. e = TypeError msg"
proof (induction v arbitrary: e rule: canonicalizeValue.induct)
  case (10 xs)
  then have "mapE (\<lambda>x. if x = JHole then Inl (TypeError ''canonical JSON cannot encode sparse arrays'') else canonicalizeValue x) xs = Inl e"
    by (auto simp: ebind_Inl_iff)
  then obtain x where "x \<in> set xs" "(if x = JHole then Inl (TypeError ''canonical JSON cannot encode sparse arrays'') else canonicalizeValue x) = Inl e"
    using mapE_Inl by blast
  with 10 show ?case by (auto split: if_splits)
next
  case (13 xs)
  then have "mapE (\<lambda>(k, v). ebind (canonicalizeValue v) (\<lambda>s. Inr (json_string k @ '':'' @ s))) (sort_key fst xs) = Inl e"
    by (auto simp: ebind_Inl_iff)
  then obtain p where "p \<in> set xs" "(\<lambda>(k, v). ebind (canonicalizeValue v) (\<lambda>s. Inr (json_string k @ '':'' @ s))) p = Inl e"
    using mapE_Inl by fastforce
  with 13 show ?case by (cases p) (auto simp: ebind_Inl_iff)
qed (auto split: if_splits)

lemma canonicalize_no_instances: "is_ok (canonicalizeValue v) \<Longrightarrow> no_instances v"
proof (induction v rule: canonicalizeValue.induct)
  case (10 xs)
  then show ?case by (auto simp: is_ok_ebind_total is_ok_mapE split: if_splits)
next
  case (13 xs)
  then show ?case by (fastforce simp: is_ok_ebind_total is_ok_mapE)
qed auto

text \<open>
  C25. \<open>publicSafeHash\<close> is fail-closed and otherwise total: it returns a \<open>sha256\<close> root exactly on the values
  in which the scan finds nothing and which hold no class instance or buffer, and throws a
  \<open>TypeError\<close> on every other value.
\<close>

theorem publicSafeHash_fail_closed:
  assumes "hash_hex N"
  shows "if public_safe (strict_of options) v \<and> no_instances v
         then \<exists>h. publicSafeHash N v options = Inr h \<and> isSha256Root (JStr h)
         else \<exists>msg. publicSafeHash N v options = Inl (TypeError msg)"
proof (cases "public_safe (strict_of options) v \<and> no_instances v")
  case True
  with publicSafeHash_total [OF assms] show ?thesis by simp
next
  case False
  show ?thesis
  proof (cases "public_safe (strict_of options) v")
    case True
    with False canonicalize_no_instances obtain e where "canonicalizeValue v = Inl e" by (metis is_ok_iff sum.exhaust)
    with canonicalizeValue_TypeError obtain msg where "canonicalizeValue v = Inl (TypeError msg)" by blast
    with True False show ?thesis
      by (simp add: publicSafeHash_def assertPublicSafeFields_def scan_issues_def scan_iff_public_safe canonicalize_def)
  qed (simp add: publicSafeHash_def assertPublicSafeFields_def scan_issues_def scan_iff_public_safe)
qed

theorem publicSafeHash_fail_closed_witness:
  "hash_hex sample \<and> (\<exists>h. publicSafeHash sample (JArr [JBool True, JNull]) (JObj []) = Inr h)
     \<and> (\<exists>msg. publicSafeHash sample (JObj [(''token'', JNull)]) (JObj []) = Inl (TypeError msg))"
  using publicSafeHash_fail_closed [OF hash_hex_sample, of "JObj []" "JArr [JBool True, JNull]"]
    publicSafeHash_fail_closed [OF hash_hex_sample, of "JObj []" "JObj [(''token'', JNull)]"]
    sample_safe sample_unsafe hash_hex_sample by auto

text \<open>
  C26. What \<open>verifyPublicSafeHash\<close> accepts, on a value that \<open>publicSafeHash\<close> hashes and with an expected hash
  given as a string that no option overrides: exactly the hash \<open>publicSafeHash\<close> returns, with or without
  its prefix.
\<close>

theorem verifyPublicSafeHash_roundtrip:
  assumes "hash_hex N" and "publicSafeHash N v options = Inr h"
    and "coals options [''expected_hash'', ''expectedHash'', ''hash'', ''public_hash'', ''publicHash''] (JStr g) = JStr g"
  shows "\<exists>r. verifyPublicSafeHash N v (JStr g) options = Inr r
    \<and> getp r ''ok'' = JBool (g = h \<or> SHA256_PREFIX @ g = h)"
proof -
  from assms(2) obtain c where c: "canonicalize v = Inr c" and h: "h = SHA256_PREFIX @ sha256Str N c"
    and safe: "public_safe (strict_of options) v"
    by (auto simp: publicSafeHash_def res_simps assertPublicSafeFields_Inr)
  have root: "rx_full ROOT_RE h" using assms(1) by (simp add: h)
  have bare: "rx_full HASH_RE g" if "SHA256_PREFIX @ g = h" using that hash_hexD [OF assms(1)] by (simp add: h HASH_RE_iff)
  have "\<not> rx_full ROOT_RE g" if "SHA256_PREFIX @ g = h"
    using that hash_hexD [OF assms(1), of c] by (auto simp: h ROOT_RE_iff SHA256_PREFIX_def)
  with root bare have "(case normalizeSha256Root (JStr g) ''expectedHash'' of Inl _ \<Rightarrow> False | Inr r \<Rightarrow> r = h) \<longleftrightarrow> g = h \<or> SHA256_PREFIX @ g = h"
    by (auto simp: normalizeSha256Root_def)
  with assms(3) c h safe show ?thesis
    by (cases "normalizeSha256Root (JStr g) ''expectedHash''")
      (simp_all add: verifyPublicSafeHash_def scan_issues_def scan_iff_public_safe getp_verificationResult)
qed

theorem verifyPublicSafeHash_roundtrip_witness:
  "\<exists>h r. publicSafeHash sample (JArr [JBool True, JNull]) (JObj []) = Inr h
      \<and> verifyPublicSafeHash sample (JArr [JBool True, JNull]) (JStr h) (JObj []) = Inr r
      \<and> getp r ''ok'' = JBool True"
proof -
  obtain h where h: "publicSafeHash sample (JArr [JBool True, JNull]) (JObj []) = Inr h" "isSha256Root (JStr h)"
    using publicSafeHash_total [OF hash_hex_sample sample_safe] by auto
  from verifyPublicSafeHash_roundtrip [OF hash_hex_sample h(1), of h] h show ?thesis
    by (auto simp: obj_get_def)
qed

text \<open>
  The scan's branch for unsupported objects is dead code: every class instance without own
  enumerable properties (a \<open>Date\<close>, a \<open>Map\<close>) passes the scan, after which canonicalisation throws, so
  \<open>verifyPublicSafeArtifact\<close> ends in an exception instead of a report.
\<close>

theorem verifyPublicSafeArtifact_throws_on_instances:
  "getp (scanPublicSafeFields (JInst c []) options) ''ok'' = JBool True
     \<and> verifyPublicSafeArtifact N (JInst c []) options
       = Inl (TypeError ''canonical JSON only accepts plain objects, arrays, and primitives'')"
  by (simp add: scanPublicSafeFields_def verifyPublicSafeArtifact_def scan_issues_def getp_verificationResult
      canonicalize_def)

end
