(* ===== verification/LaunchLedger.thy ===== *)
theory LaunchLedger
  imports PublicSafe
begin

text \<open>
  The public launch evidence ledger of \<open>packages/core\<close>: normalisation of entries, reviews, owners and
  claim boundaries, the summary with its counts and derived advisor decision, creation of a ledger
  and addition of an entry.  Normalised parts are JavaScript objects with the fields of the code.
\<close>

section \<open>Tables\<close>

definition PUBLIC_LAUNCH_EVIDENCE_LEDGER_SCHEMA :: string where
  "PUBLIC_LAUNCH_EVIDENCE_LEDGER_SCHEMA = ''enigma.public_launch_evidence_ledger.v1''"

definition PUBLIC_LAUNCH_ID_RE :: rx where
  "PUBLIC_LAUNCH_ID_RE = RSeq (RCls ch_alnum) (RRep (RCls (alnum_or ''._:-'')) 1 (Some 127))"

definition PUBLIC_LAUNCH_REF_RE :: rx where
  "PUBLIC_LAUNCH_REF_RE = rx_seqs
     [rx_lit ''ref:'', RCls ch_alnum, RRep (RCls (alnum_or ''._~:@#?=&%+-'')) 0 (Some 255)]"

definition PUBLIC_LAUNCH_DATE_TIME_RE :: rx where
  "PUBLIC_LAUNCH_DATE_TIME_RE = DATE_TIME_RE"

definition PUBLIC_LAUNCH_STATUSES :: "string list" where
  "PUBLIC_LAUNCH_STATUSES = [''missing'', ''pending'', ''pass'', ''fail'', ''blocked'']"

definition PUBLIC_LAUNCH_ADVISOR_DECISIONS :: "string list" where
  "PUBLIC_LAUNCH_ADVISOR_DECISIONS = [''ship'', ''hold'', ''rollback'', ''not_reviewed'']"

definition PUBLIC_LAUNCH_LEDGER_FIELDS :: "string list" where
  "PUBLIC_LAUNCH_LEDGER_FIELDS =
     [''schema'', ''ledger_id'', ''ledgerId'', ''generated_at'', ''generatedAt'', ''phase_owners'', ''phaseOwners'',
      ''claim_boundary'', ''claimBoundary'', ''privacy_export_allowlist'', ''privacyExportAllowlist'', ''entries'',
      ''summary'']"

definition PUBLIC_LAUNCH_PHASE_OWNER_FIELDS :: "string list" where
  "PUBLIC_LAUNCH_PHASE_OWNER_FIELDS =
     [''phase_id'', ''phaseId'', ''owner_ref'', ''ownerRef'', ''support_owner_ref'', ''supportOwnerRef'',
      ''release_owner_ref'', ''releaseOwnerRef'', ''signing_owner_ref'', ''signingOwnerRef'']"

definition PUBLIC_LAUNCH_CLAIM_BOUNDARY_FIELDS :: "string list" where
  "PUBLIC_LAUNCH_CLAIM_BOUNDARY_FIELDS =
     [''version_ref'', ''versionRef'', ''allowed_claim_refs'', ''allowedClaimRefs'', ''disallowed_claim_refs'',
      ''disallowedClaimRefs'']"

definition PUBLIC_LAUNCH_ENTRY_FIELDS :: "string list" where
  "PUBLIC_LAUNCH_ENTRY_FIELDS =
     [''phase_id'', ''phaseId'', ''scenario_id'', ''scenarioId'', ''owner_ref'', ''ownerRef'', ''status'',
      ''advisor_decision'', ''advisorDecision'', ''evidence_refs'', ''evidenceRefs'', ''privacy_review'',
      ''privacyReview'', ''claim_review'', ''claimReview'', ''rollback_ready'', ''rollbackReady'',
      ''support_owner_ref'', ''supportOwnerRef'', ''release_owner_ref'', ''releaseOwnerRef'',
      ''signing_owner_ref'', ''signingOwnerRef'', ''updated_at'', ''updatedAt'', ''issue_codes'', ''issueCodes'']"

definition PUBLIC_LAUNCH_REVIEW_FIELDS :: "string list" where
  "PUBLIC_LAUNCH_REVIEW_FIELDS =
     [''status'', ''reviewer_ref'', ''reviewerRef'', ''evidence_ref_count'', ''evidenceRefCount'', ''issue_codes'',
      ''issueCodes'']"

section \<open>Scalar fields\<close>

definition safe_value :: "string \<Rightarrow> string res" where
  "safe_value text = emap (\<lambda>_. text) (assertPublicSafeFields (JObj [(''value'', JStr text)]) (JObj []))"

definition normalizePublicLaunchId :: "jsval \<Rightarrow> string \<Rightarrow> string res" where
  "normalizePublicLaunchId v field =
     ebind (requiredString v field) (\<lambda>text.
       if \<not> rx_full PUBLIC_LAUNCH_ID_RE text then Inl (TypeError (field @ '' must be a public id''))
       else safe_value text)"

definition normalizePublicLaunchRef :: "jsval \<Rightarrow> string \<Rightarrow> string res" where
  "normalizePublicLaunchRef v field =
     ebind (requiredString v field) (\<lambda>text.
       if \<not> rx_full PUBLIC_LAUNCH_REF_RE text then Inl (TypeError (field @ '' must be a public ref''))
       else safe_value text)"

definition normalizePublicLaunchDateTime :: "jsval \<Rightarrow> string \<Rightarrow> string res" where
  "normalizePublicLaunchDateTime v field =
     ebind (requiredString v field) (\<lambda>text.
       if \<not> rx_full PUBLIC_LAUNCH_DATE_TIME_RE text then Inl (TypeError (field @ '' must be an ISO-8601 UTC timestamp''))
       else Inr text)"

definition normalizePublicLaunchStatus :: "jsval \<Rightarrow> string \<Rightarrow> string res" where
  "normalizePublicLaunchStatus v field =
     ebind (requiredString v field) (\<lambda>text.
       if text \<notin> set PUBLIC_LAUNCH_STATUSES then Inl (TypeError (field @ '' must be a public launch evidence status''))
       else Inr text)"

definition normalizePublicLaunchAdvisorDecision :: "jsval \<Rightarrow> string \<Rightarrow> string res" where
  "normalizePublicLaunchAdvisorDecision v field =
     ebind (requiredString v field) (\<lambda>text.
       if text \<notin> set PUBLIC_LAUNCH_ADVISOR_DECISIONS then Inl (TypeError (field @ '' must be an Advisor decision''))
       else Inr text)"

definition requiredBoolean :: "jsval \<Rightarrow> string \<Rightarrow> jsval res" where
  "requiredBoolean v field =
     (case v of JBool b \<Rightarrow> Inr v | _ \<Rightarrow> Inl (TypeError (field @ '' must be a boolean'')))"

definition assertAllowedPublicLaunchKeys :: "jsval \<Rightarrow> string list \<Rightarrow> string \<Rightarrow> unit res" where
  "assertAllowedPublicLaunchKeys r allowed field =
     (case filter (\<lambda>k. k \<notin> set allowed) (keys_of r) of
        [] \<Rightarrow> Inr ()
      | key # _ \<Rightarrow> Inl (TypeError (''unknown '' @ field @ '' field: '' @ key)))"

section \<open>Arrays\<close>

text \<open>\<open>Array.prototype.map\<close> leaves the holes of a sparse array in place.\<close>

definition at_index :: "string \<Rightarrow> nat \<Rightarrow> string" where
  "at_index field i = field @ ''['' @ nat_to_string i @ '']''"

definition array_map :: "(string \<Rightarrow> jsval \<Rightarrow> jsval res) \<Rightarrow> string \<Rightarrow> jsval list \<Rightarrow> jsval list res" where
  "array_map f field xs = mapiE 0 (\<lambda>i x. if x = JHole then Inr JHole else f (at_index field i) x) xs"

text \<open>The map with a \<open>seen\<close> set that rejects a repeated result.\<close>

fun unique_map ::
  "(jsval \<Rightarrow> string \<Rightarrow> string res) \<Rightarrow> string \<Rightarrow> string \<Rightarrow> nat \<Rightarrow> string list \<Rightarrow> jsval list \<Rightarrow> jsval list res" where
  "unique_map f field what i seen [] = Inr []"
| "unique_map f field what i seen (x # xs) =
     (if x = JHole then emap (\<lambda>ys. JHole # ys) (unique_map f field what (Suc i) seen xs)
      else ebind (f x (at_index field i)) (\<lambda>s.
        if s \<in> set seen then Inl (TypeError (field @ '' must not contain duplicate '' @ what))
        else emap (\<lambda>ys. JStr s # ys) (unique_map f field what (Suc i) (set_add s seen) xs)))"

definition normalizePublicLaunchRefArray :: "jsval \<Rightarrow> string \<Rightarrow> jsval res" where
  "normalizePublicLaunchRefArray v field =
     (case v of
        JArr xs \<Rightarrow> emap JArr (unique_map normalizePublicLaunchRef field ''refs'' 0 [] xs)
      | _ \<Rightarrow> Inl (TypeError (field @ '' must be an array'')))"

definition normalizePublicLaunchIssueCodes :: "jsval \<Rightarrow> string \<Rightarrow> jsval res" where
  "normalizePublicLaunchIssueCodes v field =
     (case v of
        JArr xs \<Rightarrow> emap JArr (unique_map normalizePublicLaunchId field ''issue codes'' 0 [] xs)
      | _ \<Rightarrow> Inl (TypeError (field @ '' must be an array'')))"

section \<open>Objects\<close>

text \<open>
  An object literal whose fields are computed left to right, each from the snake-case or camel-case
  property of the source, followed by the public-safe check.
\<close>

type_synonym field_rule = "string \<times> string list \<times> (jsval \<Rightarrow> string \<Rightarrow> jsval res)"

definition str_rule :: "(jsval \<Rightarrow> string \<Rightarrow> string res) \<Rightarrow> jsval \<Rightarrow> string \<Rightarrow> jsval res" where
  "str_rule f v field = emap JStr (f v field)"

definition build_fields :: "string \<Rightarrow> field_rule list \<Rightarrow> jsval \<Rightarrow> jsval res" where
  "build_fields at rules r =
     emap JObj (mapE (\<lambda>(name, keys, f). emap (\<lambda>v. (name, v)) (f (pick r keys) (at @ name))) rules)"

definition normalize_object :: "string \<Rightarrow> string list \<Rightarrow> string \<Rightarrow> field_rule list \<Rightarrow> jsval \<Rightarrow> jsval res" where
  "normalize_object what allowed at rules r =
     (if \<not> isPlainRecord r then Inl (TypeError (what @ '' must be an object''))
      else ebind (assertAllowedPublicLaunchKeys r allowed what) (\<lambda>_.
        ebind (build_fields at rules r) (\<lambda>normalized. assertPublicSafeFields normalized (JObj []))))"

definition review_rules :: "field_rule list" where
  "review_rules =
     [(''status'', [''status''], str_rule normalizePublicLaunchStatus),
      (''reviewer_ref'', [''reviewer_ref'', ''reviewerRef''], str_rule normalizePublicLaunchRef),
      (''evidence_ref_count'', [''evidence_ref_count'', ''evidenceRefCount''], requiredInteger),
      (''issue_codes'', [''issue_codes'', ''issueCodes''], normalizePublicLaunchIssueCodes)]"

definition normalizePublicLaunchReview :: "jsval \<Rightarrow> string \<Rightarrow> jsval res" where
  "normalizePublicLaunchReview review field =
     normalize_object field PUBLIC_LAUNCH_REVIEW_FIELDS (field @ ''.'') review_rules review"

definition entry_rules :: "field_rule list" where
  "entry_rules =
     [(''phase_id'', [''phase_id'', ''phaseId''], str_rule normalizePublicLaunchId),
      (''scenario_id'', [''scenario_id'', ''scenarioId''], str_rule normalizePublicLaunchId),
      (''owner_ref'', [''owner_ref'', ''ownerRef''], str_rule normalizePublicLaunchRef),
      (''status'', [''status''], str_rule normalizePublicLaunchStatus),
      (''advisor_decision'', [''advisor_decision'', ''advisorDecision''], str_rule normalizePublicLaunchAdvisorDecision),
      (''evidence_refs'', [''evidence_refs'', ''evidenceRefs''], normalizePublicLaunchRefArray),
      (''privacy_review'', [''privacy_review'', ''privacyReview''], normalizePublicLaunchReview),
      (''claim_review'', [''claim_review'', ''claimReview''], normalizePublicLaunchReview),
      (''rollback_ready'', [''rollback_ready'', ''rollbackReady''], requiredBoolean),
      (''support_owner_ref'', [''support_owner_ref'', ''supportOwnerRef''], str_rule normalizePublicLaunchRef),
      (''release_owner_ref'', [''release_owner_ref'', ''releaseOwnerRef''], str_rule normalizePublicLaunchRef),
      (''signing_owner_ref'', [''signing_owner_ref'', ''signingOwnerRef''], str_rule normalizePublicLaunchRef),
      (''updated_at'', [''updated_at'', ''updatedAt''], str_rule normalizePublicLaunchDateTime),
      (''issue_codes'', [''issue_codes'', ''issueCodes''], normalizePublicLaunchIssueCodes)]"

definition normalizePublicLaunchEntry :: "string \<Rightarrow> jsval \<Rightarrow> jsval res" where
  "normalizePublicLaunchEntry field entry =
     normalize_object field PUBLIC_LAUNCH_ENTRY_FIELDS (field @ ''.'') entry_rules entry"

definition normalizePublicLaunchEntries :: "jsval \<Rightarrow> jsval list res" where
  "normalizePublicLaunchEntries entries =
     (case entries of
        JArr xs \<Rightarrow> array_map normalizePublicLaunchEntry ''entries'' xs
      | _ \<Rightarrow> Inl (TypeError ''public launch evidence entries must be an array''))"

definition owner_rules :: "field_rule list" where
  "owner_rules =
     [(''phase_id'', [''phase_id'', ''phaseId''], str_rule normalizePublicLaunchId),
      (''owner_ref'', [''owner_ref'', ''ownerRef''], str_rule normalizePublicLaunchRef),
      (''support_owner_ref'', [''support_owner_ref'', ''supportOwnerRef''], str_rule normalizePublicLaunchRef),
      (''release_owner_ref'', [''release_owner_ref'', ''releaseOwnerRef''], str_rule normalizePublicLaunchRef),
      (''signing_owner_ref'', [''signing_owner_ref'', ''signingOwnerRef''], str_rule normalizePublicLaunchRef)]"

definition normalize_owner :: "string \<Rightarrow> jsval \<Rightarrow> jsval res" where
  "normalize_owner field owner =
     normalize_object field PUBLIC_LAUNCH_PHASE_OWNER_FIELDS (field @ ''.'') owner_rules owner"

fun assert_unique :: "string \<Rightarrow> string list \<Rightarrow> jsval list \<Rightarrow> unit res" where
  "assert_unique field seen [] = Inr ()"
| "assert_unique field seen (v # vs) =
     ebind (canonicalize (element v)) (\<lambda>key.
       if key \<in> set seen then Inl (TypeError (field @ '' must not contain duplicates''))
       else assert_unique field (set_add key seen) vs)"

definition assertUniqueCanonicalPublicLaunchValues :: "jsval list \<Rightarrow> string \<Rightarrow> unit res" where
  "assertUniqueCanonicalPublicLaunchValues vs field = assert_unique field [] vs"

definition normalizePublicLaunchPhaseOwners :: "jsval \<Rightarrow> jsval res" where
  "normalizePublicLaunchPhaseOwners phaseOwners =
     (case phaseOwners of
        JArr xs \<Rightarrow>
          if xs = [] then Inl (TypeError ''phase_owners must not be empty'')
          else ebind (array_map normalize_owner ''phase_owners'' xs) (\<lambda>owners.
            emap (\<lambda>_. JArr owners) (assertUniqueCanonicalPublicLaunchValues owners ''phase_owners''))
      | _ \<Rightarrow> Inl (TypeError ''phase_owners must be an array''))"

definition boundary_rules :: "field_rule list" where
  "boundary_rules =
     [(''version_ref'', [''version_ref'', ''versionRef''], str_rule normalizePublicLaunchRef),
      (''allowed_claim_refs'', [''allowed_claim_refs'', ''allowedClaimRefs''], normalizePublicLaunchRefArray),
      (''disallowed_claim_refs'', [''disallowed_claim_refs'', ''disallowedClaimRefs''], normalizePublicLaunchRefArray)]"

definition normalizePublicLaunchClaimBoundary :: "jsval \<Rightarrow> jsval res" where
  "normalizePublicLaunchClaimBoundary boundary =
     normalize_object ''claim_boundary'' PUBLIC_LAUNCH_CLAIM_BOUNDARY_FIELDS ''claim_boundary.'' boundary_rules boundary"

section \<open>Summary\<close>

type_synonym counts = "(string \<times> nat) list"

definition publicLaunchStatusCounts :: counts where
  "publicLaunchStatusCounts = [(''missing'', 0), (''pending'', 0), (''pass'', 0), (''fail'', 0), (''blocked'', 0)]"

definition publicLaunchAdvisorDecisionCounts :: counts where
  "publicLaunchAdvisorDecisionCounts = [(''ship'', 0), (''hold'', 0), (''rollback'', 0), (''not_reviewed'', 0)]"

text \<open>\<open>counts[k] += 1\<close> for a key that is present.\<close>

definition increment :: "string \<Rightarrow> counts \<Rightarrow> counts" where
  "increment k cs = map (\<lambda>(k', n). if k' = k then (k', Suc n) else (k', n)) cs"

definition count_of :: "counts \<Rightarrow> string \<Rightarrow> nat" where
  "count_of cs k = (case map_of cs k of None \<Rightarrow> 0 | Some n \<Rightarrow> n)"

text \<open>\<open>issueCounts.set(c, (issueCounts.get(c) ?? 0) + 1)\<close>.\<close>

definition add_issue :: "string \<Rightarrow> (string, nat) jmap \<Rightarrow> (string, nat) jmap" where
  "add_issue c m = jm_set c (Suc (case jm_get m c of None \<Rightarrow> 0 | Some n \<Rightarrow> n)) m"

record launch_summary =
  sm_status :: counts
  sm_advisor :: counts
  sm_privacy :: counts
  sm_claim :: counts
  sm_rollback :: nat
  sm_issues :: "(string, nat) jmap"

definition summary_start :: launch_summary where
  "summary_start = \<lparr>sm_status = publicLaunchStatusCounts, sm_advisor = publicLaunchAdvisorDecisionCounts,
     sm_privacy = publicLaunchStatusCounts, sm_claim = publicLaunchStatusCounts, sm_rollback = 0, sm_issues = []\<rparr>"

definition codes_of :: "jsval \<Rightarrow> string list" where
  "codes_of v = map (\<lambda>x. js_String (element x)) (elems (getp v ''issue_codes''))"

definition str_field :: "jsval \<Rightarrow> string \<Rightarrow> string" where
  "str_field v k = js_String (getp v k)"

definition summary_step :: "launch_summary \<Rightarrow> jsval \<Rightarrow> launch_summary" where
  "summary_step s entry =
     s\<lparr>sm_status := increment (str_field entry ''status'') (sm_status s),
       sm_advisor := increment (str_field entry ''advisor_decision'') (sm_advisor s),
       sm_privacy := increment (str_field (getp entry ''privacy_review'') ''status'') (sm_privacy s),
       sm_claim := increment (str_field (getp entry ''claim_review'') ''status'') (sm_claim s),
       sm_rollback := (if getp entry ''rollback_ready'' = JBool True then Suc (sm_rollback s) else sm_rollback s),
       sm_issues := fold add_issue (codes_of entry @ codes_of (getp entry ''privacy_review'')
                      @ codes_of (getp entry ''claim_review'')) (sm_issues s)\<rparr>"

definition derivePublicLaunchAdvisorDecision :: "jsval list \<Rightarrow> counts \<Rightarrow> counts \<Rightarrow> string" where
  "derivePublicLaunchAdvisorDecision entries statusCounts advisorDecisionCounts =
     (if entries = [] then ''not_reviewed''
      else if count_of statusCounts ''fail'' > 0 \<or> count_of statusCounts ''blocked'' > 0
              \<or> count_of statusCounts ''missing'' > 0 \<or> count_of advisorDecisionCounts ''hold'' > 0 then ''hold''
      else if count_of advisorDecisionCounts ''rollback'' > 0 then ''rollback''
      else if count_of statusCounts ''pending'' > 0 \<or> count_of advisorDecisionCounts ''not_reviewed'' > 0 then ''not_reviewed''
      else ''ship'')"

definition counts_obj :: "counts \<Rightarrow> jsval" where
  "counts_obj cs = JObj (map (\<lambda>(k, n). (k, JInt (int n))) cs)"

definition summary_obj :: "jsval list \<Rightarrow> launch_summary \<Rightarrow> jsval" where
  "summary_obj entries s = JObj
     [(''total_entries'', JInt (int (length entries))),
      (''status_counts'', counts_obj (sm_status s)),
      (''advisor_decision_counts'', counts_obj (sm_advisor s)),
      (''privacy_review_counts'', counts_obj (sm_privacy s)),
      (''claim_review_counts'', counts_obj (sm_claim s)),
      (''rollback_ready_count'', JInt (int (sm_rollback s))),
      (''issue_code_counts'', JArr (map (\<lambda>(c, n). JObj [(''issue_code'', JStr c), (''count'', JInt (int n))])
         (sort_key fst (sm_issues s)))),
      (''advisor_decision'', JStr (derivePublicLaunchAdvisorDecision entries (sm_status s) (sm_advisor s)))]"

text \<open>A hole in the array reads as \<open>undefined\<close>, on which the loop's first property access throws.\<close>

definition summarizePublicLaunchEvidence :: "jsval \<Rightarrow> jsval res" where
  "summarizePublicLaunchEvidence entries =
     ebind (normalizePublicLaunchEntries entries) (\<lambda>es.
       emap (summary_obj es)
         (foldE (\<lambda>s e. emap (\<lambda>_. summary_step s e) (getE (element e) ''status'')) summary_start es))"

section \<open>Ledger\<close>

definition createPublicLaunchEvidenceLedger :: "jsval \<Rightarrow> jsval res" where
  "createPublicLaunchEvidenceLedger args =
     (if \<not> isPlainRecord args then Inl (TypeError ''public launch evidence ledger must be an object'')
      else
       ebind (assertAllowedPublicLaunchKeys args PUBLIC_LAUNCH_LEDGER_FIELDS ''public launch evidence ledger'') (\<lambda>_.
       if getp args ''schema'' \<noteq> JUndef \<and> getp args ''schema'' \<noteq> JStr PUBLIC_LAUNCH_EVIDENCE_LEDGER_SCHEMA
       then Inl (TypeError ''public launch evidence ledger schema mismatch'')
       else
       ebind (normalizePublicLaunchEntries (coals args [''entries''] (JArr []))) (\<lambda>entries.
       ebind (summarizePublicLaunchEvidence (JArr entries)) (\<lambda>summary.
       ebind (if getp args ''summary'' = JUndef then Inr ()
              else ebind (assertPublicSafeFields (getp args ''summary'') (JObj [])) (\<lambda>_.
                   ebind (canonicalize (getp args ''summary'')) (\<lambda>given.
                   ebind (canonicalize summary) (\<lambda>computed.
                   if given \<noteq> computed then Inl (TypeError ''public launch evidence ledger summary mismatch'')
                   else Inr ())))) (\<lambda>_.
       ebind (normalizePublicLaunchId (pick args [''ledger_id'', ''ledgerId'']) ''ledger_id'') (\<lambda>ledger_id.
       ebind (normalizePublicLaunchDateTime (pick args [''generated_at'', ''generatedAt'']) ''generated_at'') (\<lambda>generated_at.
       ebind (normalizePublicLaunchPhaseOwners (pick args [''phase_owners'', ''phaseOwners''])) (\<lambda>phase_owners.
       ebind (normalizePublicLaunchClaimBoundary (pick args [''claim_boundary'', ''claimBoundary''])) (\<lambda>claim_boundary.
       ebind (normalizePublicLaunchRefArray
                (coals args [''privacy_export_allowlist'', ''privacyExportAllowlist''] (JArr []))
                ''privacy_export_allowlist'') (\<lambda>allowlist.
       assertPublicSafeFields (JObj
         [(''schema'', JStr PUBLIC_LAUNCH_EVIDENCE_LEDGER_SCHEMA), (''ledger_id'', JStr ledger_id),
          (''generated_at'', JStr generated_at), (''phase_owners'', phase_owners),
          (''claim_boundary'', claim_boundary), (''privacy_export_allowlist'', allowlist),
          (''entries'', JArr entries), (''summary'', summary)]) (JObj [])))))))))))"

definition addPublicLaunchEvidenceEntry :: "jsval \<Rightarrow> jsval \<Rightarrow> jsval res" where
  "addPublicLaunchEvidenceEntry ledger entry =
     (if \<not> isPlainRecord ledger then Inl (TypeError ''public launch evidence ledger must be an object'')
      else
       ebind (assertAllowedPublicLaunchKeys ledger PUBLIC_LAUNCH_LEDGER_FIELDS ''public launch evidence ledger'') (\<lambda>_.
       ebind (assertPublicSafeFields ledger (JObj [])) (\<lambda>_.
       createPublicLaunchEvidenceLedger (JObj
         [(''schema'', getp ledger ''schema''), (''ledger_id'', getp ledger ''ledger_id''),
          (''generated_at'', getp ledger ''generated_at''), (''phase_owners'', getp ledger ''phase_owners''),
          (''claim_boundary'', getp ledger ''claim_boundary''),
          (''privacy_export_allowlist'', getp ledger ''privacy_export_allowlist''),
          (''entries'', JArr (map element (elems (getp ledger ''entries'')) @ [entry]))]))))"

section \<open>Normalisation is idempotent\<close>

definition idem :: "(jsval \<Rightarrow> string \<Rightarrow> jsval res) \<Rightarrow> bool" where
  "idem f = (\<forall>v field w. f v field = Inr w \<longrightarrow> \<not> nullish w \<and> (\<forall>field'. f w field' = Inr w))"

lemma idemD: "idem f \<Longrightarrow> f v field = Inr w \<Longrightarrow> \<not> nullish w \<and> f w field' = Inr w"
  by (auto simp: idem_def)

lemma requiredString_JStr [simp]: "requiredString (JStr s) f = (if s = [] then Inl (TypeError (f @ '' is required'')) else Inr s)"
  by (simp add: requiredString_def)

lemma safe_value_Inr: "safe_value s = Inr t \<longleftrightarrow> t = s \<and> safe_value s = Inr s"
  by (auto simp: safe_value_def res_simps)

lemma idem_text:
  assumes "\<And>v field s. f v field = Inr s \<Longrightarrow> v = JStr s"
    and "\<And>s field field'. f (JStr s) field = Inr s \<Longrightarrow> f (JStr s) field' = Inr s"
  shows "idem (str_rule f)"
  unfolding idem_def str_rule_def
proof (intro allI impI conjI)
  fix v field w field'
  assume "emap JStr (f v field) = Inr w"
  then obtain s where s: "f v field = Inr s" "w = JStr s" by (auto simp: res_simps)
  with assms(1) [OF s(1)] assms(2) [of s field field']
  show "\<not> nullish w" "emap JStr (f w field') = Inr w" by simp_all
qed

lemma idem_id: "idem (str_rule normalizePublicLaunchId)"
  by (rule idem_text) (auto simp: normalizePublicLaunchId_def res_simps requiredString_Inr safe_value_def split: if_splits)

lemma idem_ref: "idem (str_rule normalizePublicLaunchRef)"
  by (rule idem_text) (auto simp: normalizePublicLaunchRef_def res_simps requiredString_Inr safe_value_def split: if_splits)

lemma idem_datetime: "idem (str_rule normalizePublicLaunchDateTime)"
  by (rule idem_text) (auto simp: normalizePublicLaunchDateTime_def res_simps requiredString_Inr split: if_splits)

lemma idem_status: "idem (str_rule normalizePublicLaunchStatus)"
  by (rule idem_text) (auto simp: normalizePublicLaunchStatus_def res_simps requiredString_Inr split: if_splits)

lemma idem_decision: "idem (str_rule normalizePublicLaunchAdvisorDecision)"
  by (rule idem_text) (auto simp: normalizePublicLaunchAdvisorDecision_def res_simps requiredString_Inr split: if_splits)

lemma idem_boolean: "idem requiredBoolean"
  by (simp add: idem_def requiredBoolean_def split: jsval.split)

lemma idem_integer: "idem requiredInteger"
  by (auto simp: idem_def requiredInteger_Inr nullish_iff as_count_def as_int_def)

lemma unique_map_idem:
  assumes "idem (str_rule f)"
  shows "unique_map f field what i seen xs = Inr ys \<Longrightarrow> unique_map f field' what i' seen ys = Inr ys"
proof (induction xs arbitrary: i i' seen ys)
  case (Cons x xs)
  show ?case
  proof (cases "x = JHole")
    case True
    with Cons show ?thesis by (auto simp: res_simps)
  next
    case False
    with Cons.prems obtain s zs where s: "f x (at_index field i) = Inr s" "s \<notin> set seen"
      and zs: "unique_map f field what (Suc i) (set_add s seen) xs = Inr zs" "ys = JStr s # zs"
      by (auto simp: res_simps)
    have "str_rule f x (at_index field i) = Inr (JStr s)" by (simp add: str_rule_def s)
    from idemD [OF assms this, of "at_index field' i'"] have "f (JStr s) (at_index field' i') = Inr s"
      by (auto simp: str_rule_def res_simps)
    with s(2) zs(2) Cons.IH [OF zs(1), of "Suc i'"] show ?thesis by simp
  qed
qed simp

lemma idem_arrays: "idem normalizePublicLaunchRefArray" "idem normalizePublicLaunchIssueCodes"
  using unique_map_idem [OF idem_ref] unique_map_idem [OF idem_id]
  by (auto simp: idem_def normalizePublicLaunchRefArray_def normalizePublicLaunchIssueCodes_def res_simps split: jsval.splits)

definition rules_ok :: "string list \<Rightarrow> field_rule list \<Rightarrow> bool" where
  "rules_ok allowed rules =
     (distinct (map fst rules) \<and> (\<forall>(name, keys, f) \<in> set rules. name \<in> set allowed \<and> keys \<noteq> [] \<and> hd keys = name \<and> idem f))"

lemma pick_hd: "keys \<noteq> [] \<Longrightarrow> \<not> nullish (getp v (hd keys)) \<Longrightarrow> pick v keys = getp v (hd keys)"
  by (cases "(v, keys)" rule: pick.cases) (auto simp: coal_def)

definition rule_rel :: "string \<Rightarrow> jsval \<Rightarrow> field_rule \<Rightarrow> string \<times> jsval \<Rightarrow> bool" where
  "rule_rel at r = (\<lambda>(name, keys, f) p. fst p = name \<and> f (pick r keys) (at @ name) = Inr (snd p))"

lemma rule_rel_iff:
  "(case x of (name, keys, f) \<Rightarrow> emap (\<lambda>v. (name, v)) (f (pick r keys) (at @ name))) = Inr y \<longleftrightarrow> rule_rel at r x y"
  by (cases x; cases y) (auto simp: rule_rel_def res_simps)

lemma build_fields_Inr:
  "build_fields at rules r = Inr w \<longleftrightarrow> (\<exists>ps. w = JObj ps \<and> list_all2 (rule_rel at r) rules ps)"
  unfolding build_fields_def emap_Inr_iff mapE_Inr_iff rule_rel_iff by auto

lemma build_fields_idem:
  assumes "rules_ok allowed rules" "build_fields at rules r = Inr w"
  shows "build_fields at' rules w = Inr w" "keys_of w = map fst rules"
proof -
  from assms(2) obtain ps where w: "w = JObj ps"
    and ps: "list_all2 (rule_rel at r) rules ps"
    by (auto simp: build_fields_Inr)
  have keys: "map fst ps = map fst rules" using ps by (induction rule: list_all2_induct) (auto simp: rule_rel_def)
  then show "keys_of w = map fst rules" by (simp add: w keys_of_def)
  have d: "distinct (map fst ps)" using keys assms(1) by (simp add: rules_ok_def)
  have "list_all2 (rule_rel at' w) rules ps"
    using ps
  proof (rule list.rel_mono_strong)
    fix rule p
    assume "rule \<in> set rules" "p \<in> set ps"
      and *: "rule_rel at r rule p"
    obtain name ks f where rule: "rule = (name, ks, f)" by (cases rule)
    have "idem f" "ks \<noteq> []" "hd ks = name"
      using assms(1) \<open>rule \<in> set rules\<close> by (auto simp: rules_ok_def rule)
    moreover have "getp w name = snd p"
      using * \<open>p \<in> set ps\<close> d by (cases p) (auto simp: w rule rule_rel_def obj_get_def map_of_is_SomeI)
    ultimately show "rule_rel at' w rule p"
      using * idemD [of f "pick r ks" "at @ name" "snd p" "at' @ name"] by (simp add: rule rule_rel_def pick_hd)
  qed
  then show "build_fields at' rules w = Inr w" by (auto simp: build_fields_Inr w)
qed

lemma normalize_object_idem:
  assumes "rules_ok allowed rules" "normalize_object what allowed at rules r = Inr w"
  shows "normalize_object what' allowed at' rules w = Inr w" "isPlainRecord w"
proof -
  from assms(2) have w: "build_fields at rules r = Inr w" "public_safe False w"
    by (auto simp: normalize_object_def res_simps assertPublicSafeFields_Inr strict_of_def split: if_splits)
  from build_fields_idem [OF assms(1) w(1)] have b: "build_fields at' rules w = Inr w" "keys_of w = map fst rules"
    by blast+
  show "isPlainRecord w" using w(1) by (auto simp: build_fields_Inr isPlainRecord_def)
  moreover have "filter (\<lambda>k. k \<notin> set allowed) (keys_of w) = []"
    using assms(1) by (auto simp: b(2) rules_ok_def filter_empty_conv)
  moreover have "assertPublicSafeFields w (JObj []) = Inr w"
    using w(2) by (simp add: assertPublicSafeFields_Inr strict_of_def)
  ultimately show "normalize_object what' allowed at' rules w = Inr w"
    by (simp add: normalize_object_def assertAllowedPublicLaunchKeys_def b(1))
qed

lemmas idem_rules = idem_id idem_ref idem_datetime idem_status idem_decision idem_boolean idem_integer idem_arrays

lemma rules_ok_review: "rules_ok PUBLIC_LAUNCH_REVIEW_FIELDS review_rules"
  by (simp add: rules_ok_def review_rules_def PUBLIC_LAUNCH_REVIEW_FIELDS_def idem_rules)

lemma not_nullish_record: "isPlainRecord w \<Longrightarrow> \<not> nullish w"
  by (auto simp: isPlainRecord_def nullish_iff)

lemma idem_review: "idem normalizePublicLaunchReview"
  unfolding idem_def normalizePublicLaunchReview_def
  using normalize_object_idem [OF rules_ok_review] not_nullish_record by blast

lemma rules_ok_entry: "rules_ok PUBLIC_LAUNCH_ENTRY_FIELDS entry_rules"
  by (simp add: rules_ok_def entry_rules_def PUBLIC_LAUNCH_ENTRY_FIELDS_def idem_rules idem_review)

lemma rules_ok_owner: "rules_ok PUBLIC_LAUNCH_PHASE_OWNER_FIELDS owner_rules"
  by (simp add: rules_ok_def owner_rules_def PUBLIC_LAUNCH_PHASE_OWNER_FIELDS_def idem_rules)

lemma rules_ok_boundary: "rules_ok PUBLIC_LAUNCH_CLAIM_BOUNDARY_FIELDS boundary_rules"
  by (simp add: rules_ok_def boundary_rules_def PUBLIC_LAUNCH_CLAIM_BOUNDARY_FIELDS_def idem_rules)

lemma entry_idem: "normalizePublicLaunchEntry field e = Inr w \<Longrightarrow> normalizePublicLaunchEntry field' w = Inr w \<and> isPlainRecord w"
  unfolding normalizePublicLaunchEntry_def using normalize_object_idem [OF rules_ok_entry] by blast

lemma owner_idem: "normalize_owner field e = Inr w \<Longrightarrow> normalize_owner field' w = Inr w \<and> isPlainRecord w"
  unfolding normalize_owner_def using normalize_object_idem [OF rules_ok_owner] by blast

lemma array_map_idem:
  assumes "\<And>field e w field'. f field e = Inr w \<Longrightarrow> f field' w = Inr w" "array_map f field xs = Inr ys"
  shows "array_map f field' ys = Inr ys"
  using assms(2) unfolding array_map_def mapiE_Inr_iff
  by (auto split: if_splits) (metis assms(1))

lemma entries_idem:
  "normalizePublicLaunchEntries es = Inr ys \<Longrightarrow> normalizePublicLaunchEntries (JArr ys) = Inr ys"
  using array_map_idem [of normalizePublicLaunchEntry ] entry_idem
  by (auto simp: normalizePublicLaunchEntries_def split: jsval.splits)

lemma owners_idem:
  "normalizePublicLaunchPhaseOwners v = Inr w \<Longrightarrow> normalizePublicLaunchPhaseOwners w = Inr w \<and> (\<exists>ys. w = JArr ys)"
  using array_map_idem [of normalize_owner] owner_idem
  by (auto simp: normalizePublicLaunchPhaseOwners_def res_simps array_map_def split: jsval.splits if_splits)

lemma boundary_idem:
  "normalizePublicLaunchClaimBoundary v = Inr w \<Longrightarrow> normalizePublicLaunchClaimBoundary w = Inr w \<and> isPlainRecord w"
  unfolding normalizePublicLaunchClaimBoundary_def using normalize_object_idem [OF rules_ok_boundary] by blast

lemma summarize_normalized:
  "normalizePublicLaunchEntries es = Inr ys \<Longrightarrow>
     summarizePublicLaunchEvidence (JArr ys) = summarizePublicLaunchEvidence es"
  by (simp add: summarizePublicLaunchEvidence_def entries_idem)

lemma summary_json: "summarizePublicLaunchEvidence es = Inr s \<Longrightarrow> \<exists>c. canonicalize s = Inr c"
proof -
  have counts: "is_ok (canonicalize (counts_obj cs))" for cs
    by (simp add: counts_obj_def canonicalize_def is_ok_ebind_total is_ok_mapE case_prod_unfold is_finite_def)
  have "is_ok (canonicalize (summary_obj ys t))" for ys t
    using counts
    by (simp add: summary_obj_def canonicalize_def is_ok_ebind_total is_ok_mapE case_prod_unfold is_finite_def)
  then show "summarizePublicLaunchEvidence es = Inr s \<Longrightarrow> \<exists>c. canonicalize s = Inr c"
    by (auto simp: summarizePublicLaunchEvidence_def res_simps is_ok_iff)
qed

section \<open>Ledgers\<close>

lemma assert_safe: "public_safe False v \<Longrightarrow> assertPublicSafeFields v (JObj []) = Inr v"
  by (simp add: assertPublicSafeFields_Inr strict_of_def)

lemma createPublicLaunchEvidenceLedger_Inr:
  assumes "createPublicLaunchEvidenceLedger a = Inr l"
  obtains es s i d owners cb al where
    "normalizePublicLaunchEntries (coals a [''entries''] (JArr [])) = Inr es"
    "summarizePublicLaunchEvidence (JArr es) = Inr s"
    "normalizePublicLaunchId (pick a [''ledger_id'', ''ledgerId'']) ''ledger_id'' = Inr i"
    "normalizePublicLaunchDateTime (pick a [''generated_at'', ''generatedAt'']) ''generated_at'' = Inr d"
    "normalizePublicLaunchPhaseOwners (pick a [''phase_owners'', ''phaseOwners'']) = Inr owners"
    "normalizePublicLaunchClaimBoundary (pick a [''claim_boundary'', ''claimBoundary'']) = Inr cb"
    "normalizePublicLaunchRefArray (coals a [''privacy_export_allowlist'', ''privacyExportAllowlist''] (JArr []))
       ''privacy_export_allowlist'' = Inr al"
    "l = JObj [(''schema'', JStr PUBLIC_LAUNCH_EVIDENCE_LEDGER_SCHEMA), (''ledger_id'', JStr i),
          (''generated_at'', JStr d), (''phase_owners'', owners), (''claim_boundary'', cb),
          (''privacy_export_allowlist'', al), (''entries'', JArr es), (''summary'', s)]"
    "public_safe False l"
  using assms unfolding createPublicLaunchEvidenceLedger_def
  by (auto simp: res_simps assertPublicSafeFields_Inr strict_of_def split: if_splits)

lemma ledger_idem:
  assumes "createPublicLaunchEvidenceLedger a = Inr l"
  shows "createPublicLaunchEvidenceLedger l = Inr l"
proof -
  obtain es s i d owners cb al where parts:
    "normalizePublicLaunchEntries (coals a [''entries''] (JArr [])) = Inr es"
    "summarizePublicLaunchEvidence (JArr es) = Inr s"
    "normalizePublicLaunchId (pick a [''ledger_id'', ''ledgerId'']) ''ledger_id'' = Inr i"
    "normalizePublicLaunchDateTime (pick a [''generated_at'', ''generatedAt'']) ''generated_at'' = Inr d"
    "normalizePublicLaunchPhaseOwners (pick a [''phase_owners'', ''phaseOwners'']) = Inr owners"
    "normalizePublicLaunchClaimBoundary (pick a [''claim_boundary'', ''claimBoundary'']) = Inr cb"
    "normalizePublicLaunchRefArray (coals a [''privacy_export_allowlist'', ''privacyExportAllowlist''] (JArr []))
       ''privacy_export_allowlist'' = Inr al"
    and l: "l = JObj [(''schema'', JStr PUBLIC_LAUNCH_EVIDENCE_LEDGER_SCHEMA), (''ledger_id'', JStr i),
          (''generated_at'', JStr d), (''phase_owners'', owners), (''claim_boundary'', cb),
          (''privacy_export_allowlist'', al), (''entries'', JArr es), (''summary'', s)]"
    and safe: "public_safe False l"
    using assms by (rule createPublicLaunchEvidenceLedger_Inr)
  obtain c where c: "canonicalize s = Inr c" using summary_json [OF parts(2)] by blast
  have i: "normalizePublicLaunchId (JStr i) ''ledger_id'' = Inr i"
    using idemD [OF idem_id, of "pick a [''ledger_id'', ''ledgerId'']" "''ledger_id''" "JStr i" "''ledger_id''"] parts(3)
    by (simp add: str_rule_def res_simps)
  have d: "normalizePublicLaunchDateTime (JStr d) ''generated_at'' = Inr d"
    using idemD [OF idem_datetime, of "pick a [''generated_at'', ''generatedAt'']" "''generated_at''" "JStr d" "''generated_at''"] parts(4)
    by (simp add: str_rule_def res_simps)
  have al: "\<not> nullish al" "normalizePublicLaunchRefArray al ''privacy_export_allowlist'' = Inr al"
    using idemD [OF idem_arrays(1) parts(7)] by blast+
  have "\<not> nullish owners" "\<not> nullish cb" "normalizePublicLaunchPhaseOwners owners = Inr owners"
    "normalizePublicLaunchClaimBoundary cb = Inr cb"
    using owners_idem [OF parts(5)] boundary_idem [OF parts(6)] not_nullish_record by auto
  moreover have "s \<noteq> JUndef" using parts(2) by (auto simp: summarizePublicLaunchEvidence_def res_simps summary_obj_def)
  moreover have "assertPublicSafeFields s (JObj []) = Inr s" by (rule assert_safe) (use safe in \<open>simp add: l\<close>)
  ultimately show ?thesis
    using entries_idem [OF parts(1)] parts(2) i d al c assert_safe [OF safe]
    by (simp add: createPublicLaunchEvidenceLedger_def l isPlainRecord_def assertAllowedPublicLaunchKeys_def keys_of_def
        PUBLIC_LAUNCH_LEDGER_FIELDS_def obj_get_Cons coal_def)
qed

text \<open>
  C34. Creating a ledger is idempotent, errors included: feeding a created ledger back, with its
  entries, owners, boundary and summary, gives the same ledger, so a published ledger can be
  re-validated by the function that made it.
\<close>

theorem createPublicLaunchEvidenceLedger_idempotent:
  "ebind (createPublicLaunchEvidenceLedger a) createPublicLaunchEvidenceLedger = createPublicLaunchEvidenceLedger a"
  by (cases "createPublicLaunchEvidenceLedger a") (simp_all add: ledger_idem)

section \<open>Counts\<close>

lemma keys_increment [simp]: "map fst (increment k cs) = map fst cs"
  by (induction cs) (auto simp: increment_def)

lemma count_of_increment:
  "count_of (increment k cs) k' = count_of cs k' + (if k' = k \<and> k \<in> fst ` set cs then 1 else 0)"
proof (induction cs)
  case (Cons p cs)
  obtain a n where p: "p = (a, n)" by (cases p)
  have step: "count_of ((a, n) # cs) k = (if k = a then n else count_of cs k)" for n cs k by (simp add: count_of_def)
  have inc: "increment k ((a, n) # cs) = (a, if a = k then Suc n else n) # increment k cs" by (simp add: increment_def)
  show ?case unfolding p inc step using Cons by auto
qed (simp add: increment_def)

lemma count_of_fold:
  "k \<in> fst ` set cs \<Longrightarrow>
     count_of (fold (\<lambda>e. increment (f e)) es cs) k = count_of cs k + length (filter (\<lambda>e. f e = k) es)"
proof (induction es arbitrary: cs)
  case (Cons e es)
  have "fst ` set (increment (f e) cs) = fst ` set cs" by (metis keys_increment list.set_map)
  with Cons show ?case by (auto simp: count_of_increment)
qed simp

lemma fold_summary:
  "sm_status (fold (\<lambda>e s. summary_step s e) es s0) = fold (\<lambda>e. increment (str_field e ''status'')) es (sm_status s0)"
  "sm_advisor (fold (\<lambda>e s. summary_step s e) es s0) = fold (\<lambda>e. increment (str_field e ''advisor_decision'')) es (sm_advisor s0)"
  "sm_issues (fold (\<lambda>e s. summary_step s e) es s0)
     = fold (\<lambda>e. fold add_issue (codes_of e @ codes_of (getp e ''privacy_review'') @ codes_of (getp e ''claim_review''))) es (sm_issues s0)"
  by (induction es arbitrary: s0) (simp_all add: summary_step_def)

lemma foldE_summary:
  "foldE (\<lambda>s e. emap (\<lambda>_. summary_step s e) (getE (element e) ''status'')) s0 es = Inr s
     \<Longrightarrow> s = fold (\<lambda>e s. summary_step s e) es s0 \<and> (\<forall>e \<in> set es. e \<noteq> JHole)"
  by (induction es arbitrary: s0) (auto simp: res_simps getE_def element_def split: if_splits)

definition entry_ok :: "jsval \<Rightarrow> bool" where
  "entry_ok e = (\<exists>s d. getp e ''status'' = JStr s \<and> s \<in> set PUBLIC_LAUNCH_STATUSES
     \<and> getp e ''advisor_decision'' = JStr d \<and> d \<in> set PUBLIC_LAUNCH_ADVISOR_DECISIONS)"

lemma normalized_entry_ok: "normalizePublicLaunchEntry field e = Inr w \<Longrightarrow> entry_ok w"
  by (auto simp: normalizePublicLaunchEntry_def normalize_object_def res_simps assertPublicSafeFields_Inr
      build_fields_Inr entry_rules_def list_all2_Cons1 rule_rel_def str_rule_def entry_ok_def obj_get_Cons
      normalizePublicLaunchStatus_def normalizePublicLaunchAdvisorDecision_def requiredString_Inr split: if_splits)


lemma entries_ok:
  assumes "normalizePublicLaunchEntries es = Inr ys" "\<forall>e \<in> set ys. e \<noteq> JHole" "e \<in> set ys"
  shows "entry_ok e"
proof -
  from assms(1) obtain xs where "mapiE 0 (\<lambda>i x. if x = JHole then Inr JHole
      else normalizePublicLaunchEntry (at_index ''entries'' i) x) xs = Inr ys"
    by (auto simp: normalizePublicLaunchEntries_def array_map_def split: jsval.splits)
  with assms(2,3) show ?thesis
    by (auto simp: mapiE_Inr_iff in_set_conv_nth split: if_splits) (metis normalized_entry_ok nth_mem)
qed

lemma getp_counts_obj: "k \<in> fst ` set cs \<Longrightarrow> getp (counts_obj cs) k = JInt (int (count_of cs k))"
proof -
  have "map_of (map (\<lambda>(k, n). (k, JInt (int n))) cs) k = map_option (\<lambda>n. JInt (int n)) (map_of cs k)"
    by (induction cs) auto
  moreover assume "k \<in> fst ` set cs"
  then have "map_of cs k \<noteq> None" by (simp add: map_of_eq_None_iff)
  ultimately show ?thesis by (auto simp: counts_obj_def obj_get_def count_of_def)
qed

lemma summarize_parts:
  assumes "normalizePublicLaunchEntries es = Inr ys" "summarizePublicLaunchEvidence es = Inr s"
  shows "s = summary_obj ys (fold (\<lambda>e s. summary_step s e) ys summary_start)" "\<forall>e \<in> set ys. e \<noteq> JHole \<and> entry_ok e"
proof -
  from assms obtain t where t: "foldE (\<lambda>s e. emap (\<lambda>_. summary_step s e) (getE (element e) ''status'')) summary_start ys = Inr t"
    "s = summary_obj ys t" by (auto simp: summarizePublicLaunchEvidence_def res_simps)
  from foldE_summary [OF t(1)] t(2) show "s = summary_obj ys (fold (\<lambda>e s. summary_step s e) ys summary_start)" by simp
  from foldE_summary [OF t(1)] entries_ok [OF assms(1)] show "\<forall>e \<in> set ys. e \<noteq> JHole \<and> entry_ok e" by blast
qed

lemma keys_fold_increment: "fst ` set (fold (\<lambda>e. increment (f e)) es cs) = fst ` set cs"
proof (induction es arbitrary: cs)
  case (Cons e es)
  have "fst ` set (increment (f e) cs) = fst ` set cs" by (metis keys_increment list.set_map)
  with Cons show ?case by simp
qed simp

lemma summary_counts:
  assumes "k \<in> set PUBLIC_LAUNCH_STATUSES"
  shows "count_of (sm_status (fold (\<lambda>e s. summary_step s e) ys summary_start)) k
    = length (filter (\<lambda>e. str_field e ''status'' = k) ys)"
  using assms
  by (auto simp: fold_summary summary_start_def PUBLIC_LAUNCH_STATUSES_def publicLaunchStatusCounts_def count_of_fold)
    (simp_all add: count_of_def)

lemma summary_decisions:
  assumes "k \<in> set PUBLIC_LAUNCH_ADVISOR_DECISIONS"
  shows "count_of (sm_advisor (fold (\<lambda>e s. summary_step s e) ys summary_start)) k
    = length (filter (\<lambda>e. str_field e ''advisor_decision'' = k) ys)"
  using assms
  by (auto simp: fold_summary summary_start_def PUBLIC_LAUNCH_ADVISOR_DECISIONS_def publicLaunchAdvisorDecisionCounts_def count_of_fold)
    (simp_all add: count_of_def)

text \<open>
  The summary counts the normalised entries: their total number, and for each status the number
  of entries that have it.
\<close>

theorem summary_status_counts:
  assumes "normalizePublicLaunchEntries es = Inr ys" and "summarizePublicLaunchEvidence es = Inr s"
    and "k \<in> set PUBLIC_LAUNCH_STATUSES"
  shows "getp s ''total_entries'' = JInt (int (length ys))
    \<and> getp (getp s ''status_counts'') k = JInt (int (length (filter (\<lambda>e. getp e ''status'' = JStr k) ys)))"
proof -
  note p = summarize_parts [OF assms(1,2)]
  have "filter (\<lambda>e. getp e ''status'' = JStr k) ys = filter (\<lambda>e. str_field e ''status'' = k) ys"
    using p(2) by (intro filter_cong) (auto simp: entry_ok_def str_field_def)
  moreover have "k \<in> fst ` set (sm_status (fold (\<lambda>e s. summary_step s e) ys summary_start))"
    using assms(3) by (simp add: fold_summary keys_fold_increment summary_start_def publicLaunchStatusCounts_def PUBLIC_LAUNCH_STATUSES_def)
  ultimately show ?thesis
    by (simp add: p(1) summary_obj_def obj_get_Cons getp_counts_obj summary_counts [OF assms(3)])
qed

theorem summary_status_counts_witness:
  "\<exists>s. summarizePublicLaunchEvidence (JArr []) = Inr s \<and> getp s ''total_entries'' = JInt 0
     \<and> getp (getp s ''status_counts'') ''pass'' = JInt 0"
proof -
  have n: "normalizePublicLaunchEntries (JArr []) = Inr []" by (simp add: normalizePublicLaunchEntries_def array_map_def)
  then have "summarizePublicLaunchEvidence (JArr []) = Inr (summary_obj [] summary_start)"
    by (simp add: summarizePublicLaunchEvidence_def)
  with summary_status_counts [OF n this, of "''pass''"] show ?thesis by (simp add: PUBLIC_LAUNCH_STATUSES_def)
qed

text \<open>
  C40. The derived advisor decision is \<open>ship\<close> exactly when there is at least one entry and every entry
  has passed and was itself decided to ship.
\<close>

theorem advisor_decision_ship_iff:
  assumes "normalizePublicLaunchEntries es = Inr ys" and "summarizePublicLaunchEvidence es = Inr s"
  shows "getp s ''advisor_decision'' = JStr ''ship'' \<longleftrightarrow>
    ys \<noteq> [] \<and> (\<forall>e \<in> set ys. getp e ''status'' = JStr ''pass'' \<and> getp e ''advisor_decision'' = JStr ''ship'')"
proof -
  note p = summarize_parts [OF assms]
  let ?t = "fold (\<lambda>e s. summary_step s e) ys summary_start"
  have "derivePublicLaunchAdvisorDecision ys (sm_status ?t) (sm_advisor ?t) = ''ship'' \<longleftrightarrow>
      ys \<noteq> [] \<and> (\<forall>e \<in> set ys. str_field e ''status'' \<notin> {''fail'', ''blocked'', ''missing'', ''pending''}
        \<and> str_field e ''advisor_decision'' \<notin> {''hold'', ''rollback'', ''not_reviewed''})"
    unfolding derivePublicLaunchAdvisorDecision_def
    by (simp add: summary_counts summary_decisions PUBLIC_LAUNCH_STATUSES_def PUBLIC_LAUNCH_ADVISOR_DECISIONS_def
        filter_empty_conv) blast
  also have "\<dots> \<longleftrightarrow> ys \<noteq> [] \<and> (\<forall>e \<in> set ys. getp e ''status'' = JStr ''pass'' \<and> getp e ''advisor_decision'' = JStr ''ship'')"
    using p(2) by (fastforce simp: entry_ok_def str_field_def PUBLIC_LAUNCH_STATUSES_def PUBLIC_LAUNCH_ADVISOR_DECISIONS_def)
  finally show ?thesis by (simp add: p(1) summary_obj_def obj_get_Cons)
qed

text \<open>An entry that is in order.\<close>

definition sample_review :: jsval where
  "sample_review = JObj [(''status'', JStr ''pass''), (''reviewer_ref'', JStr ''ref:r''), (''evidence_ref_count'', JInt 1), (''issue_codes'', JArr [])]"

definition sample_entry :: jsval where
  "sample_entry = JObj [(''phase_id'', JStr ''p1''), (''scenario_id'', JStr ''s1''), (''owner_ref'', JStr ''ref:o''), (''status'', JStr ''pass''),
     (''advisor_decision'', JStr ''ship''), (''evidence_refs'', JArr []), (''privacy_review'', sample_review), (''claim_review'', sample_review),
     (''rollback_ready'', JBool True), (''support_owner_ref'', JStr ''ref:o''), (''release_owner_ref'', JStr ''ref:o''),
     (''signing_owner_ref'', JStr ''ref:o''), (''updated_at'', JStr ''2026-01-01T00:00:00Z''), (''issue_codes'', JArr [])]"

lemma sample_entry_normal: "normalizePublicLaunchEntries (JArr [sample_entry]) = Inr [sample_entry]"
  by code_simp

theorem advisor_decision_ship_iff_witness:
  "\<exists>s. summarizePublicLaunchEvidence (JArr [sample_entry]) = Inr s \<and> getp s ''advisor_decision'' = JStr ''ship''"
proof -
  have e: "\<exists>v. getE (element sample_entry) ''status'' = Inr v" by (simp add: sample_entry_def getE_def element_def)
  then obtain s where s: "summarizePublicLaunchEvidence (JArr [sample_entry]) = Inr s"
    by (auto simp: summarizePublicLaunchEvidence_def sample_entry_normal res_simps)
  have "getp sample_entry ''status'' = JStr ''pass''" "getp sample_entry ''advisor_decision'' = JStr ''ship''"
    by (simp_all add: sample_entry_def obj_get_Cons)
  with advisor_decision_ship_iff [OF sample_entry_normal s] s show ?thesis by simp
qed

end
