(* ===== verification/Merkle.thy ===== *)
theory Merkle
  imports Hashing
begin

text \<open>
  The \<open>MerkleSet\<close> of \<open>packages/core\<close>: a set of strings kept in a JavaScript \<open>Set\<close>, hashed in sorted
  order into a binary tree whose unpaired nodes are promoted unchanged.  The class, its membership
  and non-membership proofs and the free functions around them are modelled; proofs are JavaScript
  objects, as the code passes them.
\<close>

section \<open>Hashing a level\<close>

definition EMPTY_MERKLE_ROOT :: "node \<Rightarrow> string" where
  "EMPTY_MERKLE_ROOT N = SHA256_PREFIX @ sha256Str N ''enigma.merkle.empty.v1''"

definition leaf_text :: "string \<Rightarrow> string" where
  "leaf_text v = ''enigma.merkle.leaf.v1'' @ [CHR 0x00] @ v"

definition node_text :: "string \<Rightarrow> string \<Rightarrow> string" where
  "node_text l r = ''enigma.merkle.node.v1'' @ [CHR 0x00] @ l @ [CHR 0x00] @ r"

definition merkleLeafHash :: "node \<Rightarrow> string \<Rightarrow> string" where
  "merkleLeafHash N v = sha256Str N (leaf_text v)"

definition merkleNodeHash :: "node \<Rightarrow> string \<Rightarrow> string \<Rightarrow> string" where
  "merkleNodeHash N l r = sha256Str N (node_text l r)"

fun nextMerkleLevel :: "node \<Rightarrow> string list \<Rightarrow> string list" where
  "nextMerkleLevel N (a # b # xs) = merkleNodeHash N a b # nextMerkleLevel N xs"
| "nextMerkleLevel N [a] = [a]"
| "nextMerkleLevel N [] = []"

lemma length_nextMerkleLevel: "length (nextMerkleLevel N xs) = (length xs + 1) div 2"
  by (induction N xs rule: nextMerkleLevel.induct) auto

text \<open>\<open>while (level.length > 1) level = nextMerkleLevel(level)\<close>.\<close>

function merkle_reduce :: "node \<Rightarrow> string list \<Rightarrow> string list" where
  "merkle_reduce N level =
     (if length level > 1 then merkle_reduce N (nextMerkleLevel N level) else level)"
  by pat_completeness auto
termination
  by (relation "measure (\<lambda>(N, level). length level)") (auto simp: length_nextMerkleLevel)

declare merkle_reduce.simps [simp del]

definition merkleRoot :: "node \<Rightarrow> string list \<Rightarrow> string" where
  "merkleRoot N values =
     (if values = [] then EMPTY_MERKLE_ROOT N
      else SHA256_PREFIX @ hd (merkle_reduce N (map (merkleLeafHash N) values)))"

section \<open>Proofs\<close>

definition sibling_obj :: "string \<Rightarrow> string \<Rightarrow> jsval" where
  "sibling_obj position hash = JObj [(''position'', JStr position), (''hash'', JStr hash)]"

text \<open>One round of the proof loop: the sibling (if any) at the cursor's level.\<close>

definition level_sibling :: "string list \<Rightarrow> nat \<Rightarrow> jsval list" where
  "level_sibling level cursor =
     (let siblingIndex = (if cursor mod 2 = 0 then cursor + 1 else cursor - 1)
      in if siblingIndex < length level
         then [sibling_obj (if siblingIndex < cursor then ''left'' else ''right'') (level ! siblingIndex)]
         else [])"

function proof_siblings :: "node \<Rightarrow> string list \<Rightarrow> nat \<Rightarrow> jsval list" where
  "proof_siblings N level cursor =
     (if length level > 1
      then level_sibling level cursor @ proof_siblings N (nextMerkleLevel N level) (cursor div 2)
      else [])"
  by pat_completeness auto
termination
  by (relation "measure (\<lambda>(N, level, cursor). length level)") (auto simp: length_nextMerkleLevel)

declare proof_siblings.simps [simp del]

definition membershipProof :: "node \<Rightarrow> string list \<Rightarrow> nat \<Rightarrow> jsval" where
  "membershipProof N values index =
     JObj [(''type'', JStr ''membership''),
           (''value'', JStr (values ! index)),
           (''index'', JInt (int index)),
           (''size'', JInt (int (length values))),
           (''root'', JStr (merkleRoot N values)),
           (''siblings'', JArr (proof_siblings N (map (merkleLeafHash N) values) index))]"

text \<open>Binary search.  \<open>(low + high) >> 1\<close> is division by two for array lengths below $2^{30}$.\<close>

function lower_bound_loop :: "string list \<Rightarrow> string \<Rightarrow> nat \<Rightarrow> nat \<Rightarrow> nat" where
  "lower_bound_loop values value low high =
     (if low < high then
        (let mid = (low + high) div 2
         in if values ! mid < value then lower_bound_loop values value (mid + 1) high
            else lower_bound_loop values value low mid)
      else low)"
  by pat_completeness auto
termination
  by (relation "measure (\<lambda>(values, value, low, high). high - low)") auto

declare lower_bound_loop.simps [simp del]

definition lowerBound :: "string list \<Rightarrow> string \<Rightarrow> nat" where
  "lowerBound values value = lower_bound_loop values value 0 (length values)"

section \<open>The class\<close>

record merkle_set =
  ms_values :: "string list"

definition normalizeLeafValue :: "jsval \<Rightarrow> string res" where
  "normalizeLeafValue v = (case v of JStr s \<Rightarrow> Inr s | _ \<Rightarrow> canonicalize v)"

definition ms_add :: "string \<Rightarrow> merkle_set \<Rightarrow> merkle_set" where
  "ms_add s m = m\<lparr>ms_values := set_add s (ms_values m)\<rparr>"

definition ms_remove :: "string \<Rightarrow> merkle_set \<Rightarrow> merkle_set" where
  "ms_remove s m = m\<lparr>ms_values := set_remove s (ms_values m)\<rparr>"

definition ms_insert :: "jsval \<Rightarrow> merkle_set \<Rightarrow> merkle_set res" where
  "ms_insert value m = emap (\<lambda>s. ms_add s m) (normalizeLeafValue value)"

definition ms_delete :: "jsval \<Rightarrow> merkle_set \<Rightarrow> (bool \<times> merkle_set) res" where
  "ms_delete value m =
     emap (\<lambda>s. (s \<in> set (ms_values m), ms_remove s m))
       (normalizeLeafValue value)"

definition ms_has :: "jsval \<Rightarrow> merkle_set \<Rightarrow> bool res" where
  "ms_has value m = emap (\<lambda>s. s \<in> set (ms_values m)) (normalizeLeafValue value)"

definition ms_new :: "jsval list \<Rightarrow> merkle_set res" where
  "ms_new values = foldE (\<lambda>m v. ms_insert v m) \<lparr>ms_values = []\<rparr> values"

definition ms_empty :: merkle_set where
  "ms_empty = \<lparr>ms_values = []\<rparr>"

text \<open>\<open>new MerkleSet(strings)\<close>; see \<open>ms_new_strings\<close>.\<close>

definition ms_of :: "string list \<Rightarrow> merkle_set" where
  "ms_of ss = fold ms_add ss ms_empty"

definition sortedValues :: "merkle_set \<Rightarrow> string list" where
  "sortedValues m = sort (ms_values m)"

definition ms_root :: "node \<Rightarrow> merkle_set \<Rightarrow> string" where
  "ms_root N m = merkleRoot N (sortedValues m)"

fun indexOf :: "'a list \<Rightarrow> 'a \<Rightarrow> nat option" where
  "indexOf [] x = None"
| "indexOf (y # ys) x = (if y = x then Some 0 else map_option Suc (indexOf ys x))"

definition proveMembership :: "node \<Rightarrow> merkle_set \<Rightarrow> jsval \<Rightarrow> jsval res" where
  "proveMembership N m value =
     ebind (normalizeLeafValue value) (\<lambda>leaf.
       case indexOf (sortedValues m) leaf of
         None \<Rightarrow> Inl (RangeError ''value is not a member of the MerkleSet'')
       | Some i \<Rightarrow> Inr (membershipProof N (sortedValues m) i))"

definition nonMembershipProof :: "node \<Rightarrow> string list \<Rightarrow> string \<Rightarrow> jsval" where
  "nonMembershipProof N values leaf =
     (let insertion = lowerBound values leaf
      in JObj [(''type'', JStr ''non_membership''),
               (''value'', JStr leaf),
               (''size'', JInt (int (length values))),
               (''root'', JStr (merkleRoot N values)),
               (''predecessor'', if insertion > 0 then membershipProof N values (insertion - 1) else JNull),
               (''successor'', if insertion < length values then membershipProof N values insertion else JNull)])"

definition proveNonMembership :: "node \<Rightarrow> merkle_set \<Rightarrow> jsval \<Rightarrow> jsval res" where
  "proveNonMembership N m value =
     ebind (normalizeLeafValue value) (\<lambda>leaf.
       if leaf \<in> set (sortedValues m) then Inl (RangeError ''value is already a member of the MerkleSet'')
       else Inr (nonMembershipProof N (sortedValues m) leaf))"

section \<open>Verification\<close>

definition sibling_step :: "node \<Rightarrow> string \<Rightarrow> jsval \<Rightarrow> string option" where
  "sibling_step N current sibling =
     (if \<not> isPlainRecord sibling \<or> \<not> test_str (rx_full HASH_RE) (getp sibling ''hash'') then None
      else if getp sibling ''position'' = JStr ''left''
        then Some (merkleNodeHash N (js_String (getp sibling ''hash'')) current)
      else if getp sibling ''position'' = JStr ''right''
        then Some (merkleNodeHash N current (js_String (getp sibling ''hash'')))
      else None)"

fun sibling_fold :: "node \<Rightarrow> string \<Rightarrow> jsval list \<Rightarrow> string option" where
  "sibling_fold N current [] = Some current"
| "sibling_fold N current (s # ss) =
     (case sibling_step N current s of None \<Rightarrow> None | Some c \<Rightarrow> sibling_fold N c ss)"

text \<open>The default parameter \<open>expectedRoot = proof?.root\<close>.\<close>

definition root_or_stated :: "jsval \<Rightarrow> jsval \<Rightarrow> jsval" where
  "root_or_stated p expectedRoot = (if expectedRoot = JUndef then getp p ''root'' else expectedRoot)"

lemma root_or_stated_JStr [simp]: "root_or_stated p (JStr r) = JStr r"
  by (simp add: root_or_stated_def)

definition verifyMembership :: "node \<Rightarrow> jsval \<Rightarrow> jsval \<Rightarrow> bool" where
  "verifyMembership N p expectedRoot =
     (if \<not> isPlainRecord p \<or> getp p ''type'' \<noteq> JStr ''membership'' then False
      else case getp p ''value'' of
        JStr value \<Rightarrow>
          (case as_int (getp p ''index'') of
             None \<Rightarrow> False
           | Some index \<Rightarrow>
               if index < 0 then False
               else (case as_int (getp p ''size'') of
                 None \<Rightarrow> False
               | Some sz \<Rightarrow>
                   if sz \<le> index then False
                   else if \<not> isArray (getp p ''siblings'') then False
                   else (case sibling_fold N (merkleLeafHash N value) (elems (getp p ''siblings'')) of
                           None \<Rightarrow> False
                         | Some current \<Rightarrow>
                             getp p ''root'' = JStr (SHA256_PREFIX @ current)
                             \<and> root_or_stated p expectedRoot = JStr (SHA256_PREFIX @ current))))
      | _ \<Rightarrow> False)"

text \<open>\<open>proof.value < successor.value\<close> on two strings.\<close>

definition value_less :: "jsval \<Rightarrow> jsval \<Rightarrow> bool" where
  "value_less a b = (case a of JStr s \<Rightarrow> (case b of JStr t \<Rightarrow> s < t | _ \<Rightarrow> False) | _ \<Rightarrow> False)"

definition int_eq :: "jsval \<Rightarrow> int \<Rightarrow> bool" where
  "int_eq v i = (as_int v = Some i)"

definition verifyNonMembership :: "node \<Rightarrow> jsval \<Rightarrow> jsval \<Rightarrow> bool" where
  "verifyNonMembership N p expectedRoot =
     (if \<not> isPlainRecord p \<or> getp p ''type'' \<noteq> JStr ''non_membership'' \<or> \<not> isString (getp p ''value'') then False
      else case as_int (getp p ''size'') of
        None \<Rightarrow> False
      | Some sz \<Rightarrow>
          if sz < 0 then False
          else if \<not> js_eq (getp p ''root'') (root_or_stated p expectedRoot) then False
          else
            (let predecessor = getp p ''predecessor''; successor = getp p ''successor'' in
             if sz = 0 then
               predecessor = JNull \<and> successor = JNull \<and> getp p ''root'' = JStr (EMPTY_MERKLE_ROOT N)
             else if predecessor = JNull \<and> successor = JNull then False
             else if predecessor \<noteq> JNull \<and> \<not> verifyMembership N predecessor (getp p ''root'') then False
             else if predecessor \<noteq> JNull \<and> \<not> value_less (getp predecessor ''value'') (getp p ''value'') then False
             else if successor \<noteq> JNull \<and> \<not> verifyMembership N successor (getp p ''root'') then False
             else if successor \<noteq> JNull \<and> \<not> value_less (getp p ''value'') (getp successor ''value'') then False
             else if predecessor \<noteq> JNull \<and> successor \<noteq> JNull then
               (\<exists>i \<in> set_option (as_int (getp predecessor ''index'')). int_eq (getp successor ''index'') (i + 1))
               \<and> int_eq (getp predecessor ''size'') sz \<and> int_eq (getp successor ''size'') sz
             else if predecessor = JNull then
               int_eq (getp successor ''index'') 0 \<and> int_eq (getp successor ''size'') sz
             else int_eq (getp predecessor ''index'') (sz - 1) \<and> int_eq (getp predecessor ''size'') sz))"

section \<open>Free functions\<close>

definition merkleSetRoot :: "node \<Rightarrow> jsval \<Rightarrow> string res" where
  "merkleSetRoot N values =
     (case values of
        JArr xs \<Rightarrow> emap (ms_root N) (ms_new xs)
      | _ \<Rightarrow> Inl (TypeError ''merkleSetRoot requires an array''))"

definition createMerkleRoot :: "node \<Rightarrow> jsval \<Rightarrow> string res" where
  "createMerkleRoot N values = merkleSetRoot N values"

definition values_and_value :: "jsval \<Rightarrow> jsval \<Rightarrow> jsval \<times> jsval" where
  "values_and_value valuesOrArgs maybeValue =
     (if isArray valuesOrArgs then (valuesOrArgs, maybeValue)
      else (getp valuesOrArgs ''values'', getp valuesOrArgs ''value''))"

definition createMerkleMembershipProof :: "node \<Rightarrow> jsval \<Rightarrow> jsval \<Rightarrow> jsval res" where
  "createMerkleMembershipProof N valuesOrArgs maybeValue =
     (case values_and_value valuesOrArgs maybeValue of
        (JArr xs, value) \<Rightarrow> ebind (ms_new xs) (\<lambda>m. proveMembership N m value)
      | _ \<Rightarrow> Inl (TypeError ''createMerkleMembershipProof requires values''))"

definition createMerkleNonMembershipProof :: "node \<Rightarrow> jsval \<Rightarrow> jsval \<Rightarrow> jsval res" where
  "createMerkleNonMembershipProof N valuesOrArgs maybeValue =
     (case values_and_value valuesOrArgs maybeValue of
        (JArr xs, value) \<Rightarrow> ebind (ms_new xs) (\<lambda>m. proveNonMembership N m value)
      | _ \<Rightarrow> Inl (TypeError ''createMerkleNonMembershipProof requires values''))"

definition proof_and_root :: "jsval \<Rightarrow> jsval \<Rightarrow> jsval \<times> jsval" where
  "proof_and_root proofOrArgs maybeExpectedRoot =
     (let own = isPlainRecord proofOrArgs \<and> hasOwn proofOrArgs ''proof'';
          p = (if own then getp proofOrArgs ''proof'' else proofOrArgs);
          expected = (if own then pick proofOrArgs [''expectedRoot'', ''expected_root''] else maybeExpectedRoot)
      in (p, coal expected (getp p ''root'')))"

definition verifyMerkleMembershipProof :: "node \<Rightarrow> jsval \<Rightarrow> jsval \<Rightarrow> bool" where
  "verifyMerkleMembershipProof N proofOrArgs maybeExpectedRoot =
     (case proof_and_root proofOrArgs maybeExpectedRoot of (p, root) \<Rightarrow> verifyMembership N p root)"

definition verifyMerkleNonMembershipProof :: "node \<Rightarrow> jsval \<Rightarrow> jsval \<Rightarrow> bool" where
  "verifyMerkleNonMembershipProof N proofOrArgs maybeExpectedRoot =
     (case proof_and_root proofOrArgs maybeExpectedRoot of (p, root) \<Rightarrow> verifyNonMembership N p root)"

end
