(* ===== verification/Merkle_Proofs.thy ===== *)
theory Merkle_Proofs
  imports Merkle Sample_Runtime
begin

text \<open>
  What the Merkle set promises.  A proof produced by the class is accepted against the root of the
  set (completeness); an accepted membership proof names an element of the set, provided the hash
  has no collision among the strings the two computations hash (soundness); hence a root commits
  to the set (binding).  The root depends on the set only, not on the order of insertion.
  Non-membership proofs are complete but not sound: \<open>index\<close> and \<open>size\<close> of a membership proof are
  not bound to its path, so two genuine membership proofs can be presented as neighbours.
\<close>

section \<open>Levels\<close>

definition hexhash :: "string \<Rightarrow> bool" where
  "hexhash s = (length s = 64 \<and> list_all ch_hex s)"

lemma hexhash_leaf: "hash_hex N \<Longrightarrow> hexhash (merkleLeafHash N v)"
  by (simp add: hexhash_def merkleLeafHash_def hash_hexD)

lemma hexhash_node: "hash_hex N \<Longrightarrow> hexhash (merkleNodeHash N a b)"
  by (simp add: hexhash_def merkleNodeHash_def hash_hexD)

lemma nth_nextMerkleLevel:
  "j < length (nextMerkleLevel N xs) \<Longrightarrow>
     nextMerkleLevel N xs ! j =
       (if 2 * j + 1 < length xs then merkleNodeHash N (xs ! (2 * j)) (xs ! (2 * j + 1)) else xs ! (2 * j))"
proof (induction N xs arbitrary: j rule: nextMerkleLevel.induct)
  case (1 N a b xs)
  then show ?case by (cases j) auto
qed auto

lemma nextMerkleLevel_hexhash:
  "hash_hex N \<Longrightarrow> \<forall>x \<in> set xs. hexhash x \<Longrightarrow> \<forall>x \<in> set (nextMerkleLevel N xs). hexhash x"
  by (induction N xs rule: nextMerkleLevel.induct) (auto simp: hexhash_node)

lemma nextMerkleLevel_Nil [simp]: "nextMerkleLevel N xs = [] \<longleftrightarrow> xs = []"
  by (cases "(N, xs)" rule: nextMerkleLevel.cases) auto

section \<open>Completeness of membership proofs\<close>

lemma sibling_fold_append:
  "sibling_fold N c (xs @ ys) =
     (case sibling_fold N c xs of None \<Rightarrow> None | Some d \<Rightarrow> sibling_fold N d ys)"
  by (induction N c xs rule: sibling_fold.induct) (auto split: option.splits)

lemma sibling_step_obj:
  "hexhash h \<Longrightarrow> sibling_step N c (sibling_obj ''left'' h) = Some (merkleNodeHash N h c)"
  "hexhash h \<Longrightarrow> sibling_step N c (sibling_obj ''right'' h) = Some (merkleNodeHash N c h)"
  by (simp_all add: sibling_step_def sibling_obj_def isPlainRecord_def obj_get_def HASH_RE_iff hexhash_def)

lemma sibling_fold_level:
  assumes "i < length level" "length level > 1" "\<forall>x \<in> set level. hexhash x"
  shows "sibling_fold N (level ! i) (level_sibling level i) = Some (nextMerkleLevel N level ! (i div 2))"
proof (cases "even i")
  case True
  then have i: "2 * (i div 2) = i" by simp
  have len: "i div 2 < length (nextMerkleLevel N level)"
    using assms by (simp add: length_nextMerkleLevel)
  show ?thesis
  proof (cases "i + 1 < length level")
    case True
    then show ?thesis using assms i \<open>even i\<close> nth_nextMerkleLevel [OF len]
      by (simp add: level_sibling_def sibling_step_obj)
  next
    case False
    then show ?thesis using assms i \<open>even i\<close> nth_nextMerkleLevel [OF len]
      by (simp add: level_sibling_def)
  qed
next
  case False
  then have i: "2 * (i div 2) = i - 1" "i > 0" "i - 1 + 1 = i" "i mod 2 = 1" by (auto elim!: oddE)
  have len: "i div 2 < length (nextMerkleLevel N level)"
    using assms by (simp add: length_nextMerkleLevel)
  have "level_sibling level i = [sibling_obj ''left'' (level ! (i - 1))]"
  proof -
    have "i - 1 < i" "i - 1 < length level" using assms(1) i(2) by simp_all
    with i(4) show ?thesis by (simp add: level_sibling_def Let_def)
  qed
  moreover have "hexhash (level ! (i - 1))" using assms(1,3) i(2) by simp
  ultimately show ?thesis using assms i nth_nextMerkleLevel [OF len]
    by (simp add: sibling_step_obj)
qed

lemma sibling_fold_complete:
  "hash_hex N \<Longrightarrow> i < length level \<Longrightarrow> \<forall>x \<in> set level. hexhash x \<Longrightarrow>
     sibling_fold N (level ! i) (proof_siblings N level i) = Some (hd (merkle_reduce N level))"
proof (induction N level i rule: proof_siblings.induct)
  case (1 N level i)
  show ?case
  proof (cases "length level > 1")
    case True
    have "i div 2 < length (nextMerkleLevel N level)"
      using "1.prems" True by (simp add: length_nextMerkleLevel)
    with "1.IH" [OF True] "1.prems" True show ?thesis
      by (simp add: proof_siblings.simps [of N level] merkle_reduce.simps [of N level]
          sibling_fold_append sibling_fold_level nextMerkleLevel_hexhash)
  next
    case False
    with "1.prems" have "level = [level ! i]" by (cases level) auto
    with False show ?thesis
      by (metis list.sel(1) merkle_reduce.simps proof_siblings.simps sibling_fold.simps(1))
  qed
qed

lemma verifyMembership_membershipProof:
  assumes "hash_hex N" "i < length values"
  shows "verifyMembership N (membershipProof N values i) (JStr (merkleRoot N values))"
proof -
  let ?level = "map (merkleLeafHash N) values"
  have "sibling_fold N (?level ! i) (proof_siblings N ?level i) = Some (hd (merkle_reduce N ?level))"
    using assms by (intro sibling_fold_complete) (auto simp: hexhash_leaf)
  with assms show ?thesis
    by (auto simp: verifyMembership_def membershipProof_def isPlainRecord_def obj_get_def
        elems_def merkleRoot_def)
qed

section \<open>Soundness of membership proofs\<close>

text \<open>All hashes of a tree and all strings hashed to build it from a given level upwards.\<close>

function tree_hashes :: "node \<Rightarrow> string list \<Rightarrow> string set" where
  "tree_hashes N level =
     set level \<union> (if length level > 1 then tree_hashes N (nextMerkleLevel N level) else {})"
  by pat_completeness auto
termination
  by (relation "measure (\<lambda>(N, level). length level)") (auto simp: length_nextMerkleLevel)

declare tree_hashes.simps [simp del]

fun level_texts :: "string list \<Rightarrow> string set" where
  "level_texts (a # b # xs) = insert (node_text a b) (level_texts xs)"
| "level_texts _ = {}"

function tree_texts :: "node \<Rightarrow> string list \<Rightarrow> string set" where
  "tree_texts N level =
     (if length level > 1 then level_texts level \<union> tree_texts N (nextMerkleLevel N level) else {})"
  by pat_completeness auto
termination
  by (relation "measure (\<lambda>(N, level). length level)") (auto simp: length_nextMerkleLevel)

declare tree_texts.simps [simp del]

definition merkle_texts :: "node \<Rightarrow> string list \<Rightarrow> string set" where
  "merkle_texts N values =
     (if values = [] then {''enigma.merkle.empty.v1''}
      else leaf_text ` set values \<union> tree_texts N (map (merkleLeafHash N) values))"

text \<open>The strings \<open>verifyMembership\<close> hashes for a proof.\<close>

definition step_text :: "string \<Rightarrow> jsval \<Rightarrow> string" where
  "step_text current sibling =
     (if getp sibling ''position'' = JStr ''left''
      then node_text (js_String (getp sibling ''hash'')) current
      else node_text current (js_String (getp sibling ''hash'')))"

fun path_texts :: "node \<Rightarrow> string \<Rightarrow> jsval list \<Rightarrow> string set" where
  "path_texts N current [] = {}"
| "path_texts N current (s # ss) =
     (case sibling_step N current s of
        None \<Rightarrow> {}
      | Some c \<Rightarrow> insert (step_text current s) (path_texts N c ss))"

definition proof_texts :: "node \<Rightarrow> jsval \<Rightarrow> string set" where
  "proof_texts N p =
     (let v = js_String (getp p ''value'')
      in insert (leaf_text v) (path_texts N (merkleLeafHash N v) (elems (getp p ''siblings''))))"

lemma leaf_node_distinct [simp]: "leaf_text v \<noteq> node_text a b" "node_text a b \<noteq> leaf_text v"
  by (simp_all add: leaf_text_def node_text_def)

lemma leaf_text_inj [simp]: "leaf_text v = leaf_text w \<longleftrightarrow> v = w"
  by (simp add: leaf_text_def)

lemma node_text_inj:
  "node_text a b = node_text c d \<Longrightarrow> length a = 64 \<Longrightarrow> length c = 64 \<Longrightarrow> a = c \<and> b = d"
  by (simp add: node_text_def)

lemma sibling_step_text:
  "sibling_step N current s = Some c \<Longrightarrow> c = sha256Str N (step_text current s)"
  by (auto simp: sibling_step_def step_text_def merkleNodeHash_def split: if_splits)

lemma nextMerkleLevel_origin:
  "x \<in> set (nextMerkleLevel N level) \<Longrightarrow>
     x \<in> set level \<or> (\<exists>a b. a \<in> set level \<and> b \<in> set level \<and> x = merkleNodeHash N a b \<and> node_text a b \<in> level_texts level)"
  by (induction N level rule: nextMerkleLevel.induct) auto

lemma tree_hashes_level: "x \<in> set level \<Longrightarrow> x \<in> tree_hashes N level"
  by (subst tree_hashes.simps) simp

lemma tree_hashes_origin:
  "x \<in> tree_hashes N level \<Longrightarrow>
     x \<in> set level \<or>
     (\<exists>a b. a \<in> tree_hashes N level \<and> b \<in> tree_hashes N level \<and> x = merkleNodeHash N a b
        \<and> node_text a b \<in> tree_texts N level)"
proof (induction N level rule: tree_hashes.induct)
  case (1 N level)
  show ?case
  proof (cases "length level > 1")
    case True
    let ?next = "nextMerkleLevel N level"
    have up: "tree_hashes N ?next \<subseteq> tree_hashes N level" "tree_texts N ?next \<subseteq> tree_texts N level"
      "level_texts level \<subseteq> tree_texts N level"
      using True by (auto simp: tree_hashes.simps [of N level] tree_texts.simps [of N level])
    from "1.prems" True have "x \<in> set level \<or> x \<in> tree_hashes N ?next"
      by (simp add: tree_hashes.simps [of N level])
    then show ?thesis
    proof
      assume "x \<in> tree_hashes N ?next"
      from "1.IH" [OF True this] nextMerkleLevel_origin [of x N level] tree_hashes_level up show ?thesis
        by blast
    qed simp
  qed (use "1.prems" in \<open>simp add: tree_hashes.simps [of N level]\<close>)
qed

lemma merkle_reduce_in_tree: "level \<noteq> [] \<Longrightarrow> hd (merkle_reduce N level) \<in> tree_hashes N level"
proof (induction N level rule: merkle_reduce.induct)
  case (1 N level)
  show ?case
  proof (cases "length level > 1")
    case True
    with 1 show ?thesis
      by (simp add: merkle_reduce.simps [of N level] tree_hashes.simps [of N level])
  next
    case False
    with "1.prems" show ?thesis
      by (simp add: merkle_reduce.simps [of N level] tree_hashes_level)
  qed
qed

lemma tree_hashes_hexhash:
  "hash_hex N \<Longrightarrow> \<forall>x \<in> set level. hexhash x \<Longrightarrow> x \<in> tree_hashes N level \<Longrightarrow> hexhash x"
proof (induction N level rule: tree_hashes.induct)
  case (1 N level)
  then show ?case
    by (auto simp: tree_hashes.simps [of N level] nextMerkleLevel_hexhash split: if_splits)
qed

lemma sibling_step_hexhash: "hash_hex N \<Longrightarrow> sibling_step N current s = Some c \<Longrightarrow> hexhash c"
  by (auto simp: sibling_step_def hexhash_node split: if_splits)

text \<open>One step of a path backwards: from a hash of the tree to the hash below it.\<close>

lemma path_step_back:
  assumes hex: "hash_hex N" and cur: "hexhash current"
    and step: "sibling_step N current s = Some c"
    and c: "c \<in> tree_hashes N (map (merkleLeafHash N) values)"
    and inj: "inj_on (sha256Str N) T"
    and T: "step_text current s \<in> T" "leaf_text ` set values \<subseteq> T"
      "tree_texts N (map (merkleLeafHash N) values) \<subseteq> T"
  shows "current \<in> tree_hashes N (map (merkleLeafHash N) values)"
proof -
  let ?level = "map (merkleLeafHash N) values"
  have hash: "c = sha256Str N (step_text current s)" by (rule sibling_step_text [OF step])
  have sib: "length (js_String (getp s ''hash'')) = 64"
    using step by (auto simp: sibling_step_def test_str_def HASH_RE_iff coal_def split: if_splits)
  from tree_hashes_origin [OF c] consider
    (leaf) v where "v \<in> set values" "c = sha256Str N (leaf_text v)"
  | (node) a b where "a \<in> tree_hashes N ?level" "b \<in> tree_hashes N ?level"
      "c = sha256Str N (node_text a b)" "node_text a b \<in> tree_texts N ?level"
    by (auto simp: merkleLeafHash_def merkleNodeHash_def)
  then show ?thesis
  proof cases
    case leaf
    then have "step_text current s = leaf_text v"
      using hash T inj_onD [OF inj, of "step_text current s" "leaf_text v"] by auto
    then show ?thesis by (auto simp: step_text_def split: if_splits)
  next
    case node
    then have eq: "step_text current s = node_text a b"
      using hash T inj_onD [OF inj, of "step_text current s" "node_text a b"] by auto
    have "hexhash a" using tree_hashes_hexhash [OF hex _ node(1)] by (simp add: hexhash_leaf hex)
    then have "current = a \<or> current = b"
      using eq cur sib by (auto simp: step_text_def hexhash_def dest: node_text_inj split: if_splits)
    with node(1,2) show ?thesis by auto
  qed
qed

lemma path_in_tree:
  assumes "hash_hex N" "hexhash current"
    and "sibling_fold N current ss = Some r"
    and "r \<in> tree_hashes N (map (merkleLeafHash N) values)"
    and "inj_on (sha256Str N) T"
    and "path_texts N current ss \<subseteq> T" "leaf_text ` set values \<subseteq> T"
      "tree_texts N (map (merkleLeafHash N) values) \<subseteq> T"
  shows "current \<in> tree_hashes N (map (merkleLeafHash N) values)"
  using assms
proof (induction N current ss rule: sibling_fold.induct)
  case (2 N current s ss)
  from "2.prems"(3) obtain c where c: "sibling_step N current s = Some c" "sibling_fold N c ss = Some r"
    by (auto split: option.splits)
  have "c \<in> tree_hashes N (map (merkleLeafHash N) values)"
    using "2.IH" [OF c(1) "2.prems"(1) _ c(2)] "2.prems" c sibling_step_hexhash by auto
  with "2.prems" c show ?case by (intro path_step_back [of N current s c "values" T]) auto
qed simp

lemma sibling_fold_hashed:
  "sibling_fold N c ss = Some r \<Longrightarrow> path_texts N c ss \<subseteq> T \<Longrightarrow> u \<in> T \<Longrightarrow> c = sha256Str N u \<Longrightarrow>
     u \<noteq> ''enigma.merkle.empty.v1'' \<Longrightarrow> \<exists>t \<in> T. t \<noteq> ''enigma.merkle.empty.v1'' \<and> r = sha256Str N t"
proof (induction N c ss arbitrary: u rule: sibling_fold.induct)
  case (2 N c s ss)
  then obtain d where d: "sibling_step N c s = Some d" "sibling_fold N d ss = Some r"
    by (auto split: option.splits)
  show ?case
  proof (rule "2.IH" [OF d])
    show "path_texts N d ss \<subseteq> T" "step_text c s \<in> T" using "2.prems"(2) d by auto
    show "d = sha256Str N (step_text c s)" by (rule sibling_step_text [OF d(1)])
    show "step_text c s \<noteq> ''enigma.merkle.empty.v1''" by (simp add: step_text_def node_text_def)
  qed
qed auto

lemma verifyMembership_sound_aux:
  assumes hex: "hash_hex N"
    and acc: "verifyMembership N p (JStr (merkleRoot N values))"
    and inj: "inj_on (sha256Str N) T"
    and T: "merkle_texts N values \<subseteq> T" "proof_texts N p \<subseteq> T"
  shows "\<exists>v. getp p ''value'' = JStr v \<and> v \<in> set values"
proof -
  let ?level = "map (merkleLeafHash N) values"
  from acc obtain v r where v: "getp p ''value'' = JStr v"
    and fold: "sibling_fold N (merkleLeafHash N v) (elems (getp p ''siblings'')) = Some r"
    and r: "merkleRoot N values = SHA256_PREFIX @ r"
    by (auto simp: verifyMembership_def split: if_splits jsval.splits option.splits)
  have lt: "leaf_text v \<in> T" and pt: "path_texts N (merkleLeafHash N v) (elems (getp p ''siblings'')) \<subseteq> T"
    using T(2) by (auto simp: proof_texts_def v)
  show ?thesis
  proof (cases "values = []")
    case True
    have "\<exists>t \<in> T. t \<noteq> ''enigma.merkle.empty.v1'' \<and> r = sha256Str N t"
      using fold pt lt by (rule sibling_fold_hashed) (simp_all add: merkleLeafHash_def leaf_text_def)
    with r True T(1) inj show ?thesis
      by (auto simp: merkleRoot_def EMPTY_MERKLE_ROOT_def merkle_texts_def dest: inj_onD)
  next
    case False
    then have Tv: "leaf_text ` set values \<subseteq> T" "tree_texts N ?level \<subseteq> T"
      using T(1) by (auto simp: merkle_texts_def)
    have "r = hd (merkle_reduce N ?level)" using r False by (simp add: merkleRoot_def)
    with False have "r \<in> tree_hashes N ?level" by (simp add: merkle_reduce_in_tree)
    from path_in_tree [OF hex hexhash_leaf [OF hex] fold this inj pt Tv]
    have "merkleLeafHash N v \<in> tree_hashes N ?level" .
    from tree_hashes_origin [OF this] show ?thesis
      using Tv lt inj_onD [OF inj] v by (fastforce simp: merkleLeafHash_def merkleNodeHash_def)
  qed
qed

section \<open>The class implements a set with a canonical digest\<close>

definition ms_wf :: "merkle_set \<Rightarrow> bool" where
  "ms_wf m = distinct (ms_values m)"

definition ms_elems :: "merkle_set \<Rightarrow> string set" where
  "ms_elems m = set (ms_values m)"

interpretation ms: set_digest "\<lparr>ms_values = []\<rparr>" ms_add ms_remove "\<lambda>m x. x \<in> ms_elems m" ms_elems ms_wf
    "ms_root N" for N
  by unfold_locales
     (auto simp: ms_add_def ms_remove_def ms_elems_def ms_wf_def ms_root_def sortedValues_def sort_eq_iff_set
       intro!: arg_cong [where f = "merkleRoot N"])

lemma ms_new_strings: "ms_new (map JStr xs) = Inr (fold ms_add xs \<lparr>ms_values = []\<rparr>)"
proof -
  have "foldE (\<lambda>m v. ms_insert v m) m (map JStr xs) = Inr (fold ms_add xs m)" for m
    by (induction xs arbitrary: m) (simp_all add: ms_insert_def normalizeLeafValue_def)
  then show ?thesis by (simp add: ms_new_def)
qed

lemma ms_insert_wf: "ms_wf m \<Longrightarrow> ms_insert v m = Inr m' \<Longrightarrow> ms_wf m'"
  by (auto simp: ms_insert_def res_simps intro: ms.wf_add)

lemma ms_new_wf: "ms_new vs = Inr m \<Longrightarrow> ms_wf m"
  unfolding ms_new_def
  by (erule foldE_invariant [where P = ms_wf]) (simp add: ms_wf_def, erule ms_insert_wf)

lemma sortedValues_simps [simp]:
  "set (sortedValues m) = ms_elems m" "sorted (sortedValues m)" "distinct (sortedValues m) = ms_wf m"
  by (simp_all add: sortedValues_def ms_elems_def ms_wf_def)

lemma merkleSetRoot_strings:
  "merkleSetRoot N (JArr (map JStr xs)) = Inr (merkleRoot N (sort (set_of xs)))"
proof -
  have "ms_values (fold ms_add xs m) = fold set_add xs (ms_values m)" for m
    by (induction xs arbitrary: m) (simp_all add: ms_add_def)
  then show ?thesis
    by (simp add: merkleSetRoot_def ms_new_strings ms_root_def sortedValues_def set_of_def)
qed

lemma indexOf_Some: "indexOf xs x = Some i \<Longrightarrow> i < length xs \<and> xs ! i = x"
  by (induction xs arbitrary: i) (auto split: if_splits)

lemma indexOf_None: "indexOf xs x = None \<longleftrightarrow> x \<notin> set xs"
  by (induction xs) auto

section \<open>Binding\<close>

lemma level_texts_pair: "2 * j + 1 < length xs \<Longrightarrow> node_text (xs ! (2 * j)) (xs ! (2 * j + 1)) \<in> level_texts xs"
proof (induction xs arbitrary: j rule: level_texts.induct)
  case (1 a b xs)
  then show ?case by (cases j) auto
qed auto

lemma path_texts_append:
  "sibling_fold N c xs = Some d \<Longrightarrow> path_texts N c (xs @ ys) = path_texts N c xs \<union> path_texts N d ys"
  by (induction N c xs rule: path_texts.induct) (auto split: option.splits)

lemma path_texts_level:
  assumes "i < length level" "length level > 1" "\<forall>x \<in> set level. hexhash x"
  shows "path_texts N (level ! i) (level_sibling level i) \<subseteq> level_texts level"
proof (cases "even i")
  case True
  then obtain j where i: "i = 2 * j" by (auto elim: evenE)
  then show ?thesis using assms level_texts_pair [of j level]
    by (auto simp: level_sibling_def Let_def step_text_def sibling_obj_def obj_get_def split: option.splits)
next
  case False
  then obtain j where i: "i = 2 * j + 1" by (auto elim: oddE)
  then show ?thesis using assms level_texts_pair [of j level]
    by (auto simp: level_sibling_def Let_def step_text_def sibling_obj_def obj_get_def split: option.splits)
qed

lemma path_texts_proof:
  "hash_hex N \<Longrightarrow> i < length level \<Longrightarrow> \<forall>x \<in> set level. hexhash x \<Longrightarrow>
     path_texts N (level ! i) (proof_siblings N level i) \<subseteq> tree_texts N level"
proof (induction N level i rule: proof_siblings.induct)
  case (1 N level i)
  show ?case
  proof (cases "length level > 1")
    case True
    have "i div 2 < length (nextMerkleLevel N level)"
      using "1.prems" True by (simp add: length_nextMerkleLevel)
    with "1.IH" [OF True] "1.prems" have up: "path_texts N (nextMerkleLevel N level ! (i div 2))
        (proof_siblings N (nextMerkleLevel N level) (i div 2)) \<subseteq> tree_texts N (nextMerkleLevel N level)"
      by (simp add: nextMerkleLevel_hexhash)
    have "path_texts N (level ! i) (proof_siblings N level i) =
        path_texts N (level ! i) (level_sibling level i) \<union>
        path_texts N (nextMerkleLevel N level ! (i div 2)) (proof_siblings N (nextMerkleLevel N level) (i div 2))"
      using True "1.prems"
      by (simp add: proof_siblings.simps [of N level i] path_texts_append [OF sibling_fold_level])
    with up path_texts_level [of i level N] True "1.prems" show ?thesis
      by (auto simp: tree_texts.simps [of N level])
  qed (simp add: proof_siblings.simps)
qed

lemma proof_texts_membershipProof:
  assumes "hash_hex N" "i < length values"
  shows "proof_texts N (membershipProof N values i) \<subseteq> merkle_texts N values"
proof -
  let ?level = "map (merkleLeafHash N) values"
  have "path_texts N (?level ! i) (proof_siblings N ?level i) \<subseteq> tree_texts N ?level"
    using assms by (intro path_texts_proof) (auto simp: hexhash_leaf)
  with assms show ?thesis
    by (auto simp: proof_texts_def membershipProof_def obj_get_def elems_def merkle_texts_def Let_def)
qed

lemma merkleRoot_subset:
  assumes "hash_hex N" "merkleRoot N xs = merkleRoot N ys"
    and inj: "inj_on (sha256Str N) (merkle_texts N xs \<union> merkle_texts N ys)"
  shows "set xs \<subseteq> set ys"
proof
  fix x assume "x \<in> set xs"
  then obtain i where i: "i < length xs" "x = xs ! i" by (metis in_set_conv_nth)
  have "verifyMembership N (membershipProof N xs i) (JStr (merkleRoot N ys))"
    using verifyMembership_membershipProof [OF assms(1) i(1)] assms(2) by simp
  from verifyMembership_sound_aux [OF assms(1) this inj] proof_texts_membershipProof [OF assms(1) i(1)]
  show "x \<in> set ys" by (auto simp: membershipProof_def obj_get_def i)
qed

section \<open>Binary search and non-membership\<close>

lemma lower_bound_loop_correct:
  "low \<le> high \<Longrightarrow> high \<le> length values \<Longrightarrow> sorted values \<Longrightarrow>
   (\<forall>i < low. values ! i < value) \<Longrightarrow> (\<forall>i. high \<le> i \<and> i < length values \<longrightarrow> value \<le> values ! i) \<Longrightarrow>
   (let k = lower_bound_loop values value low high in
      k \<le> length values \<and> (\<forall>i < k. values ! i < value) \<and> (\<forall>i. k \<le> i \<and> i < length values \<longrightarrow> value \<le> values ! i))"
proof (induction "values" "value" low high rule: lower_bound_loop.induct)
  case (1 vs v low high)
  show ?case
  proof (cases "low < high")
    case True
    let ?mid = "(low + high) div 2"
    have mid: "low \<le> ?mid" "?mid < high" using True by auto
    show ?thesis
    proof (cases "vs ! ?mid < v")
      case less: True
      have "\<forall>i < ?mid + 1. vs ! i < v"
      proof (intro allI impI)
        fix i assume "i < ?mid + 1"
        then have "vs ! i \<le> vs ! ?mid" using mid "1.prems"(2,3) by (intro sorted_nth_mono) auto
        with less show "vs ! i < v" by simp
      qed
      with "1.IH"(1) [OF True refl less] "1.prems" mid show ?thesis
        by (simp add: lower_bound_loop.simps [of vs v low high] True less Let_def)
    next
      case False
      have "\<forall>i. ?mid \<le> i \<and> i < length vs \<longrightarrow> v \<le> vs ! i"
      proof (intro allI impI)
        fix i assume "?mid \<le> i \<and> i < length vs"
        then have "vs ! ?mid \<le> vs ! i" using "1.prems"(3) by (intro sorted_nth_mono) auto
        with False show "v \<le> vs ! i" by simp
      qed
      with "1.IH"(2) [OF True refl False] "1.prems" mid show ?thesis
        by (simp add: lower_bound_loop.simps [of vs v low high] True False Let_def)
    qed
  next
    case False
    then have "lower_bound_loop vs v low high = low" by (simp add: lower_bound_loop.simps [of vs v low high])
    with "1.prems" False show ?thesis by (simp add: Let_def)
  qed
qed

lemma lowerBound_spec:
  assumes "sorted values"
  shows "let k = lowerBound values v in
      k \<le> length values \<and> (\<forall>i < k. values ! i < v) \<and> (\<forall>i. k \<le> i \<and> i < length values \<longrightarrow> v \<le> values ! i)"
  unfolding lowerBound_def using assms by (intro lower_bound_loop_correct) auto

lemma lowerBound_props:
  assumes "sorted values"
  shows "lowerBound values v \<le> length values"
    and "\<And>i. i < lowerBound values v \<Longrightarrow> values ! i < v"
    and "\<And>i. lowerBound values v \<le> i \<Longrightarrow> i < length values \<Longrightarrow> v \<le> values ! i"
  using lowerBound_spec [OF assms, of v] by (auto simp: Let_def)

lemma membershipProof_fields [simp]:
  "getp (membershipProof N values i) ''index'' = JInt (int i)"
  "getp (membershipProof N values i) ''size'' = JInt (int (length values))"
  "getp (membershipProof N values i) ''value'' = JStr (values ! i)"
  "membershipProof N values i \<noteq> JNull"
  by (simp_all add: membershipProof_def obj_get_def)

lemma verifyNonMembership_complete:
  assumes hex: "hash_hex N" and "sorted values" and out: "v \<notin> set values"
  shows "verifyNonMembership N (nonMembershipProof N values v) (JStr (merkleRoot N values))"
proof -
  let ?k = "lowerBound values v"
  note lb = lowerBound_props [OF assms(2), where v = v]
  have pred: "verifyMembership N (membershipProof N values (?k - 1)) (JStr (merkleRoot N values))"
    "values ! (?k - 1) < v" if "0 < ?k"
    using that lb(1,2) by (auto intro!: verifyMembership_membershipProof hex)
  have ne: "values ! ?k \<noteq> v" if "?k < length values" using nth_mem [OF that] out by metis
  have succ: "verifyMembership N (membershipProof N values ?k) (JStr (merkleRoot N values))"
    "v < values ! ?k" if "?k < length values"
    using that lb(3) [of ?k] ne [OF that] by (auto intro!: verifyMembership_membershipProof hex simp: less_le)
  have fields: "getp (nonMembershipProof N values v) ''predecessor''
        = (if ?k > 0 then membershipProof N values (?k - 1) else JNull)"
      "getp (nonMembershipProof N values v) ''successor''
        = (if ?k < length values then membershipProof N values ?k else JNull)"
      "getp (nonMembershipProof N values v) ''value'' = JStr v"
      "getp (nonMembershipProof N values v) ''type'' = JStr ''non_membership''"
      "getp (nonMembershipProof N values v) ''size'' = JInt (int (length values))"
      "getp (nonMembershipProof N values v) ''root'' = JStr (merkleRoot N values)"
      "isPlainRecord (nonMembershipProof N values v)"
    by (simp_all add: nonMembershipProof_def Let_def obj_get_def isPlainRecord_def)
  consider "values = []" | "values \<noteq> []" "?k = 0" | "values \<noteq> []" "?k = length values"
    | "0 < ?k" "?k < length values"
    using lb(1) by fastforce
  then show ?thesis
  proof cases
    case 1
    then show ?thesis
      by (simp add: verifyNonMembership_def nonMembershipProof_def lowerBound_def lower_bound_loop.simps
          Let_def obj_get_def isPlainRecord_def merkleRoot_def)
  next
    case 2
    with succ show ?thesis by (simp add: verifyNonMembership_def fields value_less_def int_eq_def)
  next
    case 3
    then have "int (length values - 1) = int (length values) - 1" by (cases "values") auto
    with 3 pred show ?thesis by (simp add: verifyNonMembership_def fields value_less_def int_eq_def)
  next
    case 4
    then have "int (?k - 1) + 1 = int ?k" "values \<noteq> []" by auto
    with 4 pred succ show ?thesis
      by (simp add: verifyNonMembership_def fields value_less_def int_eq_def)
  qed
qed

section \<open>Properties\<close>

text \<open>
  C12. For every value with a leaf encoding, \<open>proveMembership\<close> either returns a proof that
  \<open>verifyMembership\<close> accepts against the root of the set, exactly when the leaf is in the set, or
  throws the \<open>RangeError\<close> of the code.
\<close>

theorem proveMembership_correct:
  assumes "hash_hex N" and leaf: "normalizeLeafValue v = Inr s"
  shows "if s \<in> ms_elems m
         then \<exists>p. proveMembership N m v = Inr p \<and> verifyMembership N p (JStr (ms_root N m))
         else proveMembership N m v = Inl (RangeError ''value is not a member of the MerkleSet'')"
proof (cases "indexOf (sortedValues m) s")
  case None
  with leaf indexOf_None [of "sortedValues m" s] show ?thesis by (simp add: proveMembership_def)
next
  case (Some i)
  with leaf indexOf_Some [OF Some] nth_mem [of i "sortedValues m"] assms(1) show ?thesis
    by (auto simp: proveMembership_def ms_root_def intro: verifyMembership_membershipProof)
qed

theorem proveMembership_correct_witness:
  "hash_hex sample \<and> (\<exists>p. proveMembership sample \<lparr>ms_values = [''b'', ''a'', ''c'']\<rparr> (JStr ''b'') = Inr p
     \<and> verifyMembership sample p (JStr (ms_root sample \<lparr>ms_values = [''b'', ''a'', ''c'']\<rparr>)))"
  using proveMembership_correct [OF hash_hex_sample, of "JStr ''b''" "''b''" "\<lparr>ms_values = [''b'', ''a'', ''c'']\<rparr>"]
  by (simp add: normalizeLeafValue_def ms_elems_def hash_hex_sample)

text \<open>
  C4. Soundness of membership proofs: whatever object is accepted against the root of a set names,
  in its \<open>value\<close> field, an element of the set.  The hash is assumed to have no collision among the
  strings hashed for the root and for the verification.
\<close>

theorem verifyMembership_sound:
  assumes "hash_hex N"
    and "verifyMembership N p (JStr (ms_root N m))"
    and "inj_on (sha256Str N) (merkle_texts N (sortedValues m) \<union> proof_texts N p)"
  shows "\<exists>v. getp p ''value'' = JStr v \<and> v \<in> ms_elems m"
  using verifyMembership_sound_aux [OF assms(1) assms(2) [unfolded ms_root_def] assms(3)] by simp

lemma sample_texts: "inj_on (sha256Str sample) (merkle_texts sample [''a'', ''b''])"
proof -
  have "merkle_texts sample [''a'', ''b''] = {leaf_text ''a'', leaf_text ''b'',
      node_text (merkleLeafHash sample ''a'') (merkleLeafHash sample ''b'')}"
    by (auto simp: merkle_texts_def tree_texts.simps)
  moreover have "sha256Str sample (leaf_text ''a'') \<noteq> sha256Str sample (leaf_text ''b'')"
    by (simp add: sha256Str_sample sample_digest_eq_iff poly_eval leaf_text_def)
  moreover have "sha256Str sample (leaf_text ''a'') \<noteq>
      sha256Str sample (node_text (merkleLeafHash sample ''a'') (merkleLeafHash sample ''b''))"
    by (simp add: sample_eval leaf_text_def node_text_def merkleLeafHash_def)
  moreover have "sha256Str sample (leaf_text ''b'') \<noteq>
      sha256Str sample (node_text (merkleLeafHash sample ''a'') (merkleLeafHash sample ''b''))"
    by (simp add: sample_eval leaf_text_def node_text_def merkleLeafHash_def)
  ultimately show ?thesis by (simp add: inj_on_def)
qed

theorem verifyMembership_sound_witness:
  "hash_hex sample \<and> verifyMembership sample (membershipProof sample [''a'', ''b''] 1)
       (JStr (ms_root sample \<lparr>ms_values = [''b'', ''a'']\<rparr>))
     \<and> (\<exists>v. getp (membershipProof sample [''a'', ''b''] 1) ''value'' = JStr v
          \<and> v \<in> ms_elems \<lparr>ms_values = [''b'', ''a'']\<rparr>)"
proof -
  let ?m = "\<lparr>ms_values = [''b'', ''a'']\<rparr>" and ?p = "membershipProof sample [''a'', ''b''] 1"
  have s: "sortedValues ?m = [''a'', ''b'']" by (simp add: sortedValues_def less_eq_char_def)
  have acc: "verifyMembership sample ?p (JStr (ms_root sample ?m))"
    using verifyMembership_membershipProof [OF hash_hex_sample, of 1 "[''a'', ''b'']"]
    by (simp add: ms_root_def s)
  have "merkle_texts sample (sortedValues ?m) \<union> proof_texts sample ?p = merkle_texts sample [''a'', ''b'']"
    using proof_texts_membershipProof [OF hash_hex_sample, of 1 "[''a'', ''b'']"] by (auto simp: s)
  with verifyMembership_sound [OF hash_hex_sample acc] sample_texts acc hash_hex_sample show ?thesis by simp
qed

lemma ms_new_leaves:
  assumes "mapE normalizeLeafValue vs = Inr xs"
  shows "ms_new vs = Inr (ms_of xs)"
proof -
  have "foldE (\<lambda>m v. ms_insert v m) m vs = Inr (fold ms_add xs m)" for m
    using assms by (induction vs arbitrary: xs m) (auto simp: ms_insert_def ebind_Inr_iff)
  then show ?thesis by (simp add: ms_new_def ms_of_def ms_empty_def)
qed

lemma merkleSetRoot_leaves:
  assumes "mapE normalizeLeafValue vs = Inr xs"
  shows "merkleSetRoot N (JArr vs) = Inr (merkleRoot N (sort (set_of xs)))"
proof -
  have "ms_values (fold ms_add xs m) = fold set_add xs (ms_values m)" for m
    by (induction xs arbitrary: m) (simp_all add: ms_add_def)
  with ms_new_leaves [OF assms] show ?thesis
    by (simp add: merkleSetRoot_def ms_root_def sortedValues_def ms_of_def ms_empty_def set_of_def)
qed

text \<open>
  C18. Binding: two arrays with the same Merkle root have the same set of leaves (strings themselves, other
  values by their canonical text), unless the hash collides on the strings hashed for the two roots.
\<close>

theorem merkleSetRoot_binding:
  assumes "hash_hex N" and xs: "mapE normalizeLeafValue vs = Inr xs" and ys: "mapE normalizeLeafValue ws = Inr ys"
    and eq: "merkleSetRoot N (JArr vs) = merkleSetRoot N (JArr ws)"
    and inj: "inj_on (sha256Str N) (merkle_texts N (sort (set_of xs)) \<union> merkle_texts N (sort (set_of ys)))"
  shows "set xs = set ys"
proof -
  have roots: "merkleRoot N (sort (set_of xs)) = merkleRoot N (sort (set_of ys))"
    using eq by (simp add: merkleSetRoot_leaves [OF xs] merkleSetRoot_leaves [OF ys])
  from merkleRoot_subset [OF assms(1) roots inj] merkleRoot_subset [OF assms(1) roots [symmetric]] inj
  show ?thesis by (simp add: Un_commute)
qed

theorem merkleSetRoot_binding_witness:
  "hash_hex sample \<and> merkleSetRoot sample (JArr [JStr ''a'', JStr ''b'']) = merkleSetRoot sample (JArr [JStr ''b'', JStr ''a'', JStr ''b''])
     \<and> set [''a'', ''b''] = set [''b'', ''a'', ''b'']"
proof -
  have s: "sort (set_of [''a'', ''b'']) = [''a'', ''b'']" "sort (set_of [''b'', ''a'', ''b'']) = [''a'', ''b'']"
    by (simp_all add: set_of_def set_add_def less_eq_char_def)
  have leaves: "mapE normalizeLeafValue [JStr ''a'', JStr ''b''] = Inr [''a'', ''b'']"
    "mapE normalizeLeafValue [JStr ''b'', JStr ''a'', JStr ''b''] = Inr [''b'', ''a'', ''b'']" by (simp_all add: normalizeLeafValue_def)
  have eq: "merkleSetRoot sample (JArr [JStr ''a'', JStr ''b'']) = merkleSetRoot sample (JArr [JStr ''b'', JStr ''a'', JStr ''b''])"
    unfolding merkleSetRoot_leaves [OF leaves(1)] merkleSetRoot_leaves [OF leaves(2)] s ..
  have "set [''a'', ''b''] = set [''b'', ''a'', ''b'']"
    by (rule merkleSetRoot_binding [OF hash_hex_sample leaves eq]) (simp add: s sample_texts)
  with eq hash_hex_sample show ?thesis by blast
qed

text \<open>The Merkle root of an array of strings does not depend on order or repetition.\<close>

theorem merkleSetRoot_order_independent:
  assumes "set xs = set ys"
  shows "merkleSetRoot N (JArr (map JStr xs)) = merkleSetRoot N (JArr (map JStr ys))"
  using ms.digest_fold_add [OF ms.wf_empty assms, of N]
  by (simp add: merkleSetRoot_def ms_new_strings)

theorem merkleSetRoot_order_independent_witness:
  "merkleSetRoot sample (JArr (map JStr [''b'', ''a'', ''b'']))
     = merkleSetRoot sample (JArr (map JStr [''a'', ''b'']))"
  by (rule merkleSetRoot_order_independent) auto

text \<open>
  C16. For a value that is not in the set, \<open>proveNonMembership\<close> returns a proof that
  \<open>verifyNonMembership\<close> accepts against the root; for a member it throws the \<open>RangeError\<close> of the code.
\<close>

theorem proveNonMembership_correct:
  assumes "hash_hex N" and "normalizeLeafValue v = Inr s"
  shows "if s \<in> ms_elems m
         then proveNonMembership N m v = Inl (RangeError ''value is already a member of the MerkleSet'')
         else \<exists>p. proveNonMembership N m v = Inr p \<and> verifyNonMembership N p (JStr (ms_root N m))"
  using assms verifyNonMembership_complete [of N "sortedValues m" s]
  by (simp add: proveNonMembership_def ms_root_def)

theorem proveNonMembership_correct_witness:
  "hash_hex sample \<and> (\<exists>p. proveNonMembership sample \<lparr>ms_values = [''c'', ''a'']\<rparr> (JStr ''b'') = Inr p
     \<and> verifyNonMembership sample p (JStr (ms_root sample \<lparr>ms_values = [''c'', ''a'']\<rparr>)))"
  using proveNonMembership_correct [OF hash_hex_sample, of "JStr ''b''" "''b''" "\<lparr>ms_values = [''c'', ''a'']\<rparr>"]
  by (simp add: normalizeLeafValue_def ms_elems_def hash_hex_sample)

text \<open>
  C17. Non-membership proofs can be forged.  For every set with at least three elements, every element
  other than the least and the greatest has an object that \<open>verifyNonMembership\<close> accepts: the
  membership proofs of its two neighbours with the \<open>index\<close> of the second one lowered by one, which
  the verifier does not check against the path.
\<close>

theorem verifyNonMembership_forgeable:
  assumes "hash_hex N" and "ms_wf m" and "0 < j" and "j + 1 < length (sortedValues m)"
  shows "\<exists>p. getp p ''value'' = JStr (sortedValues m ! j) \<and> sortedValues m ! j \<in> ms_elems m
           \<and> verifyNonMembership N p (JStr (ms_root N m))"
proof -
  let ?vs = "sortedValues m"
  let ?succ = "spread2 (membershipProof N ?vs (j + 1)) [(''index'', JInt (int j))]"
  let ?p = "JObj [(''type'', JStr ''non_membership''), (''value'', JStr (?vs ! j)),
      (''size'', JInt (int (length ?vs))), (''root'', JStr (merkleRoot N ?vs)),
      (''predecessor'', membershipProof N ?vs (j - 1)), (''successor'', ?succ)]"
  have less: "?vs ! (j - 1) < ?vs ! j" "?vs ! j < ?vs ! (j + 1)"
    using assms by (auto intro!: sorted_distinct_nth_less)
  have "?succ = JObj [(''type'', JStr ''membership''), (''value'', JStr (?vs ! (j + 1))),
      (''index'', JInt (int j)), (''size'', JInt (int (length ?vs))), (''root'', JStr (merkleRoot N ?vs)),
      (''siblings'', JArr (proof_siblings N (map (merkleLeafHash N) ?vs) (j + 1)))]"
    by (simp add: spread2_def membershipProof_def obj_put_def has_key_def is_array_index_def ch_digit_iff)
  moreover from this have "verifyMembership N ?succ (JStr (merkleRoot N ?vs))"
    using verifyMembership_membershipProof [OF assms(1,4)] assms(3,4)
    by (simp add: verifyMembership_def membershipProof_def isPlainRecord_def obj_get_def split: option.splits)
  moreover have "verifyMembership N (membershipProof N ?vs (j - 1)) (JStr (merkleRoot N ?vs))"
    using assms by (intro verifyMembership_membershipProof) auto
  moreover have "int (j - 1) + 1 = int j" "?vs \<noteq> []" using assms(3,4) by auto
  ultimately have "verifyNonMembership N ?p (JStr (merkleRoot N ?vs))"
    using less assms(4)
    by (simp add: verifyNonMembership_def isPlainRecord_def obj_get_def value_less_def int_eq_def)
  moreover have "?vs ! j \<in> ms_elems m" using assms(4) nth_mem [of j ?vs] by simp
  moreover have "getp ?p ''value'' = JStr (?vs ! j)" by (simp add: obj_get_def)
  ultimately show ?thesis unfolding ms_root_def by blast
qed

theorem verifyNonMembership_forgeable_witness:
  "\<exists>p. getp p ''value'' = JStr ''b'' \<and> verifyNonMembership sample p (JStr (ms_root sample \<lparr>ms_values = [''a'', ''b'', ''c'']\<rparr>))"
proof -
  have s: "sortedValues \<lparr>ms_values = [''a'', ''b'', ''c'']\<rparr> = [''a'', ''b'', ''c'']"
    by (simp add: sortedValues_def less_eq_char_def)
  show ?thesis
    using verifyNonMembership_forgeable [OF hash_hex_sample, of "\<lparr>ms_values = [''a'', ''b'', ''c'']\<rparr>" 1]
    by (auto simp: ms_wf_def s)
qed

text \<open>
  \<open>lowerBound\<close> on a sorted array returns the insertion point: everything before it is smaller than
  the value, nothing from it on is.
\<close>

theorem lowerBound_correct:
  assumes "sorted values"
  shows "lowerBound values v = length (filter (\<lambda>x. x < v) values)"
proof -
  let ?k = "lowerBound values v"
  note lb = lowerBound_props [OF assms, where v = v]
  have "filter (\<lambda>x. x < v) (take ?k values) = take ?k values"
    using lb(2) by (auto simp: filter_id_conv in_set_conv_nth)
  moreover have "filter (\<lambda>x. x < v) (drop ?k values) = []"
    using lb(1,3) by (auto simp: filter_empty_conv in_set_conv_nth not_less)
  ultimately have "filter (\<lambda>x. x < v) values = take ?k values"
    by (metis append_Nil2 append_take_drop_id filter_append)
  with lb(1) show ?thesis by simp
qed

theorem lowerBound_correct_witness:
  "sorted [''a'', ''c'', ''d''] \<and> lowerBound [''a'', ''c'', ''d''] ''b'' = 1"
proof -
  have "sorted [''a'', ''c'', ''d'']" by (simp add: less_eq_char_def)
  with lowerBound_correct [OF this, of "''b''"] show ?thesis by (simp add: less_char_def)
qed

end
