(* ===== verification/Receipts.thy ===== *)
theory Receipts
  imports Merkle_Proofs
begin

text \<open>
  Signed receipts of \<open>packages/core\<close>: \<open>createReceipt\<close>, \<open>verifyReceipt\<close> and their helpers.  An
  options object, an event and a receipt are JavaScript values; a receipt that is created has the
  fields of \<open>receipt_fields\<close> in that order.
\<close>

section \<open>Field tables\<close>

definition RECEIPT_SCHEMA :: string where
  "RECEIPT_SCHEMA = ''enigma.receipt.v1''"

definition receipt_fields :: "string list" where
  "receipt_fields =
     [''schema'', ''receipt_id'', ''event_hash'', ''operation'', ''tenant_id'', ''subject_id'',
      ''memory_addr'', ''source_addr'', ''provider'', ''model'', ''policy_id'', ''sequence'',
      ''previous_receipt_hash'', ''active_set_root'', ''receipt_log_root'', ''timestamp'', ''signer'',
      ''signature'']"

definition RECEIPT_TOP_LEVEL_FIELDS :: "string list" where
  "RECEIPT_TOP_LEVEL_FIELDS =
     [''schema'', ''receipt_id'', ''event_hash'', ''operation'', ''tenant_id'', ''subject_id'',
      ''memory_addr'', ''source_addr'', ''provider'', ''model'', ''policy_id'', ''sequence'',
      ''previous_receipt_hash'', ''active_set_root'', ''receipt_log_root'', ''timestamp'', ''signer'',
      ''signature'']"

definition RECEIPT_SIGNATURE_FIELDS :: "string list" where
  "RECEIPT_SIGNATURE_FIELDS = [''alg'', ''value'']"

definition RECEIPT_PUBLIC_PLAINTEXT_KEYS :: "string list" where
  "RECEIPT_PUBLIC_PLAINTEXT_KEYS =
     [''body'', ''content'', ''plaintext'', ''text'', ''memory'', ''prompt'', ''response'', ''raw_memory'']"

section \<open>Helpers\<close>

text \<open>A fresh object with those of the given fields that are defined, in the given order.\<close>

definition ordered_fields :: "string list \<Rightarrow> jsval \<Rightarrow> jsval" where
  "ordered_fields fs v = JObj (map (\<lambda>f. (f, getp v f)) (filter (\<lambda>f. getp v f \<noteq> JUndef) fs))"

definition orderReceiptFields :: "jsval \<Rightarrow> jsval" where
  "orderReceiptFields receipt = ordered_fields receipt_fields receipt"

definition unsignedReceipt :: "jsval \<Rightarrow> jsval" where
  "unsignedReceipt receipt = orderReceiptFields (omit [''signature''] receipt)"

definition withoutUndefinedFields :: "jsval \<Rightarrow> jsval" where
  "withoutUndefinedFields r = JObj (filter (\<lambda>p. snd p \<noteq> JUndef) (props_of r))"

text \<open>The identifier is derived from the receipt with an empty \<open>receipt_id\<close> and no signature.\<close>

definition receipt_id_of :: "node \<Rightarrow> jsval \<Rightarrow> string res" where
  "receipt_id_of N body =
     ebind (canonicalize (orderReceiptFields (spread2 body [(''receipt_id'', JStr [])]))) (\<lambda>c.
       emap (\<lambda>h. ''rcpt_'' @ take 32 h) (sha256Hex N (JStr c)))"

definition deriveReceiptId :: "node \<Rightarrow> jsval \<Rightarrow> string res" where
  "deriveReceiptId N receipt =
     receipt_id_of N (withoutUndefinedFields (omit [''receipt_id'', ''signature''] receipt))"

definition receiptHash :: "node \<Rightarrow> jsval \<Rightarrow> string res" where
  "receiptHash N receipt = ebind (canonicalize receipt) (\<lambda>c. prefixedSha256 N (JStr c))"

definition safeReceiptHash :: "node \<Rightarrow> jsval \<Rightarrow> string" where
  "safeReceiptHash N receipt =
     (case receiptHash N receipt of
        Inl _ \<Rightarrow> SHA256_PREFIX @ replicate 64 (CHR ''0'')
      | Inr h \<Rightarrow> h)"

definition eventHash :: "node \<Rightarrow> jsval \<Rightarrow> string res" where
  "eventHash N event =
     ebind (canonicalize (omit [''privateKey'', ''signer'', ''signature''] event))
       (\<lambda>c. prefixedSha256 N (JStr c))"

definition key_id_of :: "node \<Rightarrow> string \<Rightarrow> string" where
  "key_id_of N publicKey = ''ed25519:'' @ take 32 (sha256Str N publicKey)"

definition normalizeSigner :: "node \<Rightarrow> jsval \<Rightarrow> jsval \<Rightarrow> jsval \<Rightarrow> jsval res" where
  "normalizeSigner N signer keyId privateKey =
     (if isPlainRecord signer then
        emap (\<lambda>k. JObj [(''key_id'', JStr k), (''alg'', coals signer [''alg''] (JStr ED25519))])
          (requiredString (pick signer [''key_id'', ''keyId'']) ''signer.key_id'')
      else if keyId \<noteq> JUndef then
        emap (\<lambda>k. JObj [(''key_id'', JStr k), (''alg'', JStr ED25519)]) (requiredString keyId ''signer.key_id'')
      else if privateKey \<noteq> JUndef then
        emap (\<lambda>pem. JObj [(''key_id'', JStr (key_id_of N pem)), (''alg'', JStr ED25519)]) (nd_spki N privateKey)
      else Inl (TypeError ''signer or key_id is required''))"

definition normalizeReceiptSignature :: "jsval \<Rightarrow> jsval res" where
  "normalizeReceiptSignature signature =
     (if \<not> isPlainRecord signature then Inl (TypeError ''signature must be an object'')
      else emap (\<lambda>s. JObj [(''alg'', coals signature [''alg''] (JStr ED25519)), (''value'', JStr s)])
             (requiredString (getp signature ''value'') ''signature.value''))"

definition normalizeCreateReceiptArgs :: "jsval \<Rightarrow> jsval \<Rightarrow> jsval" where
  "normalizeCreateReceiptArgs receiptOrArgs maybeOptions =
     (if isPlainRecord receiptOrArgs \<and> (hasOwn receiptOrArgs ''event'' \<or> hasOwn receiptOrArgs ''privateKey'')
      then receiptOrArgs
      else spread2 maybeOptions [(''event'', receiptOrArgs)])"

definition normalizeVerifyReceiptArgs :: "jsval \<Rightarrow> jsval \<Rightarrow> jsval \<Rightarrow> jsval \<times> jsval" where
  "normalizeVerifyReceiptArgs receiptOrArgs maybePublicKey maybeOptions =
     (if isPlainRecord receiptOrArgs \<and> hasOwn receiptOrArgs ''receipt''
      then (getp receiptOrArgs ''receipt'', receiptOrArgs)
      else (receiptOrArgs, JObj (obj_puts (props_of maybeOptions) [(''publicKey'', maybePublicKey)])))"

definition copyOptional :: "jsval \<Rightarrow> jsval \<Rightarrow> string \<Rightarrow> string \<Rightarrow> props \<Rightarrow> props" where
  "copyOptional options source snake camel target =
     (let value = coal (getp options snake) (coal (getp options camel)
                    (coal (getp source snake) (getp source camel)))
      in if value \<noteq> JUndef then obj_put snake value target else target)"

definition resolvePublicKey :: "node \<Rightarrow> jsval \<Rightarrow> jsval \<Rightarrow> jsval" where
  "resolvePublicKey N keyId options =
     (if getp options ''publicKey'' \<noteq> JUndef then getp options ''publicKey''
      else
       (let publicKeys = pick options [''publicKeys'', ''keyring'', ''keys'']
        in if publicKeys = JUndef \<or> keyId = JUndef then JUndef
           else case publicKeys of
                  JFun \<Rightarrow> nd_keyring N publicKeys keyId
                | JInst c ps \<Rightarrow> if c = ''Map'' then nd_keyring N publicKeys keyId
                                else getp publicKeys (js_String keyId)
                | JObj ps \<Rightarrow> getp publicKeys (js_String keyId)
                | _ \<Rightarrow> JUndef))"

section \<open>Creation\<close>

definition receipt_body ::
  "node \<Rightarrow> jsval \<Rightarrow> jsval \<Rightarrow> jsval res" where
  "receipt_body N options source =
     ebind (requiredInteger (coal (getp options ''sequence'') (getp source ''sequence'')) ''sequence'') (\<lambda>sequence.
     ebind (normalizePreviousHash (coals options [''previous_receipt_hash'', ''previousReceiptHash'']
              (if js_eq sequence (JInt 0) then JStr GENESIS else JUndef))) (\<lambda>previous_receipt_hash.
     ebind (let e = coals options [''event_hash'', ''eventHash''] (getp source ''event_hash'')
            in if nullish e then emap JStr (eventHash N source) else Inr e) (\<lambda>e.
     ebind (normalizeSha256Root e ''event_hash'') (\<lambda>event_hash.
     ebind (normalizeSha256Root (coals options [''active_set_root'', ''activeSetRoot'']
              (JStr (EMPTY_MERKLE_ROOT N))) ''active_set_root'') (\<lambda>active_set_root.
     ebind (normalizeSha256Root (coals options [''receipt_log_root'', ''receiptLogRoot'']
              (JStr (EMPTY_MERKLE_ROOT N))) ''receipt_log_root'') (\<lambda>receipt_log_root.
     ebind (requiredString (coal (getp options ''operation'') (getp source ''operation'')) ''operation'') (\<lambda>operation.
     ebind (requiredString (coal (getp options ''timestamp'') (coals source [''timestamp''] (JStr (nd_now N))))
              ''timestamp'') (\<lambda>timestamp.
     ebind (normalizeSigner N (getp options ''signer'') (pick options [''key_id'', ''keyId''])
              (getp options ''privateKey'')) (\<lambda>signer.
     ebind (requiredString (coals options [''tenant_id'', ''tenantId''] (pick source [''tenant_id'', ''tenantId'']))
              ''tenant_id'') (\<lambda>tenant_id.
     ebind (requiredString (coals options [''subject_id'', ''subjectId''] (pick source [''subject_id'', ''subjectId'']))
              ''subject_id'') (\<lambda>subject_id.
     Inr (JObj
       (copyOptional options source ''policy_id'' ''policyId''
       (copyOptional options source ''model'' ''model''
       (copyOptional options source ''provider'' ''provider''
       (copyOptional options source ''source_addr'' ''sourceAddr''
       (copyOptional options source ''memory_addr'' ''memoryAddr''
         [(''schema'', JStr RECEIPT_SCHEMA), (''event_hash'', JStr event_hash),
          (''operation'', JStr operation), (''tenant_id'', JStr tenant_id),
          (''subject_id'', JStr subject_id), (''sequence'', sequence),
          (''previous_receipt_hash'', JStr previous_receipt_hash),
          (''active_set_root'', JStr active_set_root), (''receipt_log_root'', JStr receipt_log_root),
          (''timestamp'', JStr timestamp), (''signer'', signer)])))))))))))))))))"

definition createReceipt :: "node \<Rightarrow> jsval \<Rightarrow> jsval \<Rightarrow> jsval res" where
  "createReceipt N receiptOrArgs maybeOptions =
     (let options = normalizeCreateReceiptArgs receiptOrArgs maybeOptions;
          source = coal (getp options ''event'') options
      in ebind (receipt_body N options source) (\<lambda>body.
         ebind (let i = pick options [''receipt_id'', ''receiptId'']
                in if nullish i then emap JStr (receipt_id_of N body) else Inr i) (\<lambda>receipt_id.
         let unsigned = orderReceiptFields (spread2 body [(''receipt_id'', receipt_id)])
         in ebind (if nullish (getp options ''signature'')
                   then emap (\<lambda>s. JObj [(''alg'', JStr ED25519), (''value'', JStr s)])
                          (signPayload N (JObj [(''payload'', unsigned), (''privateKey'', getp options ''privateKey'')]) JUndef)
                   else Inr (getp options ''signature'')) (\<lambda>signature.
            ebind (normalizeReceiptSignature signature) (\<lambda>sg.
            Inr (orderReceiptFields (spread2 unsigned [(''signature'', sg)])))))))"

section \<open>Verification\<close>

definition validateReceiptShape :: "jsval \<Rightarrow> string list" where
  "validateReceiptShape receipt =
     concat (map (\<lambda>key.
       push_if (key \<notin> set RECEIPT_TOP_LEVEL_FIELDS) (''unknown receipt field: '' @ key) @
       push_if (key \<in> set RECEIPT_PUBLIC_PLAINTEXT_KEYS)
         (''receipt must not contain public plaintext field: '' @ key)) (keys_of receipt)) @
     (if isPlainRecord (getp receipt ''signature'') then
        concat (map (\<lambda>key. push_if (key \<notin> set RECEIPT_SIGNATURE_FIELDS) (''unknown signature field: '' @ key))
          (keys_of (getp receipt ''signature'')))
      else [])"

definition receipt_errors :: "node \<Rightarrow> jsval \<Rightarrow> jsval \<Rightarrow> string list" where
  "receipt_errors N receipt options =
     (let signer = getp receipt ''signer''; signature = getp receipt ''signature'';
          expectedSigner = pick options [''expectedSignerKeyId'', ''expectedSigner'', ''signer_key_id''];
          publicKey = resolvePublicKey N (getp signer ''key_id'') options
      in validateReceiptShape receipt @
         push_if (getp receipt ''schema'' \<noteq> JStr RECEIPT_SCHEMA) ''schema mismatch'' @
         push_if (\<not> isPlainRecord signer \<or> getp signer ''alg'' \<noteq> JStr ED25519 \<or> \<not> truthy (getp signer ''key_id''))
           ''signer mismatch'' @
         push_if (\<not> isPlainRecord signature \<or> getp signature ''alg'' \<noteq> JStr ED25519 \<or> \<not> truthy (getp signature ''value''))
           ''signature missing'' @
         push_if (as_count (getp receipt ''sequence'') = None) ''sequence must be a non-negative integer'' @
         push_if (\<not> isSha256Root (getp receipt ''event_hash'')) ''event_hash must be a sha256 root'' @
         push_if (\<not> isSha256Root (getp receipt ''active_set_root'')) ''active_set_root must be a sha256 root'' @
         push_if (\<not> isSha256Root (getp receipt ''receipt_log_root'')) ''receipt_log_root must be a sha256 root'' @
         push_if (\<not> isPreviousHash (getp receipt ''previous_receipt_hash'')) ''previous_receipt_hash mismatch'' @
         push_if (expectedSigner \<noteq> JUndef \<and> \<not> js_eq (getp signer ''key_id'') expectedSigner) ''wrong signer'' @
         push_if (case deriveReceiptId N receipt of Inl _ \<Rightarrow> True | Inr i \<Rightarrow> getp receipt ''receipt_id'' \<noteq> JStr i)
           ''receipt_id mismatch'' @
         (if publicKey = JUndef then [''missing public key'']
          else push_if (\<not> verifySignature N (JObj [(''payload'', unsignedReceipt receipt), (''signature'', signature),
                 (''publicKey'', publicKey)]) JUndef JUndef) ''signature mismatch''))"

definition verifyReceipt :: "node \<Rightarrow> jsval \<Rightarrow> jsval \<Rightarrow> jsval \<Rightarrow> jsval" where
  "verifyReceipt N receiptOrArgs maybePublicKey maybeOptions =
     (let (receipt, options) = normalizeVerifyReceiptArgs receiptOrArgs maybePublicKey maybeOptions
      in if \<not> isPlainRecord receipt then verificationResult False [''receipt must be an object''] []
         else
          (let errors = receipt_errors N receipt options
           in verificationResult (errors = []) errors
                [(''receipt_hash'', JStr (safeReceiptHash N receipt)),
                 (''signer_key_id'', getp (getp receipt ''signer'') ''key_id'')]))"

section \<open>Field-wise reasoning\<close>

lemma obj_get_map_fields:
  "obj_get (map (\<lambda>f. (f, g f)) fs) f = (if f \<in> set fs then g f else JUndef)"
  by (induction fs) (auto simp: obj_get_Cons)

lemma getp_ordered_fields [simp]: "getp (ordered_fields fs v) f = (if f \<in> set fs then getp v f else JUndef)"
  by (simp add: ordered_fields_def obj_get_map_fields)

lemma plain_obj_ordered_fields: "distinct fs \<Longrightarrow> plain_obj (ordered_fields fs v)"
  by (simp add: ordered_fields_def comp_def)

lemma ordered_fields_cong:
  "(\<And>f. f \<in> set fs \<Longrightarrow> getp v f = getp w f) \<Longrightarrow> ordered_fields fs v = ordered_fields fs w"
  by (auto simp: ordered_fields_def intro!: arg_cong [where f = JObj] map_cong filter_cong)

lemma keys_ordered_fields: "set (keys_of (ordered_fields fs v)) \<subseteq> set fs"
  by (auto simp: ordered_fields_def keys_of_def)

lemma distinct_receipt_fields [simp]: "distinct receipt_fields"
  by (simp add: receipt_fields_def)

lemma plain_obj_orderReceiptFields [simp]: "plain_obj (orderReceiptFields v)"
  by (simp add: orderReceiptFields_def plain_obj_ordered_fields)

lemma getp_orderReceiptFields [simp]:
  "getp (orderReceiptFields v) f = (if f \<in> set receipt_fields then getp v f else JUndef)"
  by (simp add: orderReceiptFields_def)

lemma getp_withoutUndefinedFields:
  "plain_obj v \<Longrightarrow> getp (withoutUndefinedFields v) k = getp v k"
  by (auto simp: plain_obj_def withoutUndefinedFields_def obj_get_filter_defined)

lemma plain_obj_withoutUndefinedFields: "plain_obj v \<Longrightarrow> plain_obj (withoutUndefinedFields v)"
  by (auto simp: plain_obj_def withoutUndefinedFields_def intro: distinct_map_filter)

lemma getp_unsignedReceipt:
  "plain_obj r \<Longrightarrow> getp (unsignedReceipt r) f
     = (if f \<in> set receipt_fields \<and> f \<noteq> ''signature'' then getp r f else JUndef)"
  by (simp add: unsignedReceipt_def getp_omit)

lemma obj_get_copyOptional:
  "f \<noteq> snake \<Longrightarrow> obj_get (copyOptional opts src snake camel t) f = obj_get t f"
  by (simp add: copyOptional_def Let_def obj_get_put)

lemma distinct_copyOptional:
  "distinct (map fst t) \<Longrightarrow> distinct (map fst (copyOptional opts src snake camel t))"
  by (simp add: copyOptional_def Let_def distinct_obj_put)

text \<open>What the body of a new receipt looks like.\<close>

definition body_ok :: "jsval \<Rightarrow> bool" where
  "body_ok b = (plain_obj b
     \<and> getp b ''schema'' = JStr RECEIPT_SCHEMA
     \<and> isSha256Root (getp b ''event_hash'') \<and> isSha256Root (getp b ''active_set_root'')
     \<and> isSha256Root (getp b ''receipt_log_root'') \<and> isPreviousHash (getp b ''previous_receipt_hash'')
     \<and> as_count (getp b ''sequence'') \<noteq> None
     \<and> getp b ''receipt_id'' = JUndef \<and> getp b ''signature'' = JUndef
     \<and> (\<exists>k a. getp b ''signer'' = JObj [(''key_id'', JStr k), (''alg'', a)] \<and> k \<noteq> []))"

lemma isSha256Root_JStr [simp]: "isSha256Root (JStr s) \<longleftrightarrow> rx_full ROOT_RE s"
  by (simp add: isSha256Root_def)

lemma normalizeSigner_Inr:
  "normalizeSigner N sr k p = Inr s \<Longrightarrow>
     \<exists>k a. s = JObj [(''key_id'', JStr k), (''alg'', a)] \<and> k \<noteq> []
        \<and> (a = JStr ED25519 \<or> a = getp sr ''alg'')"
  by (auto simp: normalizeSigner_def res_simps requiredString_Inr key_id_of_def coal_def split: if_splits)

lemma receipt_body_ok:
  assumes "receipt_body N opts src = Inr b"
  shows "body_ok b"
  using assms
  by (auto simp: receipt_body_def res_simps body_ok_def obj_get_copyOptional obj_get_Cons distinct_copyOptional
      requiredInteger_Inr
      dest: normalizeSha256Root_root normalizePreviousHash_ok normalizeSigner_Inr)

section \<open>The shape of a created receipt\<close>

definition signed_receipt :: "jsval \<Rightarrow> jsval \<Rightarrow> jsval \<Rightarrow> jsval" where
  "signed_receipt b i sg =
     orderReceiptFields (spread2 (orderReceiptFields (spread2 b [(''receipt_id'', i)])) [(''signature'', sg)])"

lemma has_key_single [simp]: "has_key [(k, v)] k' \<longleftrightarrow> k' = k"
  by (simp add: has_key_def)

lemma special_fields [simp]: "''receipt_id'' \<in> set receipt_fields" "''signature'' \<in> set receipt_fields"
  by (simp_all add: receipt_fields_def)

lemma getp_unsigned_body:
  "plain_obj b \<Longrightarrow> getp (orderReceiptFields (spread2 b [(''receipt_id'', i)])) f
     = (if f = ''receipt_id'' then i else if f \<in> set receipt_fields then getp b f else JUndef)"
  by (auto simp: getp_spread2 obj_get_Cons)

lemma getp_signed_receipt:
  "plain_obj b \<Longrightarrow> getp (signed_receipt b i sg) f
     = (if f = ''signature'' then sg else if f = ''receipt_id'' then i
        else if f \<in> set receipt_fields then getp b f else JUndef)"
  unfolding signed_receipt_def
  by (auto simp: getp_spread2 getp_unsigned_body obj_get_Cons simp del: getp_orderReceiptFields
      simp: orderReceiptFields_def [of "spread2 (orderReceiptFields _) _"])

lemma plain_obj_signed_receipt [simp]: "plain_obj (signed_receipt b i sg)"
  by (simp add: signed_receipt_def)

lemma unsignedReceipt_signed:
  assumes "plain_obj b" "getp b ''signature'' = JUndef"
  shows "unsignedReceipt (signed_receipt b i sg) = orderReceiptFields (spread2 b [(''receipt_id'', i)])"
  unfolding unsignedReceipt_def orderReceiptFields_def
  by (rule ordered_fields_cong) (use assms in \<open>auto simp: getp_omit getp_signed_receipt getp_spread2 obj_get_Cons\<close>)

lemma deriveReceiptId_signed:
  assumes "plain_obj b" "getp b ''signature'' = JUndef"
  shows "deriveReceiptId N (signed_receipt b i sg) = receipt_id_of N b"
proof -
  let ?w = "withoutUndefinedFields (omit [''receipt_id'', ''signature''] (signed_receipt b i sg))"
  have "orderReceiptFields (spread2 ?w [(''receipt_id'', JStr [])]) = orderReceiptFields (spread2 b [(''receipt_id'', JStr [])])"
    unfolding orderReceiptFields_def
    by (rule ordered_fields_cong)
      (use assms in \<open>auto simp: getp_omit getp_signed_receipt getp_spread2 obj_get_Cons
        getp_withoutUndefinedFields plain_obj_omit plain_obj_withoutUndefinedFields\<close>)
  then show ?thesis by (simp add: deriveReceiptId_def receipt_id_of_def)
qed

lemma createReceipt_Inr:
  assumes "createReceipt N a m = Inr r" and "opts = normalizeCreateReceiptArgs a m"
    and "nullish (pick opts [''receipt_id'', ''receiptId''])" and "nullish (getp opts ''signature'')"
  shows "\<exists>b i s. receipt_body N opts (coal (getp opts ''event'') opts) = Inr b \<and> receipt_id_of N b = Inr i
     \<and> sign_bytes N (orderReceiptFields (spread2 b [(''receipt_id'', JStr i)])) (getp opts ''privateKey'') = Inr s
     \<and> s \<noteq> []
     \<and> r = signed_receipt b (JStr i) (JObj [(''alg'', JStr ED25519), (''value'', JStr s)])"
proof -
  have n: "normalizeReceiptSignature (JObj [(''alg'', JStr ED25519), (''value'', JStr s)]) = Inr sg
      \<longleftrightarrow> s \<noteq> [] \<and> sg = JObj [(''alg'', JStr ED25519), (''value'', JStr s)]" for s sg
    by (auto simp: normalizeReceiptSignature_def isPlainRecord_def res_simps requiredString_Inr obj_get_Cons)
  from assms(1,3,4) show ?thesis
    by (auto simp: createReceipt_def Let_def res_simps assms(2) [symmetric] n signed_receipt_def)
qed

section \<open>What a successful verification means\<close>

lemma concat_push_if_Nil: "concat (map f xs) = [] \<longleftrightarrow> (\<forall>x \<in> set xs. f x = [])"
  by auto

lemma validateReceiptShape_Nil:
  "validateReceiptShape r = [] \<longleftrightarrow>
     set (keys_of r) \<subseteq> set receipt_fields
     \<and> (isPlainRecord (getp r ''signature'') \<longrightarrow> set (keys_of (getp r ''signature'')) \<subseteq> {''alg'', ''value''})"
proof -
  have "RECEIPT_TOP_LEVEL_FIELDS = receipt_fields"
    by (simp add: RECEIPT_TOP_LEVEL_FIELDS_def receipt_fields_def)
  moreover have "set receipt_fields \<inter> set RECEIPT_PUBLIC_PLAINTEXT_KEYS = {}"
    by (simp add: receipt_fields_def RECEIPT_PUBLIC_PLAINTEXT_KEYS_def)
  ultimately show ?thesis
    by (auto simp: validateReceiptShape_def concat_push_if_Nil RECEIPT_SIGNATURE_FIELDS_def)
qed

definition receipt_valid :: "node \<Rightarrow> jsval \<Rightarrow> jsval \<Rightarrow> bool" where
  "receipt_valid N r pub =
     (set (keys_of r) \<subseteq> set receipt_fields
      \<and> getp r ''schema'' = JStr RECEIPT_SCHEMA
      \<and> isPlainRecord (getp r ''signer'') \<and> getp (getp r ''signer'') ''alg'' = JStr ED25519
      \<and> truthy (getp (getp r ''signer'') ''key_id'')
      \<and> isPlainRecord (getp r ''signature'') \<and> set (keys_of (getp r ''signature'')) \<subseteq> {''alg'', ''value''}
      \<and> getp (getp r ''signature'') ''alg'' = JStr ED25519 \<and> truthy (getp (getp r ''signature'') ''value'')
      \<and> as_count (getp r ''sequence'') \<noteq> None
      \<and> isSha256Root (getp r ''event_hash'') \<and> isSha256Root (getp r ''active_set_root'')
      \<and> isSha256Root (getp r ''receipt_log_root'') \<and> isPreviousHash (getp r ''previous_receipt_hash'')
      \<and> (\<exists>i. deriveReceiptId N r = Inr i \<and> getp r ''receipt_id'' = JStr i)
      \<and> pub \<noteq> JUndef \<and> verify_bytes N (unsignedReceipt r) (getp r ''signature'') pub)"

lemma derive_matches:
  "(case m of Inl _ \<Rightarrow> True | Inr i \<Rightarrow> v \<noteq> JStr i) \<longleftrightarrow> \<not> (\<exists>i. m = Inr i \<and> v = JStr i)"
  by (cases m) auto

lemma receipt_errors_Nil:
  "receipt_errors N r opts = [] \<longleftrightarrow>
     receipt_valid N r (resolvePublicKey N (getp (getp r ''signer'') ''key_id'') opts)
     \<and> (let e = pick opts [''expectedSignerKeyId'', ''expectedSigner'', ''signer_key_id'']
        in e = JUndef \<or> js_eq (getp (getp r ''signer'') ''key_id'') e)"
  unfolding receipt_errors_def receipt_valid_def Let_def derive_matches
  by (auto simp: validateReceiptShape_Nil)

lemma verifyReceipt_receipt:
  assumes "\<not> hasOwn r ''receipt''"
  shows "getp (verifyReceipt N r pub opts) ''ok''
    = JBool (isPlainRecord r \<and> receipt_errors N r (JObj (obj_puts (props_of opts) [(''publicKey'', pub)])) = [])"
  using assms by (simp add: verifyReceipt_def normalizeVerifyReceiptArgs_def Let_def getp_verificationResult)

lemma verifyReceipt_simple:
  assumes "\<not> hasOwn r ''receipt''" "pub \<noteq> JUndef"
  shows "getp (verifyReceipt N r pub (JObj [])) ''ok'' = JBool (isPlainRecord r \<and> receipt_valid N r pub)"
  using assms by (simp add: verifyReceipt_receipt receipt_errors_Nil obj_get_Cons resolvePublicKey_def)

lemma receipt_not_field: "''receipt'' \<notin> set receipt_fields"
  by (simp add: receipt_fields_def)

lemma hasOwn_signed: "hasOwn (signed_receipt b i sg) k \<Longrightarrow> k \<in> set receipt_fields"
  using keys_ordered_fields by (auto simp: hasOwn_def signed_receipt_def orderReceiptFields_def)

lemma core_fields [simp]:
  "''schema'' \<in> set receipt_fields" "''signer'' \<in> set receipt_fields" "''sequence'' \<in> set receipt_fields"
  "''event_hash'' \<in> set receipt_fields" "''active_set_root'' \<in> set receipt_fields"
  "''receipt_log_root'' \<in> set receipt_fields" "''previous_receipt_hash'' \<in> set receipt_fields"
  by (simp_all add: receipt_fields_def)

lemma receipt_body_signer:
  assumes "receipt_body N opts src = Inr b"
  shows "\<exists>k a. getp b ''signer'' = JObj [(''key_id'', JStr k), (''alg'', a)] \<and> k \<noteq> []
     \<and> (a = JStr ED25519 \<or> a = coals (getp opts ''signer'') [''alg''] (JStr ED25519))"
  using assms
  by (auto simp: receipt_body_def res_simps obj_get_copyOptional obj_get_Cons normalizeSigner_def
      requiredString_Inr key_id_of_def split: if_splits)

lemma signed_receipt_valid:
  fixes s :: string
  defines "sg \<equiv> JObj [(''alg'', JStr ED25519), (''value'', JStr s)]"
  assumes "body_ok b" and "getp (getp b ''signer'') ''alg'' = JStr ED25519"
    and "receipt_id_of N b = Inr i" and "s \<noteq> []" and "pub \<noteq> JUndef"
    and "verify_bytes N (orderReceiptFields (spread2 b [(''receipt_id'', JStr i)])) sg pub"
  shows "receipt_valid N (signed_receipt b (JStr i) sg) pub"
proof -
  have b: "plain_obj b" "getp b ''signature'' = JUndef" using assms(2) by (simp_all add: body_ok_def)
  have "verify_bytes N (unsignedReceipt (signed_receipt b (JStr i) sg)) sg pub"
    unfolding unsignedReceipt_signed [OF b] by (rule assms(7))
  moreover have "set (keys_of (signed_receipt b (JStr i) sg)) \<subseteq> set receipt_fields"
    using hasOwn_signed by (auto simp: hasOwn_def)
  ultimately show ?thesis
    using assms(2-6) b by (auto simp: receipt_valid_def getp_signed_receipt deriveReceiptId_signed body_ok_def
        isPlainRecord_def obj_get_Cons keys_of_def sg_def)
qed

lemma verifyReceipt_signed:
  assumes "receipt_valid N (signed_receipt b i sg) pub" and "pub \<noteq> JUndef"
  shows "getp (verifyReceipt N (signed_receipt b i sg) pub (JObj [])) ''ok'' = JBool True"
proof -
  have "\<not> hasOwn (signed_receipt b i sg) ''receipt''" using hasOwn_signed receipt_not_field by blast
  moreover have "isPlainRecord (signed_receipt b i sg)"
    by (simp add: signed_receipt_def orderReceiptFields_def ordered_fields_def isPlainRecord_def)
  ultimately show ?thesis using assms by (simp add: verifyReceipt_simple)
qed

lemma jsonable_ordered_fields:
  "distinct fs \<Longrightarrow> (\<And>f. f \<in> set fs \<Longrightarrow> getp v f \<noteq> JUndef \<Longrightarrow> jsonable (getp v f)) \<Longrightarrow> jsonable (ordered_fields fs v)"
  by (auto simp: ordered_fields_def comp_def)

lemma jsonable_plain_obj: "jsonable v \<Longrightarrow> isPlainRecord v \<Longrightarrow> plain_obj v"
  by (cases v) (auto simp: isPlainRecord_def)

lemma jsonable_unsignedReceipt:
  assumes "jsonable r" "isPlainRecord r"
  shows "jsonable (unsignedReceipt r)"
proof -
  from assms obtain ps where ps: "r = JObj ps" by (cases r) (auto simp: isPlainRecord_def)
  show ?thesis unfolding unsignedReceipt_def orderReceiptFields_def
    by (rule jsonable_ordered_fields)
      (use assms jsonable_plain_obj [OF assms] in \<open>auto simp: getp_omit ps intro: jsonable_getp split: if_splits\<close>)
qed

lemma verify_bytes_obj:
  assumes "verify_bytes N (JObj ps) sg pub"
  shows "\<exists>c s. canonicalize (JObj ps) = Inr c \<and> nd_verify N (utf8 c) pub s = Inr True"
  using assms by (auto simp: verify_bytes_def bytesForSigning_def res_simps split: if_splits sum.splits)

lemma canonicalize_jsonable: "jsonable v \<Longrightarrow> \<exists>c. canonicalize v = Inr c"
  by (simp add: canonicalize_def canonicalize_pr)

lemma jsonable_unsigned_body:
  assumes "jsonable b" "plain_obj b" "jsonable i"
  shows "jsonable (orderReceiptFields (spread2 b [(''receipt_id'', i)]))"
  unfolding orderReceiptFields_def
proof (rule jsonable_ordered_fields)
  from assms(2) obtain ps where "b = JObj ps" by (auto simp: plain_obj_def)
  with assms show "jsonable (getp (spread2 b [(''receipt_id'', i)]) f)"
    if "getp (spread2 b [(''receipt_id'', i)]) f \<noteq> JUndef" for f
    using that by (auto simp: getp_spread2 obj_get_Cons intro: jsonable_getp split: if_splits)
qed simp

lemma jsonable_signed_receipt:
  assumes "jsonable b" "plain_obj b" "jsonable i" "jsonable sg"
  shows "jsonable (signed_receipt b i sg)"
proof -
  from assms(2) obtain ps where ps: "b = JObj ps" by (auto simp: plain_obj_def)
  let ?w = "spread2 (orderReceiptFields (spread2 b [(''receipt_id'', i)])) [(''signature'', sg)]"
  have "jsonable (getp ?w f)" if "f \<in> set receipt_fields" "getp ?w f \<noteq> JUndef" for f
  proof -
    have "getp ?w f = getp (signed_receipt b i sg) f" using that(1) by (simp add: signed_receipt_def)
    with that assms ps jsonable_getp show ?thesis by (auto simp: getp_signed_receipt split: if_splits)
  qed
  then show ?thesis unfolding signed_receipt_def orderReceiptFields_def [of ?w]
    by (intro jsonable_ordered_fields) simp_all
qed

lemma isPlainRecord_signed: "isPlainRecord (signed_receipt b i sg)"
  by (simp add: signed_receipt_def orderReceiptFields_def ordered_fields_def isPlainRecord_def)

lemma createReceipt_total:
  assumes "options = normalizeCreateReceiptArgs args m"
    and "receipt_body N options (coal (getp options ''event'') options) = Inr b" and "jsonable b"
    and "nullish (pick options [''receipt_id'', ''receiptId''])" and "nullish (getp options ''signature'')"
    and "key_pair_ok N (getp options ''privateKey'') pub" and "getp options ''privateKey'' \<noteq> JUndef"
  shows "\<exists>i s. receipt_id_of N b = Inr i
     \<and> createReceipt N args m = Inr (signed_receipt b (JStr i) (JObj [(''alg'', JStr ED25519), (''value'', JStr s)]))"
proof -
  have b: "plain_obj b" using receipt_body_ok [OF assms(2)] by (simp add: body_ok_def)
  note js = jsonable_unsigned_body [OF assms(3) b]
  obtain i where i: "receipt_id_of N b = Inr i"
    using canonicalize_jsonable [OF js [of "JStr []"]] by (auto simp: receipt_id_of_def)
  obtain c where "canonicalize (orderReceiptFields (spread2 b [(''receipt_id'', JStr i)])) = Inr c"
    using canonicalize_jsonable [OF js [of "JStr i"]] by auto
  moreover obtain s where "nd_sign N (utf8 c) (getp options ''privateKey'') = Inr s" "nd_b64url N s \<noteq> []"
    using assms(6) unfolding key_pair_ok_def by blast
  ultimately have "sign_bytes N (orderReceiptFields (spread2 b [(''receipt_id'', JStr i)])) (getp options ''privateKey'')
      = Inr (nd_b64url N s)" "nd_b64url N s \<noteq> []"
    using assms(7) by (simp_all add: sign_bytes_def bytesForSigning_def orderReceiptFields_def ordered_fields_def)
  with assms i show ?thesis
    by (auto simp: createReceipt_def Let_def signed_receipt_def normalizeReceiptSignature_def isPlainRecord_def
        requiredString_def obj_get_Cons)
qed

definition sample_event_hash :: string where
  "sample_event_hash = SHA256_PREFIX @ sha256Str sample ''event''"

definition sample_receipt_args :: jsval where
  "sample_receipt_args = JObj [(''privateKey'', JStr ''k''), (''key_id'', JStr ''key-1''), (''sequence'', JInt 0),
     (''event_hash'', JStr sample_event_hash), (''operation'', JStr ''remember''),
     (''tenant_id'', JStr ''t''), (''subject_id'', JStr ''s''), (''timestamp'', JStr ''2026-01-01T00:00:00Z'')]"

definition sample_body :: jsval where
  "sample_body = JObj [(''schema'', JStr RECEIPT_SCHEMA), (''event_hash'', JStr sample_event_hash),
          (''operation'', JStr ''remember''), (''tenant_id'', JStr ''t''),
          (''subject_id'', JStr ''s''), (''sequence'', JInt 0),
          (''previous_receipt_hash'', JStr GENESIS),
          (''active_set_root'', JStr (EMPTY_MERKLE_ROOT sample)), (''receipt_log_root'', JStr (EMPTY_MERKLE_ROOT sample)),
          (''timestamp'', JStr ''2026-01-01T00:00:00Z''),
          (''signer'', JObj [(''key_id'', JStr ''key-1''), (''alg'', JStr ED25519)])]"

lemma sample_args_options: "normalizeCreateReceiptArgs sample_receipt_args m = sample_receipt_args"
  by (simp add: normalizeCreateReceiptArgs_def sample_receipt_args_def isPlainRecord_def hasOwn_def keys_of_def)

lemma sample_roots:
  "normalizeSha256Root (JStr sample_event_hash) f = Inr sample_event_hash"
  "normalizeSha256Root (JStr (EMPTY_MERKLE_ROOT sample)) f = Inr (EMPTY_MERKLE_ROOT sample)"
  by (simp_all add: normalizeSha256Root_idem sample_event_hash_def EMPTY_MERKLE_ROOT_def hash_hex_sample)

lemma sample_receipt_body: "receipt_body sample sample_receipt_args sample_receipt_args = Inr sample_body"
  by (simp add: receipt_body_def sample_receipt_args_def obj_get_Cons requiredInteger_def js_eq_def num_eq_def
      normalizePreviousHash_def sample_roots requiredString_def normalizeSigner_def isPlainRecord_def
      copyOptional_def sample_body_def)

lemma sample_receipt_created:
  "\<exists>i s. createReceipt sample sample_receipt_args m
     = Inr (signed_receipt sample_body (JStr i) (JObj [(''alg'', JStr ED25519), (''value'', JStr s)]))"
proof -
  have "coal (getp sample_receipt_args ''event'') sample_receipt_args = sample_receipt_args"
    by (simp add: sample_receipt_args_def obj_get_Cons)
  then show ?thesis
    using createReceipt_total [OF sample_args_options [symmetric, of m], of sample sample_body]
      sample_receipt_body key_pair_ok_sample
    by (auto simp: sample_receipt_args_def obj_get_Cons sample_body_def)
qed

text \<open>
  C13. A receipt made by \<open>createReceipt\<close> with a signing key, no caller-chosen identifier or signature
  and the algorithm Ed25519 passes \<open>verifyReceipt\<close> under the matching public key.
\<close>

theorem createReceipt_verifies:
  assumes "createReceipt N args m = Inr r" and "options = normalizeCreateReceiptArgs args m"
    and "nullish (pick options [''receipt_id'', ''receiptId''])" and "nullish (getp options ''signature'')"
    and "coals (getp options ''signer'') [''alg''] (JStr ED25519) = JStr ED25519"
    and "key_pair_ok N (getp options ''privateKey'') pub" and "pub \<noteq> JUndef"
  shows "getp (verifyReceipt N r pub (JObj [])) ''ok'' = JBool True"
proof -
  obtain b i s where b: "receipt_body N options (coal (getp options ''event'') options) = Inr b"
    and i: "receipt_id_of N b = Inr i" and s: "s \<noteq> []"
    and sign: "sign_bytes N (orderReceiptFields (spread2 b [(''receipt_id'', JStr i)])) (getp options ''privateKey'') = Inr s"
    and r: "r = signed_receipt b (JStr i) (JObj [(''alg'', JStr ED25519), (''value'', JStr s)])"
    using createReceipt_Inr [OF assms(1-4)] by auto
  have "getp (getp b ''signer'') ''alg'' = JStr ED25519"
    using receipt_body_signer [OF b] assms(5) by (auto simp: obj_get_Cons)
  moreover have "verify_bytes N (orderReceiptFields (spread2 b [(''receipt_id'', JStr i)]))
      (JObj [(''alg'', JStr ED25519), (''value'', JStr s)]) pub"
    by (rule verify_sign_bytes [OF assms(6,7) sign]) (simp_all add: isPlainRecord_def obj_get_Cons)
  ultimately show ?thesis unfolding r
    by (intro verifyReceipt_signed signed_receipt_valid receipt_body_ok [OF b] i s assms(7))
qed

lemma sample_body_json: "jsonable sample_body" "plain_obj sample_body"
  by (simp_all add: sample_body_def)

theorem createReceipt_verifies_witness:
  "\<exists>r. createReceipt sample sample_receipt_args (JObj []) = Inr r
     \<and> getp (verifyReceipt sample r (JStr ''p'') (JObj [])) ''ok'' = JBool True"
proof -
  obtain r where r: "createReceipt sample sample_receipt_args (JObj []) = Inr r"
    using sample_receipt_created by blast
  have "getp (verifyReceipt sample r (JStr ''p'') (JObj [])) ''ok'' = JBool True"
    by (rule createReceipt_verifies [OF r refl])
      (simp_all add: sample_args_options key_pair_ok_sample, simp_all add: sample_receipt_args_def obj_get_Cons)
  with r show ?thesis by blast
qed

text \<open>
  C14. Tamper evidence of a single receipt: when the holder of the key has signed (the canonical text
  of) one receipt only, every receipt that \<open>verifyReceipt\<close> accepts agrees with it on every signed field.
\<close>

theorem verifyReceipt_authentic:
  assumes "getp (verifyReceipt N r pub (JObj [])) ''ok'' = JBool True" and "pub \<noteq> JUndef"
    and "jsonable r" and "\<not> hasOwn r ''receipt''" and "jsonable r0" and "isPlainRecord r0"
    and signed: "canonicalize (unsignedReceipt r0) = Inr c0"
      "\<And>m s. nd_verify N m pub s = Inr True \<Longrightarrow> m = utf8 c0"
    and "f \<in> set receipt_fields" and "f \<noteq> ''signature''"
  shows "norm (getp r f) = norm (getp r0 f)"
proof -
  have r: "isPlainRecord r" "verify_bytes N (unsignedReceipt r) (getp r ''signature'') pub"
    using assms(1) by (simp_all add: verifyReceipt_simple [OF assms(4,2)] receipt_valid_def)
  then obtain c s where c: "canonicalize (unsignedReceipt r) = Inr c" "nd_verify N (utf8 c) pub s = Inr True"
    using verify_bytes_obj unfolding unsignedReceipt_def orderReceiptFields_def ordered_fields_def by blast
  from signed(2) [OF c(2)] have "c = c0" by (rule utf8_inj)
  with c(1) signed(1) have "norm (unsignedReceipt r) = norm (unsignedReceipt r0)"
    using canonicalize_inj [OF jsonable_unsignedReceipt [OF assms(3) r(1)] jsonable_unsignedReceipt [OF assms(5,6)]]
    by simp
  then have "norm (getp (unsignedReceipt r) f) = norm (getp (unsignedReceipt r0) f)"
    by (metis getp_norm plain_obj_orderReceiptFields unsignedReceipt_def)
  then show ?thesis
    using assms(9,10) jsonable_plain_obj [OF assms(3) r(1)] jsonable_plain_obj [OF assms(5,6)]
    by (simp add: getp_unsignedReceipt)
qed

lemma distinct_sigs:
  "JObj [(''alg'', JStr ED25519), (''value'', JStr ''x'')] \<noteq> JObj [(''alg'', JStr ED25519), (''value'', JStr ''y'')]"
  by simp

theorem verifyReceipt_authentic_witness:
  "\<exists>N r r0. getp (verifyReceipt N r (JStr ''p'') (JObj [])) ''ok'' = JBool True \<and> r \<noteq> r0
     \<and> norm (getp r ''operation'') = norm (getp r0 ''operation'')"
proof -
  let ?s = "\<lambda>x. JObj [(''alg'', JStr ED25519), (''value'', JStr x)]"
  obtain i where i: "receipt_id_of sample sample_body = Inr i"
    using canonicalize_jsonable [OF jsonable_unsigned_body [OF sample_body_json, of "JStr []"]]
    by (auto simp: receipt_id_of_def)
  let ?u = "orderReceiptFields (spread2 sample_body [(''receipt_id'', JStr i)])"
  let ?r = "\<lambda>x. signed_receipt sample_body (JStr i) (?s x)"
  obtain c where c: "canonicalize ?u = Inr c"
    using canonicalize_jsonable [OF jsonable_unsigned_body [OF sample_body_json, of "JStr i"]] by auto
  let ?N = "sample\<lparr>nd_verify := \<lambda>m k s. Inr (m = utf8 c)\<rparr>"
  have "receipt_id_of ?N sample_body = Inr i" using i by (simp add: receipt_id_of_def sha256Str_def)
  moreover have "verify_bytes ?N ?u (?s ''x'') (JStr ''p'')"
    using c by (simp add: verify_bytes_def bytesForSigning_def decodeSignature_def isPlainRecord_def obj_get_Cons
        orderReceiptFields_def ordered_fields_def)
  ultimately have "receipt_valid ?N (?r ''x'') (JStr ''p'')"
    by (intro signed_receipt_valid receipt_body_ok [OF sample_receipt_body])
      (simp_all add: sample_body_def obj_get_Cons)
  then have ok: "getp (verifyReceipt ?N (?r ''x'') (JStr ''p'') (JObj [])) ''ok'' = JBool True"
    by (rule verifyReceipt_signed) simp
  have sig: "getp sample_body ''signature'' = JUndef" by (simp add: sample_body_def obj_get_Cons)
  have un: "canonicalize (unsignedReceipt (?r x)) = Inr c" for x
    by (simp add: unsignedReceipt_signed sample_body_json sig c)
  have "getp (?r x) ''signature'' = ?s x" for x by (simp add: getp_signed_receipt sample_body_json)
  from this [of "''x''"] this [of "''y''"] have "?r ''x'' \<noteq> ?r ''y''" by (metis distinct_sigs)
  moreover have "norm (getp (?r ''x'') ''operation'') = norm (getp (?r ''y'') ''operation'')"
  proof (rule verifyReceipt_authentic [OF ok _ _ _ _ _ un])
    show "m = utf8 c" if "nd_verify ?N m (JStr ''p'') s = Inr True" for m s using that by simp
    show "\<not> hasOwn (?r ''x'') ''receipt''" using hasOwn_signed receipt_not_field by blast
  qed (simp_all add: jsonable_signed_receipt sample_body_json isPlainRecord_signed receipt_fields_def)
  ultimately show ?thesis using ok by blast
qed

end
