(* ===== verification/JsNumber.thy ===== *)
theory JsNumber
  imports Hashing
begin

text \<open>
  Conversion to number, comparison and arithmetic.  Two doubles compare as the decimals that name them,
  exactly.  Sums and differences of safe integers are exact while they stay safe; every
  other operation is the double arithmetic of the engine, the field \<open>nd_arith\<close> of the runtime.
\<close>

definition safe_limit :: int where
  "safe_limit = 9007199254740991"

definition js_ToNumber :: "node \<Rightarrow> jsval \<Rightarrow> jsnum" where
  "js_ToNumber N v =
     (case v of
        JNum n \<Rightarrow> n
      | JNull \<Rightarrow> NInt 0
      | JBool b \<Rightarrow> NInt (if b then 1 else 0)
      | JStr s \<Rightarrow> nd_number N s
      | JArr xs \<Rightarrow> nd_number N (js_String v)
      | JBytes s \<Rightarrow> nd_number N s
      | JBig i \<Rightarrow> NInt i
      | _ \<Rightarrow> NNaN)"

text \<open>Digits and exponent of a finite number.\<close>

fun decimal :: "jsnum \<Rightarrow> (int \<times> int) option" where
  "decimal (NInt i) = Some (i, 0)"
| "decimal NNegZero = Some (0, 0)"
| "decimal (NDec m e) = Some (m, e)"
| "decimal _ = None"

definition dec_less :: "int \<times> int \<Rightarrow> int \<times> int \<Rightarrow> bool" where
  "dec_less a b =
     (let low = min (snd a) (snd b) in fst a * 10 ^ nat (snd a - low) < fst b * 10 ^ nat (snd b - low))"

definition num_less :: "jsnum \<Rightarrow> jsnum \<Rightarrow> bool" where
  "num_less m n =
     (if m = NNaN \<or> n = NNaN then False
      else if m = NNegInf then n \<noteq> NNegInf
      else if n = NPosInf then m \<noteq> NPosInf
      else (case (decimal m, decimal n) of (Some a, Some b) \<Rightarrow> dec_less a b | _ \<Rightarrow> False))"

text \<open>\<open>a > b\<close>: as strings when both are, objects converted first, as numbers otherwise.\<close>

definition js_prim :: "jsval \<Rightarrow> jsval" where
  "js_prim v = (if isObject v then JStr (js_String v) else v)"

definition js_gt :: "node \<Rightarrow> jsval \<Rightarrow> jsval \<Rightarrow> bool" where
  "js_gt N a b =
     (case (js_prim a, js_prim b) of
        (JStr s, JStr t) \<Rightarrow> t < s
      | (x, y) \<Rightarrow> num_less (js_ToNumber N y) (js_ToNumber N x))"

text \<open>\<open>m - n\<close>; the difference of equal numbers is plus zero, but \<open>-0 - 0\<close> is minus zero.\<close>

definition num_sub :: "node \<Rightarrow> jsnum \<Rightarrow> jsnum \<Rightarrow> jsnum" where
  "num_sub N m n =
     (case (num_int m, num_int n) of
        (Some i, Some j) \<Rightarrow>
          if \<bar>i\<bar> \<le> safe_limit \<and> \<bar>j\<bar> \<le> safe_limit \<and> \<bar>i - j\<bar> \<le> safe_limit
          then if m = NNegZero \<and> n = NInt 0 then NNegZero else NInt (i - j)
          else nd_arith N ''-'' m n
      | _ \<Rightarrow> nd_arith N ''-'' m n)"

definition js_sub :: "node \<Rightarrow> jsval \<Rightarrow> jsval \<Rightarrow> jsnum" where
  "js_sub N a b = num_sub N (js_ToNumber N a) (js_ToNumber N b)"

text \<open>\<open>m + n\<close>; adding zero is exact for every number.\<close>

definition num_add :: "node \<Rightarrow> jsnum \<Rightarrow> jsnum \<Rightarrow> jsnum" where
  "num_add N m n =
     (if m = NNegZero then n else if n = NNegZero then m
      else if num_int m = Some 0 then n else if num_int n = Some 0 then m
      else case (num_int m, num_int n) of
             (Some i, Some j) \<Rightarrow>
               if \<bar>i\<bar> \<le> safe_limit \<and> \<bar>j\<bar> \<le> safe_limit \<and> \<bar>i + j\<bar> \<le> safe_limit then NInt (i + j) else nd_arith N ''+'' m n
           | _ \<Rightarrow> nd_arith N ''+'' m n)"

text \<open>\<open>a + b\<close> on values: concatenation when one of them is a string or an object, addition otherwise.\<close>

definition js_add :: "node \<Rightarrow> jsval \<Rightarrow> jsval \<Rightarrow> jsval" where
  "js_add N a b =
     (let x = js_prim a; y = js_prim b
      in if isString x \<or> isString y then JStr (js_String x @ js_String y)
         else JNum (num_add N (js_ToNumber N x) (js_ToNumber N y)))"

text \<open>\<open>Math.max(0, n)\<close>.\<close>

definition max_zero :: "jsnum \<Rightarrow> jsnum" where
  "max_zero n = (if n = NNaN then NNaN else if num_less (NInt 0) n then n else NInt 0)"

lemma num_less_NInt [simp]: "num_less (NInt i) (NInt j) \<longleftrightarrow> i < j"
  by (simp add: num_less_def dec_less_def)

lemma js_gt_JNum [simp]: "js_gt N (JNum m) (JNum n) \<longleftrightarrow> num_less n m"
  by (simp add: js_gt_def js_prim_def js_ToNumber_def)

lemma js_sub_counts:
  assumes "as_int v = Some i" "as_int w = Some j" "0 \<le> j" "j \<le> i" "i \<le> safe_limit"
  shows "num_int (max_zero (js_sub N v w)) = Some (i - j)"
proof -
  obtain m n where mn: "v = JNum m" "w = JNum n" "num_int m = Some i" "num_int n = Some j"
    using assms by (cases v; cases w) (auto simp: as_int_def)
  with assms have "js_sub N v w = (if m = NNegZero \<and> n = NInt 0 then NNegZero else NInt (i - j))"
    by (simp add: js_sub_def js_ToNumber_def num_sub_def)
  moreover have "m = NNegZero \<Longrightarrow> i = 0" "n = NInt 0 \<Longrightarrow> j = 0" using mn by auto
  ultimately show ?thesis using assms(4) by (auto simp: max_zero_def num_less_def dec_less_def)
qed

lemma js_add_zero: "js_add N (JInt 0) (JInt j) = JInt j"
  by (simp add: js_add_def Let_def js_prim_def js_ToNumber_def num_add_def)

lemma js_add_exact:
  assumes "as_int v = Some s" and "s = 0 \<or> \<bar>s\<bar> + int i \<le> safe_limit"
  shows "as_int (js_add N v (JInt (int i))) = Some (s + int i)"
proof -
  obtain m where m: "v = JNum m" "num_int m = Some s" using assms(1) by (cases v) (auto simp: as_int_def)
  then have "num_int (num_add N m (NInt (int i))) = Some (s + int i)"
    using assms(2) by (cases m) (auto simp: num_add_def split: if_splits)
  then show ?thesis by (simp add: m(1) js_add_def Let_def js_prim_def js_ToNumber_def as_int_def)
qed

lemma num_less_irrefl: "\<not> num_less n n"
  by (cases n) (simp_all add: num_less_def dec_less_def)

end
