(* ===== verification/ReceiptChain.thy ===== *)
theory ReceiptChain
  imports Receipts JsNumber
begin

text \<open>
  \<open>verifyReceiptChain\<close> of \<open>packages/core\<close>: every receipt verifies, sequence numbers are consecutive,
  each receipt names the hash of the one before it, and the optional expectations on roots and
  hashes hold.  The loop of the code is \<open>chain_loop\<close>, which carries the expected previous hash.
\<close>

section \<open>Model\<close>

text \<open>\<open>expectedStartSequence + index\<close>; the addition throws when the start is a \<open>BigInt\<close> or a symbol.\<close>

definition sequence_at :: "node \<Rightarrow> jsval \<Rightarrow> nat \<Rightarrow> jsval" where
  "sequence_at N start i = js_add N start (JInt (int i))"

definition sequence_guard :: "jsval list \<Rightarrow> jsval \<Rightarrow> unit res" where
  "sequence_guard receipts start =
     (if receipts = [] then Inr ()
      else case start of
             JBig _ \<Rightarrow> Inl (TypeError ''Cannot mix BigInt and other types, use explicit conversions'')
           | JSym \<Rightarrow> Inl (TypeError ''Cannot convert a Symbol value to a number'')
           | _ \<Rightarrow> Inr ())"

definition at_receipt :: "nat \<Rightarrow> string \<Rightarrow> string" where
  "at_receipt i msg = ''receipt '' @ nat_to_string i @ '': '' @ msg"

text \<open>\<open>{ receipt, ...options }\<close>.\<close>

definition with_receipt :: "jsval \<Rightarrow> jsval \<Rightarrow> jsval" where
  "with_receipt options receipt = JObj (obj_puts (props_of options) [(''receipt'', receipt)])"

definition result_errors :: "jsval \<Rightarrow> string list" where
  "result_errors result = map js_String (elems (getp result ''errors''))"

definition step_errors :: "node \<Rightarrow> jsval \<Rightarrow> jsval \<Rightarrow> nat \<Rightarrow> jsval \<Rightarrow> jsval \<Rightarrow> string list" where
  "step_errors N options start i expectedPrevious receipt =
     (let verified = verifyReceipt N (with_receipt options receipt) JUndef (JObj [])
      in (if truthy (getp verified ''ok'') then [] else map (at_receipt i) (result_errors verified)) @
         push_if (\<not> js_eq (getp receipt ''sequence'') (sequence_at N start i)) (at_receipt i ''sequence gap or reorder'') @
         push_if (expectedPrevious \<noteq> JUndef \<and> \<not> js_eq (getp receipt ''previous_receipt_hash'') expectedPrevious)
           (at_receipt i ''previous hash mismatch''))"

fun chain_loop :: "node \<Rightarrow> jsval \<Rightarrow> jsval \<Rightarrow> nat \<Rightarrow> jsval \<Rightarrow> jsval list \<Rightarrow> string list \<times> string list" where
  "chain_loop N options start i expectedPrevious [] = ([], [])"
| "chain_loop N options start i expectedPrevious (x # xs) =
     (let receipt = element x; hash = safeReceiptHash N receipt;
          (errors, hashes) = chain_loop N options start (Suc i) (JStr hash) xs
      in (step_errors N options start i expectedPrevious receipt @ errors, hash # hashes))"

text \<open>The prefix set grows by one hash per receipt; each receipt records the root before itself.\<close>

fun embedded_loop :: "node \<Rightarrow> nat \<Rightarrow> merkle_set \<Rightarrow> jsval list \<Rightarrow> string list \<Rightarrow> string list" where
  "embedded_loop N i pre (x # xs) (h # hs) =
     push_if (\<not> js_eq (getp (element x) ''receipt_log_root'') (JStr (ms_root N pre)))
       (at_receipt i ''embedded receipt_log_root mismatch'') @
     embedded_loop N (Suc i) (ms_add h pre) xs hs"
| "embedded_loop N i pre _ _ = []"

fun hash_list_errors :: "nat \<Rightarrow> jsval list \<Rightarrow> string list \<Rightarrow> string list" where
  "hash_list_errors i (e # es) (h # hs) =
     push_if (\<not> js_eq (element e) (JStr h)) (at_receipt i ''receipt hash mismatch'') @ hash_list_errors (Suc i) es hs"
| "hash_list_errors i _ _ = []"

text \<open>\<open>if (expected !== undefined && normalizeSha256Root(expected) !== actual) errors.push(msg)\<close>.\<close>

definition expect_root :: "jsval \<Rightarrow> string \<Rightarrow> jsval \<Rightarrow> string \<Rightarrow> string list res" where
  "expect_root expected field actual msg =
     (if expected = JUndef then Inr []
      else emap (\<lambda>r. push_if (\<not> js_eq actual (JStr r)) msg) (normalizeSha256Root expected field))"

definition chain_start :: "jsval \<Rightarrow> jsval" where
  "chain_start options = coals options [''startSequence'', ''expectedStartSequence''] (JInt 0)"

definition chain_previous :: "jsval \<Rightarrow> jsval" where
  "chain_previous options =
     coals options [''previous_receipt_hash'', ''previousReceiptHash'']
       (if js_eq (chain_start options) (JInt 0) then JStr GENESIS else JUndef)"

definition embedded_errors :: "node \<Rightarrow> jsval \<Rightarrow> jsval list \<Rightarrow> string list \<Rightarrow> string list res" where
  "embedded_errors N options receipts hashes =
     (if getp options ''verifyEmbeddedReceiptLogRoot'' = JBool True then
        ebind (expect_root (pick options [''previousReceiptLogRoot'', ''previous_receipt_log_root'',
                 ''startReceiptLogRoot'', ''start_receipt_log_root'']) ''previousReceiptLogRoot''
                 (JStr (ms_root N ms_empty)) ''embedded receipt_log_root start root mismatch'') (\<lambda>e.
          Inr (e @ embedded_loop N 0 ms_empty receipts hashes))
      else Inr [])"

definition chain_active_root :: "node \<Rightarrow> jsval list \<Rightarrow> jsval res" where
  "chain_active_root N receipts =
     (if receipts = [] then Inr (JStr (EMPTY_MERKLE_ROOT N))
      else getE (element (last receipts)) ''active_set_root'')"

definition expected_hash_errors :: "jsval \<Rightarrow> string list \<Rightarrow> string list" where
  "expected_hash_errors options hashes =
     (case getp options ''expectedReceiptHashes'' of
        JArr es \<Rightarrow> push_if (length es \<noteq> length hashes) ''receipt hash list length mismatch'' @ hash_list_errors 0 es hashes
      | _ \<Rightarrow> [])"

definition verifyReceiptChain :: "node \<Rightarrow> jsval \<Rightarrow> jsval \<Rightarrow> jsval res" where
  "verifyReceiptChain N receiptsOrArgs maybeOptions =
     (let options = (if isArray receiptsOrArgs then maybeOptions else coal receiptsOrArgs (JObj []));
          receipts = (if isArray receiptsOrArgs then receiptsOrArgs else getp options ''receipts'')
      in case receipts of
           JArr rs \<Rightarrow>
             (let start = chain_start options; expectedPrevious = chain_previous options;
                  (loop_errors, hashes) = chain_loop N options start 0 expectedPrevious rs;
                  receiptLogRoot = ms_root N (ms_of hashes)
              in ebind (sequence_guard rs start) (\<lambda>_.
                 ebind (expect_root (pick options [''expectedReceiptLogRoot'', ''receiptLogRoot'', ''receipt_log_root''])
                          ''expectedReceiptLogRoot'' (JStr receiptLogRoot) ''receipt log root mismatch'') (\<lambda>e1.
                 ebind (embedded_errors N options rs hashes) (\<lambda>e2.
                 ebind (chain_active_root N rs) (\<lambda>activeSetRoot.
                 ebind (expect_root (pick options [''expectedActiveSetRoot'', ''activeSetRoot'', ''active_set_root''])
                          ''expectedActiveSetRoot'' activeSetRoot ''active set root mismatch'') (\<lambda>e3.
                 let errors = push_if (expectedPrevious = JUndef) ''previous receipt hash is required for non-genesis chain segments''
                       @ loop_errors @ e1 @ e2 @ e3 @ expected_hash_errors options hashes
                 in Inr (verificationResult (errors = []) errors
                      [(''receipt_log_root'', JStr receiptLogRoot), (''active_set_root'', activeSetRoot),
                       (''receipt_hashes'', JArr (map JStr hashes))])))))))
         | _ \<Rightarrow> Inr (verificationResult False [''receipts must be an array''] []))"

lemma ms_new_of: "ms_new (map JStr xs) = Inr (ms_of xs)"
  by (simp add: ms_new_strings ms_of_def ms_empty_def)

section \<open>The loop\<close>

lemma verifyReceipt_ok_errors:
  "getp (verifyReceipt N r k m) ''ok'' = JBool (result_errors (verifyReceipt N r k m) = [])"
  by (simp add: verifyReceipt_def Let_def getp_verificationResult result_errors_def elems_def split: prod.splits)

lemma step_errors_Nil:
  "step_errors N options start i prev r = [] \<longleftrightarrow>
     getp (verifyReceipt N (with_receipt options r) JUndef (JObj [])) ''ok'' = JBool True
     \<and> js_eq (getp r ''sequence'') (sequence_at N start i)
     \<and> (prev = JUndef \<or> js_eq (getp r ''previous_receipt_hash'') prev)"
  using verifyReceipt_ok_errors [of N "with_receipt options r" JUndef "JObj []"]
  by (auto simp: step_errors_def Let_def)

definition prev_at :: "node \<Rightarrow> jsval \<Rightarrow> jsval list \<Rightarrow> nat \<Rightarrow> jsval" where
  "prev_at N prev rs i = (if i = 0 then prev else JStr (safeReceiptHash N (element (rs ! (i - 1)))))"

lemma chain_loop_hashes: "snd (chain_loop N options start i prev rs) = map (\<lambda>x. safeReceiptHash N (element x)) rs"
  by (induction rs arbitrary: i prev) (simp_all add: Let_def case_prod_unfold)

lemma chain_loop_errors_Nil:
  "fst (chain_loop N options start i prev rs) = [] \<longleftrightarrow>
     (\<forall>k < length rs. step_errors N options start (i + k) (prev_at N prev rs k) (element (rs ! k)) = [])"
proof (induction rs arbitrary: i prev)
  case (Cons x xs)
  have "prev_at N prev (x # xs) (Suc k) = prev_at N (JStr (safeReceiptHash N (element x))) xs k" for k
    by (cases k) (simp_all add: prev_at_def)
  moreover have "prev_at N prev (x # xs) 0 = prev" by (simp add: prev_at_def)
  ultimately show ?case
    using Cons [of "Suc i" "JStr (safeReceiptHash N (element x))"]
    by (simp add: Let_def All_less_Suc2 case_prod_unfold)
qed simp

section \<open>Accepted chains\<close>

lemma verifyReceiptChain_array:
  assumes "verifyReceiptChain N (JArr rs) options = Inr res" and "getp res ''ok'' = JBool True"
  shows "fst (chain_loop N options (chain_start options) 0 (chain_previous options) rs) = []"
    and "chain_previous options \<noteq> JUndef"
  using assms
  by (auto simp: verifyReceiptChain_def Let_def res_simps getp_verificationResult split: prod.splits)

lemma chain_step:
  assumes "verifyReceiptChain N (JArr rs) options = Inr res" and "getp res ''ok'' = JBool True" and "i < length rs"
  shows "getp (verifyReceipt N (with_receipt options (element (rs ! i))) JUndef (JObj [])) ''ok'' = JBool True"
    and "js_eq (getp (element (rs ! i)) ''sequence'') (sequence_at N (chain_start options) i)"
    and "js_eq (getp (element (rs ! i)) ''previous_receipt_hash'') (prev_at N (chain_previous options) rs i)"
proof -
  have "step_errors N options (chain_start options) i (prev_at N (chain_previous options) rs i) (element (rs ! i)) = []"
    using verifyReceiptChain_array(1) [OF assms(1,2)] assms(3) by (simp add: chain_loop_errors_Nil)
  moreover have "prev_at N (chain_previous options) rs i \<noteq> JUndef"
    using verifyReceiptChain_array(2) [OF assms(1,2)] by (simp add: prev_at_def)
  ultimately show "getp (verifyReceipt N (with_receipt options (element (rs ! i))) JUndef (JObj [])) ''ok'' = JBool True"
    "js_eq (getp (element (rs ! i)) ''sequence'') (sequence_at N (chain_start options) i)"
    "js_eq (getp (element (rs ! i)) ''previous_receipt_hash'') (prev_at N (chain_previous options) rs i)"
    by (simp_all add: step_errors_Nil)
qed

text \<open>
  A start from which the sequence numbers of \<open>n\<close> receipts are computed without rounding: zero, or an
  integer whose sum with \<open>n\<close> stays safe.
\<close>

definition exact_start :: "jsval \<Rightarrow> nat \<Rightarrow> bool" where
  "exact_start options n =
     (\<exists>s. as_int (chain_start options) = Some s \<and> (s = 0 \<or> \<bar>s\<bar> + int n \<le> safe_limit))"

lemma as_int_js_eq: "js_eq v w \<Longrightarrow> as_int w = Some i \<Longrightarrow> as_int v = Some i"
proof -
  have "num_eq m n \<Longrightarrow> num_int n = Some i \<Longrightarrow> num_int m = Some i" for m n
    by (cases m; cases n) (auto simp: num_eq_def split: if_splits)
  then show "js_eq v w \<Longrightarrow> as_int w = Some i \<Longrightarrow> as_int v = Some i"
    by (cases v; cases w) (auto simp: js_eq_def as_int_def)
qed

lemma chain_sequence:
  assumes "js_eq (getp r ''sequence'') (sequence_at N (chain_start options) i)" and "exact_start options n" and "i < n"
  shows "\<exists>s. as_int (chain_start options) = Some s \<and> as_int (getp r ''sequence'') = Some (s + int i)"
proof -
  obtain s where s: "as_int (chain_start options) = Some s" "s = 0 \<or> \<bar>s\<bar> + int i \<le> safe_limit"
    using assms(2,3) by (auto simp: exact_start_def)
  from as_int_js_eq [OF assms(1)] js_add_exact [OF s] s(1) show ?thesis by (simp add: sequence_at_def)
qed


lemma safeReceiptHash_eq:
  assumes "jsonable r" "jsonable q" "safeReceiptHash N r = safeReceiptHash N q"
    and "inj_on (sha256Str N) {c. \<exists>v \<in> V. canonicalize v = Inr c}" "r \<in> V" "q \<in> V"
  shows "norm r = norm q"
proof -
  obtain c d where "canonicalize r = Inr c" "canonicalize q = Inr d"
    using assms(1,2) canonicalize_jsonable by metis
  moreover from this assms(3) have "sha256Str N c = sha256Str N d"
    by (simp add: safeReceiptHash_def receiptHash_def)
  ultimately have "c = d" using assms(4-6) by (auto dest!: inj_onD)
  with \<open>canonicalize r = Inr c\<close> \<open>canonicalize q = Inr d\<close> show ?thesis
    using canonicalize_inj [OF assms(1,2)] by simp
qed

lemma norm_field:
  assumes "plain_obj v" "plain_obj w" "norm v = norm w"
  shows "norm (getp v k) = norm (getp w k)"
  using assms(3) getp_norm [OF assms(1), of k] getp_norm [OF assms(2), of k] by simp

lemma as_int_norm: "as_int (norm v) = as_int v"
  by (cases v) (auto simp: as_int_def split: if_splits)


lemma element_record: "isPlainRecord v \<Longrightarrow> element v = v"
  by (auto simp: element_def isPlainRecord_def)

lemma chain_hash_determines:
  assumes rs: "verifyReceiptChain N (JArr rs) options = Inr res" "getp res ''ok'' = JBool True"
    and qs: "verifyReceiptChain N (JArr qs) options = Inr res'" "getp res' ''ok'' = JBool True"
    and json: "\<forall>r \<in> set rs \<union> set qs. jsonable r \<and> isPlainRecord r"
    and inj: "inj_on (sha256Str N) {c. \<exists>v \<in> set rs \<union> set qs. canonicalize v = Inr c}"
    and exact: "exact_start options (max (length rs) (length qs))"
  shows "i < length rs \<Longrightarrow> j < length qs \<Longrightarrow> safeReceiptHash N (rs ! i) = safeReceiptHash N (qs ! j) \<Longrightarrow>
    i = j \<and> (\<forall>k \<le> i. norm (rs ! k) = norm (qs ! k))"
proof -
  have el: "element (rs ! i) = rs ! i" "element (qs ! j) = qs ! j" if "i < length rs" "j < length qs" for i j
    using json nth_mem [OF that(1)] nth_mem [OF that(2)] by (simp_all add: element_record)
  have eq: "norm (rs ! i) = norm (qs ! j) \<and> i = j"
    if "i < length rs" "j < length qs" "safeReceiptHash N (rs ! i) = safeReceiptHash N (qs ! j)" for i j
  proof -
    have n: "norm (rs ! i) = norm (qs ! j)"
      by (rule safeReceiptHash_eq [OF _ _ that(3) inj]) (use json that(1,2) in auto)
    have "plain_obj (rs ! i)" "plain_obj (qs ! j)" using json that(1,2) by (auto intro!: jsonable_plain_obj)
    from norm_field [OF this n] have "norm (getp (rs ! i) ''sequence'') = norm (getp (qs ! j) ''sequence'')" .
    then have "as_int (getp (rs ! i) ''sequence'') = as_int (getp (qs ! j) ''sequence'')" by (metis as_int_norm)
    with chain_sequence [OF chain_step(2) [OF rs that(1)] exact] chain_sequence [OF chain_step(2) [OF qs that(2)] exact]
    have "i = j" using el that(1,2) by fastforce
    with n show ?thesis by simp
  qed
  show "i < length rs \<Longrightarrow> j < length qs \<Longrightarrow> safeReceiptHash N (rs ! i) = safeReceiptHash N (qs ! j) \<Longrightarrow>
    i = j \<and> (\<forall>k \<le> i. norm (rs ! k) = norm (qs ! k))"
  proof (induction i arbitrary: j)
    case 0
    then show ?case using eq by blast
  next
    case (Suc i)
    from eq [OF Suc.prems] have j: "j = Suc i" and n: "norm (rs ! Suc i) = norm (qs ! Suc i)" by auto
    have "plain_obj (rs ! Suc i)" "plain_obj (qs ! Suc i)"
      using json Suc.prems(1,2) j by (auto intro!: jsonable_plain_obj)
    from norm_field [OF this n] have "norm (getp (rs ! Suc i) ''previous_receipt_hash'') = norm (getp (qs ! Suc i) ''previous_receipt_hash'')" .
    moreover have "getp (rs ! Suc i) ''previous_receipt_hash'' = JStr (safeReceiptHash N (rs ! i))"
      using chain_step(3) [OF rs Suc.prems(1)] el Suc.prems by (simp add: prev_at_def)
    moreover have "getp (qs ! Suc i) ''previous_receipt_hash'' = JStr (safeReceiptHash N (qs ! i))"
      using chain_step(3) [OF qs, of "Suc i"] el Suc.prems j by (simp add: prev_at_def)
    ultimately have "safeReceiptHash N (rs ! i) = safeReceiptHash N (qs ! i)" by simp
    from Suc.IH [OF _ _ this] Suc.prems j have "\<forall>k \<le> i. norm (rs ! k) = norm (qs ! k)" by simp
    with n j show ?case by (auto simp: le_Suc_eq)
  qed
qed

text \<open>
  C20. The hash of the last receipt determines the whole chain: two accepted non-empty chains of JSON
  objects that end in receipts with the same hash consist of the same receipts (up to the order of keys
  and the sign of zero), unless the hash collides on their canonical texts.  The start is zero or an integer
  so small that no number of the chains leaves the safe integers.
\<close>

theorem verifyReceiptChain_binding:
  assumes rs: "verifyReceiptChain N (JArr rs) options = Inr res" "getp res ''ok'' = JBool True"
    and qs: "verifyReceiptChain N (JArr qs) options = Inr res'" "getp res' ''ok'' = JBool True"
    and json: "\<forall>r \<in> set rs \<union> set qs. jsonable r \<and> isPlainRecord r"
    and inj: "inj_on (sha256Str N) {c. \<exists>v \<in> set rs \<union> set qs. canonicalize v = Inr c}"
    and exact: "exact_start options (max (length rs) (length qs))"
    and "rs \<noteq> []" "qs \<noteq> []" and last: "safeReceiptHash N (last rs) = safeReceiptHash N (last qs)"
  shows "map norm rs = map norm qs"
proof -
  let ?i = "length rs - 1" and ?j = "length qs - 1"
  have "?i = ?j \<and> (\<forall>k \<le> ?i. norm (rs ! k) = norm (qs ! k))"
    using assms(8-10) by (intro chain_hash_determines [OF rs qs json inj exact]) (auto simp: last_conv_nth)
  moreover from this have "length rs = length qs" using assms(8,9) by (cases rs; cases qs) simp_all
  moreover have "k \<le> ?i" if "k < length rs" for k using that by simp
  ultimately show ?thesis by (intro nth_equalityI) simp_all
qed


definition key_options :: "jsval \<Rightarrow> jsval" where
  "key_options pub = JObj [(''publicKey'', pub)]"

lemma key_options_get: "getp (key_options pub) k = (if k = ''publicKey'' then pub else JUndef)"
  by (simp add: key_options_def obj_get_Cons)

text \<open>Options that carry a public key and expect no particular signer.\<close>

definition plain_key_options :: "jsval \<Rightarrow> jsval \<Rightarrow> bool" where
  "plain_key_options options pub =
     (plain_obj options \<and> \<not> hasOwn options ''receipt'' \<and> getp options ''publicKey'' = pub \<and> pub \<noteq> JUndef
      \<and> pick options [''expectedSignerKeyId'', ''expectedSigner'', ''signer_key_id''] = JUndef)"

lemma plain_key_options_key: "pub \<noteq> JUndef \<Longrightarrow> plain_key_options (key_options pub) pub"
  by (simp add: plain_key_options_def key_options_def hasOwn_def keys_of_def obj_get_Cons)

lemma verifyReceipt_with_key:
  assumes "plain_key_options options pub"
  shows "getp (verifyReceipt N (with_receipt options r) JUndef (JObj [])) ''ok''
    = JBool (isPlainRecord r \<and> receipt_valid N r pub)"
proof -
  from assms obtain ps where ps: "options = JObj ps" "distinct (map fst ps)" "''receipt'' \<notin> fst ` set ps"
    by (auto simp: plain_key_options_def plain_obj_def hasOwn_def keys_of_def)
  have get: "getp (with_receipt options r) k = (if k = ''receipt'' then r else getp options k)" for k
    using ps obj_get_notin [of k ps]
    by (auto simp: with_receipt_def obj_get_puts has_key_def obj_get_Cons)
  moreover have "''receipt'' \<in> fst ` set (obj_puts ps [(''receipt'', r)])" by (simp add: keys_obj_puts)
  then have "isPlainRecord (with_receipt options r) \<and> hasOwn (with_receipt options r) ''receipt''"
    by (simp add: with_receipt_def isPlainRecord_def hasOwn_def keys_of_def ps(1))
  ultimately show ?thesis
    using assms by (simp add: verifyReceipt_def normalizeVerifyReceiptArgs_def Let_def getp_verificationResult
        receipt_errors_Nil resolvePublicKey_def plain_key_options_def)
qed


text \<open>
  The verifier guards every other access to a receipt with \<open>?.\<close>, but not the one to the last
  receipt: a chain that ends in \<open>null\<close> makes it throw instead of reporting errors.
\<close>

theorem verifyReceiptChain_throws_on_null:
  "verifyReceiptChain N (JArr (rs @ [JNull])) (key_options pub)
     = Inl (TypeError (''Cannot read properties of null (reading '' @ [CHR 0x27] @ ''active_set_root'' @ [CHR 0x27] @ '')''))"
  by (simp add: verifyReceiptChain_def Let_def case_prod_unfold expect_root_def key_options_get
        embedded_errors_def chain_active_root_def getE_def element_def sequence_guard_def chain_start_def)

lemma embedded_loop_Nil:
  assumes "length hs = length rs"
  shows "embedded_loop N i m rs hs = [] \<longleftrightarrow>
    (\<forall>k < length rs. getp (element (rs ! k)) ''receipt_log_root'' = JStr (ms_root N (fold ms_add (take k hs) m)))"
  using assms
proof (induction rs arbitrary: hs i m)
  case (Cons x xs)
  then obtain h hs' where hs: "hs = h # hs'" "length hs' = length xs" by (cases hs) auto
  show ?case using Cons.IH [OF hs(2), of "Suc i" "ms_add h m"] by (simp add: hs All_less_Suc2)
qed simp

text \<open>
  C21. When embedded log roots are checked, every receipt of an accepted chain records the Merkle root of
  the hashes of exactly the receipts before it.
\<close>

theorem verifyReceiptChain_log_roots:
  assumes "verifyReceiptChain N (JArr rs) options = Inr res" and "getp res ''ok'' = JBool True"
    and "getp options ''verifyEmbeddedReceiptLogRoot'' = JBool True" and "i < length rs"
  shows "emap JStr (merkleSetRoot N (JArr (map (\<lambda>r. JStr (safeReceiptHash N (element r))) (take i rs))))
    = Inr (getp (element (rs ! i)) ''receipt_log_root'')"
proof -
  let ?hs = "map (\<lambda>r. safeReceiptHash N (element r)) rs"
  have "\<exists>e. embedded_errors N options rs ?hs = Inr e \<and> e = []"
    using assms(1,2)
    by (auto simp: verifyReceiptChain_def Let_def res_simps getp_verificationResult case_prod_unfold chain_loop_hashes)
  then have "embedded_loop N 0 ms_empty rs ?hs = []"
    using assms(3) by (auto simp: embedded_errors_def res_simps)
  then have "getp (element (rs ! i)) ''receipt_log_root'' = JStr (ms_root N (ms_of (take i ?hs)))"
    using assms(4) by (simp add: embedded_loop_Nil ms_of_def)
  moreover have "map (\<lambda>r. JStr (safeReceiptHash N (element r))) (take i rs) = map JStr (take i ?hs)"
    by (simp add: take_map)
  ultimately show ?thesis
    using ms_new_of [of "take i ?hs"] by (simp add: merkleSetRoot_def)
qed

section \<open>Sample chains\<close>

text \<open>A receipt with a given place in a chain, valid in the sample runtime with any digest function.\<close>

definition sample_body_at :: "int \<Rightarrow> string \<Rightarrow> string \<Rightarrow> string \<Rightarrow> jsval" where
  "sample_body_at k previous root time = JObj [(''schema'', JStr RECEIPT_SCHEMA), (''event_hash'', JStr sample_event_hash),
     (''operation'', JStr ''remember''), (''tenant_id'', JStr ''t''), (''subject_id'', JStr ''s''), (''sequence'', JInt k),
     (''previous_receipt_hash'', JStr previous), (''active_set_root'', JStr sample_event_hash), (''receipt_log_root'', JStr root),
     (''timestamp'', JStr time), (''signer'', JObj [(''key_id'', JStr ''key-1''), (''alg'', JStr ED25519)])]"

lemma sample_receipt_at:
  assumes "0 \<le> k" and "isPreviousHash (JStr previous)" and "rx_full ROOT_RE root" and N: "N = sample\<lparr>nd_sha256 := h\<rparr>"
  obtains r where "isPlainRecord r" "receipt_valid N r (JStr ''p'')" "jsonable r" "getp r ''sequence'' = JInt k"
    "getp r ''previous_receipt_hash'' = JStr previous" "getp r ''receipt_log_root'' = JStr root" "getp r ''timestamp'' = JStr time"
proof -
  let ?b = "sample_body_at k previous root time"
  have b: "jsonable ?b" "plain_obj ?b" by (simp_all add: sample_body_at_def)
  have "rx_full ROOT_RE sample_event_hash" by (simp add: sample_event_hash_def hash_hex_sample)
  with assms(1-3) have ok: "body_ok ?b" by (simp add: body_ok_def b(2)) (simp add: sample_body_at_def obj_get_Cons as_count_def)
  obtain i where i: "receipt_id_of N ?b = Inr i"
    using canonicalize_jsonable [OF jsonable_unsigned_body [OF b, of "JStr []"]] by (auto simp: receipt_id_of_def)
  let ?u = "orderReceiptFields (spread2 ?b [(''receipt_id'', JStr i)])"
  obtain c where c: "canonicalize ?u = Inr c"
    using canonicalize_jsonable [OF jsonable_unsigned_body [OF b, of "JStr i"]] by auto
  let ?sg = "JObj [(''alg'', JStr ED25519), (''value'', JStr (CHR ''_'' # utf8 c))]"
  have "verify_bytes N ?u ?sg (JStr ''p'')"
    using c by (simp add: verify_bytes_def bytesForSigning_def decodeSignature_def isPlainRecord_def obj_get_Cons
        orderReceiptFields_def ordered_fields_def sample_def N)
  then have "receipt_valid N (signed_receipt ?b (JStr i) ?sg) (JStr ''p'')"
    by (intro signed_receipt_valid ok i) (simp_all add: sample_body_at_def obj_get_Cons)
  moreover have "''timestamp'' \<in> set receipt_fields" by (simp add: receipt_fields_def)
  ultimately show thesis
    by (intro that [of "signed_receipt ?b (JStr i) ?sg"])
      (simp_all add: isPlainRecord_signed jsonable_signed_receipt b getp_signed_receipt, simp_all add: sample_body_at_def obj_get_Cons)
qed

lemma sample_any: "sample = sample\<lparr>nd_sha256 := nd_sha256 sample\<rparr>"
  by simp

abbreviation sample_chain_options :: jsval where
  "sample_chain_options \<equiv> JObj [(''publicKey'', JStr ''p''), (''verifyEmbeddedReceiptLogRoot'', JBool True)]"

text \<open>Two receipts, the second linked to the first and recording its hash as the log.\<close>

lemma sample_chain:
  obtains r q res where "verifyReceiptChain sample (JArr [r, q]) sample_chain_options = Inr res" "getp res ''ok'' = JBool True"
proof -
  obtain r where r: "isPlainRecord r" "receipt_valid sample r (JStr ''p'')" "getp r ''sequence'' = JInt 0"
    "getp r ''previous_receipt_hash'' = JStr GENESIS" "getp r ''receipt_log_root'' = JStr (EMPTY_MERKLE_ROOT sample)" "jsonable r"
    using sample_receipt_at [OF _ _ _ sample_any, of 0 GENESIS "EMPTY_MERKLE_ROOT sample"]
    by (auto simp: isPreviousHash_def EMPTY_MERKLE_ROOT_def hash_hex_sample)
  let ?h = "safeReceiptHash sample r"
  have h: "rx_full ROOT_RE ?h" using canonicalize_jsonable [OF r(6)] by (auto simp: safeReceiptHash_def receiptHash_def hash_hex_sample)
  have "rx_full ROOT_RE (ms_root sample (ms_of [?h]))" 
    by (simp add: ms_root_def sortedValues_def ms_of_def ms_empty_def ms_add_def merkleRoot_def merkle_reduce.simps
        merkleLeafHash_def hash_hex_sample set_add_def)
  with h obtain q where q: "isPlainRecord q" "receipt_valid sample q (JStr ''p'')" "getp q ''sequence'' = JInt 1"
    "getp q ''previous_receipt_hash'' = JStr ?h" "getp q ''receipt_log_root'' = JStr (ms_root sample (ms_of [?h]))"
    using sample_receipt_at [OF _ _ _ sample_any, of 1 ?h "ms_root sample (ms_of [?h])"] by (auto simp: isPreviousHash_def)
  have o: "plain_key_options sample_chain_options (JStr ''p'')"
    by (simp add: plain_key_options_def hasOwn_def keys_of_def obj_get_Cons)
  have start: "chain_start sample_chain_options = JInt 0" "chain_previous sample_chain_options = JStr GENESIS"
    by (simp_all add: chain_start_def chain_previous_def obj_get_Cons js_eq_def num_eq_def)
  have empty: "ms_root sample ms_empty = EMPTY_MERKLE_ROOT sample"
    by (simp add: ms_root_def sortedValues_def ms_empty_def merkleRoot_def)
  have "step_errors sample sample_chain_options (JInt 0) 0 (JStr GENESIS) r = []"
    "step_errors sample sample_chain_options (JInt 0) 1 (JStr ?h) q = []"
    using r q by (simp_all add: step_errors_Nil verifyReceipt_with_key [OF o] sequence_at_def js_add_zero js_eq_def num_eq_def)
  moreover have "\<not> nullish q" "ms_add ?h ms_empty = ms_of [?h]"
    using q(1) by (auto simp: isPlainRecord_def nullish_iff ms_of_def)
  ultimately have "\<exists>res. verifyReceiptChain sample (JArr [r, q]) sample_chain_options = Inr res \<and> getp res ''ok'' = JBool True"
    using r q start empty by (simp add: verifyReceiptChain_def Let_def expect_root_def obj_get_Cons embedded_errors_def
        chain_active_root_def getE_def element_record expected_hash_errors_def getp_verificationResult sequence_guard_def)
  with that show thesis by blast
qed



text \<open>Two accepted chains whose receipts differ in their time, under a digest without collisions, have different hashes.\<close>

theorem verifyReceiptChain_binding_witness:
  "\<exists>N r q res res'. verifyReceiptChain N (JArr [r]) (key_options (JStr ''p'')) = Inr res \<and> getp res ''ok'' = JBool True
     \<and> verifyReceiptChain N (JArr [q]) (key_options (JStr ''p'')) = Inr res' \<and> getp res' ''ok'' = JBool True
     \<and> safeReceiptHash N r \<noteq> safeReceiptHash N q"
proof -
  let ?N = "sample\<lparr>nd_sha256 := (\<lambda>s. s)\<rparr>"
  have made: "\<exists>r res. verifyReceiptChain ?N (JArr [r]) (key_options (JStr ''p'')) = Inr res \<and> getp res ''ok'' = JBool True
      \<and> isPlainRecord r \<and> jsonable r \<and> getp r ''timestamp'' = JStr time" for time
  proof -
    obtain r where r: "isPlainRecord r" "receipt_valid ?N r (JStr ''p'')" "jsonable r"
      "getp r ''sequence'' = JInt 0" "getp r ''previous_receipt_hash'' = JStr GENESIS" "getp r ''timestamp'' = JStr time"
      using sample_receipt_at [OF _ _ _ refl, of 0 GENESIS "EMPTY_MERKLE_ROOT sample" "\<lambda>s. s" time]
      by (auto simp: isPreviousHash_def EMPTY_MERKLE_ROOT_def hash_hex_sample)
    have "\<not> nullish r" using r(1) by (auto simp: isPlainRecord_def nullish_iff)
    then have "chain_active_root ?N [r] = Inr (getp r ''active_set_root'')" by (simp add: chain_active_root_def getE_def element_record r(1))
    moreover have "step_errors ?N (key_options (JStr ''p'')) (JInt 0) 0 (JStr GENESIS) r = []"
      using r by (simp add: step_errors_Nil verifyReceipt_with_key [OF plain_key_options_key] sequence_at_def js_add_zero js_eq_def num_eq_def)
    ultimately have "\<exists>res. verifyReceiptChain ?N (JArr [r]) (key_options (JStr ''p'')) = Inr res \<and> getp res ''ok'' = JBool True"
      using r by (simp add: verifyReceiptChain_def Let_def chain_start_def chain_previous_def key_options_get js_eq_def num_eq_def
          sequence_guard_def expect_root_def embedded_errors_def expected_hash_errors_def getp_verificationResult element_record)
    with r show ?thesis by blast
  qed
  obtain r res q res' where r: "verifyReceiptChain ?N (JArr [r]) (key_options (JStr ''p'')) = Inr res" "getp res ''ok'' = JBool True"
      "isPlainRecord r" "jsonable r" "getp r ''timestamp'' = JStr ''a''"
    and q: "verifyReceiptChain ?N (JArr [q]) (key_options (JStr ''p'')) = Inr res'" "getp res' ''ok'' = JBool True"
      "isPlainRecord q" "jsonable q" "getp q ''timestamp'' = JStr ''b''" using made by blast
  have "norm r \<noteq> norm q"
    using norm_field [OF jsonable_plain_obj [OF r(4,3)] jsonable_plain_obj [OF q(4,3)], of "''timestamp''"] r(5) q(5) by auto
  moreover have "inj_on (sha256Str ?N) A" for A by (auto simp: inj_on_def sha256Str_def dest: utf8_inj)
  moreover have "exact_start (key_options (JStr ''p'')) (max (length [r]) (length [q]))"
    by (simp add: exact_start_def chain_start_def key_options_get)
  ultimately have "safeReceiptHash ?N r \<noteq> safeReceiptHash ?N q"
    using verifyReceiptChain_binding [OF r(1,2) q(1,2)] r(3,4) q(3,4) by auto
  with r q show ?thesis by blast
qed

theorem verifyReceiptChain_log_roots_witness:
  "\<exists>r q res. verifyReceiptChain sample (JArr [r, q]) sample_chain_options = Inr res \<and> getp res ''ok'' = JBool True
     \<and> emap JStr (merkleSetRoot sample (JArr [JStr (safeReceiptHash sample (element r))])) = Inr (getp (element q) ''receipt_log_root'')"
proof -
  obtain r q res where r: "verifyReceiptChain sample (JArr [r, q]) sample_chain_options = Inr res" "getp res ''ok'' = JBool True"
    by (rule sample_chain)
  with verifyReceiptChain_log_roots [OF r, of 1] show ?thesis by (auto simp: obj_get_Cons)
qed

end
