(* ===== verification/Checkpoint.thy ===== *)
theory Checkpoint
  imports ReceiptChain
begin

text \<open>
  State checkpoints of \<open>packages/core\<close>: \<open>createCheckpoint\<close> and \<open>verifyCheckpoint\<close>, the signed
  summary of the roots of a vault at an epoch.
\<close>

section \<open>Model\<close>

definition CHECKPOINT_SCHEMA :: string where
  "CHECKPOINT_SCHEMA = ''enigma.state_checkpoint.v1''"

definition checkpoint_head :: "string list" where
  "checkpoint_head =
     [''schema'', ''checkpoint_id'', ''tenant_hash'', ''owner_scope_hash'', ''epoch'', ''active_memory_root'',
      ''deleted_memory_root'', ''receipt_log_root'', ''key_registry_root'', ''policy_registry_root'',
      ''previous_checkpoint_hash'']"

text \<open>The leading fields and \<open>issued_at\<close> are written even when undefined.\<close>

definition orderCheckpointFields :: "jsval \<Rightarrow> jsval" where
  "orderCheckpointFields c = JObj
     (map (\<lambda>f. (f, getp c f)) checkpoint_head @
      (if getp c ''witness_policy'' \<noteq> JUndef then [(''witness_policy'', getp c ''witness_policy'')] else []) @
      [(''issued_at'', getp c ''issued_at'')] @
      (if getp c ''signatures'' \<noteq> JUndef then [(''signatures'', getp c ''signatures'')] else []))"

definition unsignedCheckpoint :: "jsval \<Rightarrow> jsval" where
  "unsignedCheckpoint c = orderCheckpointFields (omit [''signatures''] c)"

definition checkpoint_body :: "node \<Rightarrow> jsval \<Rightarrow> jsval res" where
  "checkpoint_body N options =
     (let root = (\<lambda>keys field. normalizeSha256Root (coals options keys (JStr (EMPTY_MERKLE_ROOT N))) field);
          witness = pick options [''witness_policy'', ''witnessPolicy'']
      in ebind (rootFromHashable N (pick options [''tenant_hash'', ''tenantHash''])
                 (coals options [''tenant_id'', ''tenantId''] (JStr ''tenant''))) (\<lambda>tenant_hash.
         ebind (rootFromHashable N (pick options [''owner_scope_hash'', ''ownerScopeHash''])
                 (coals options [''owner_scope'', ''ownerScope''] (JStr ''owner''))) (\<lambda>owner_scope_hash.
         ebind (requiredInteger (coals options [''epoch'', ''sequence''] (JInt 0)) ''epoch'') (\<lambda>epoch.
         ebind (root [''active_memory_root'', ''activeMemoryRoot'', ''active_set_root'', ''activeSetRoot'']
                 ''active_memory_root'') (\<lambda>active_memory_root.
         ebind (root [''deleted_memory_root'', ''deletedMemoryRoot''] ''deleted_memory_root'') (\<lambda>deleted_memory_root.
         ebind (root [''receipt_log_root'', ''receiptLogRoot''] ''receipt_log_root'') (\<lambda>receipt_log_root.
         ebind (root [''key_registry_root'', ''keyRegistryRoot''] ''key_registry_root'') (\<lambda>key_registry_root.
         ebind (root [''policy_registry_root'', ''policyRegistryRoot''] ''policy_registry_root'') (\<lambda>policy_registry_root.
         ebind (normalizePreviousHash (coals options [''previous_checkpoint_hash'', ''previousCheckpointHash'']
                 (JStr GENESIS))) (\<lambda>previous_checkpoint_hash.
         ebind (requiredString (coals options [''issued_at'', ''issuedAt'', ''timestamp''] (JStr (nd_now N)))
                 ''issued_at'') (\<lambda>issued_at.
         Inr (JObj
           ([(''schema'', JStr CHECKPOINT_SCHEMA), (''tenant_hash'', JStr tenant_hash),
             (''owner_scope_hash'', JStr owner_scope_hash), (''epoch'', epoch),
             (''active_memory_root'', JStr active_memory_root), (''deleted_memory_root'', JStr deleted_memory_root),
             (''receipt_log_root'', JStr receipt_log_root), (''key_registry_root'', JStr key_registry_root),
             (''policy_registry_root'', JStr policy_registry_root),
             (''previous_checkpoint_hash'', JStr previous_checkpoint_hash), (''issued_at'', JStr issued_at)] @
            (if truthy witness then [(''witness_policy'', witness)] else []))))))))))))))"

definition createCheckpoint :: "node \<Rightarrow> jsval \<Rightarrow> jsval \<Rightarrow> jsval res" where
  "createCheckpoint N checkpointOrArgs maybeOptions =
     (let options = spread2 (if isPlainRecord checkpointOrArgs then checkpointOrArgs else JObj []) (props_of maybeOptions)
      in ebind (normalizeSigner N (getp options ''signer'') (pick options [''key_id'', ''keyId''])
                 (getp options ''privateKey'')) (\<lambda>signer.
         ebind (checkpoint_body N options) (\<lambda>body.
         ebind (let i = pick options [''checkpoint_id'', ''checkpointId'']
                in if nullish i then
                     ebind (canonicalize body) (\<lambda>c. emap (\<lambda>h. JStr (''chk_'' @ take 32 h)) (sha256Hex N (JStr c)))
                   else Inr i) (\<lambda>checkpoint_id.
         let unsigned = orderCheckpointFields (spread2 body [(''checkpoint_id'', checkpoint_id)])
         in ebind (if nullish (getp options ''signatures'') then
                     emap (\<lambda>s. JArr [JObj [(''alg'', JStr ED25519), (''key_id'', getp signer ''key_id''), (''value'', JStr s)]])
                       (signPayload N (JObj [(''payload'', unsigned), (''privateKey'', getp options ''privateKey'')]) JUndef)
                   else Inr (getp options ''signatures'')) (\<lambda>signatures.
            Inr (orderCheckpointFields (spread2 unsigned [(''signatures'', signatures)])))))))"

text \<open>
  \<open>for (const x of v)\<close>: arrays, strings, buffers and instances of \<open>Set\<close> are iterable; other class
  instances are taken as not iterable.
\<close>

definition iterate :: "node \<Rightarrow> jsval \<Rightarrow> jsval list res" where
  "iterate N v =
     (case v of
        JArr xs \<Rightarrow> Inr (map element xs)
      | JStr s \<Rightarrow> Inr (map (\<lambda>c. JStr [c]) s)
      | JBytes b \<Rightarrow> Inr (map (\<lambda>c. JInt (int (of_char c))) b)
      | _ \<Rightarrow> (case nd_set N v of Some xs \<Rightarrow> Inr xs | None \<Rightarrow> Inl (TypeError ''value is not iterable'')))"

definition checkpoint_signature_errors :: "node \<Rightarrow> jsval \<Rightarrow> jsval \<Rightarrow> jsval \<Rightarrow> string list res" where
  "checkpoint_signature_errors N options unsigned signature =
     ebind (getE signature ''key_id'') (\<lambda>key_id.
       let publicKey = resolvePublicKey N key_id options
       in Inr (if getp signature ''alg'' \<noteq> JStr ED25519 \<or> \<not> truthy key_id \<or> \<not> truthy (getp signature ''value'')
               then [''checkpoint signature malformed'']
               else if publicKey = JUndef then [''missing public key for '' @ js_String key_id]
               else push_if (\<not> verifySignature N (JObj [(''payload'', unsigned), (''signature'', signature),
                      (''publicKey'', publicKey)]) JUndef JUndef)
                      (''checkpoint signature mismatch for '' @ js_String key_id)))"

definition checkpoint_root_fields :: "string list" where
  "checkpoint_root_fields =
     [''tenant_hash'', ''owner_scope_hash'', ''active_memory_root'', ''deleted_memory_root'', ''receipt_log_root'',
      ''key_registry_root'', ''policy_registry_root'']"

definition checkpoint_shape_errors :: "jsval \<Rightarrow> string list" where
  "checkpoint_shape_errors c =
     push_if (getp c ''schema'' \<noteq> JStr CHECKPOINT_SCHEMA) ''schema mismatch'' @
     concat (map (\<lambda>f. push_if (\<not> isSha256Root (getp c f)) (f @ '' must be a sha256 root'')) checkpoint_root_fields) @
     push_if (\<not> isPreviousHash (getp c ''previous_checkpoint_hash'')) ''previous checkpoint hash mismatch'' @
     push_if (as_count (getp c ''epoch'') = None) ''epoch must be a non-negative integer'' @
     push_if (case getp c ''signatures'' of JArr xs \<Rightarrow> xs = [] | _ \<Rightarrow> True) ''signatures missing''"

definition verifyCheckpoint :: "node \<Rightarrow> jsval \<Rightarrow> jsval \<Rightarrow> jsval \<Rightarrow> jsval res" where
  "verifyCheckpoint N checkpointOrArgs maybePublicKeys maybeOptions =
     (let options = (if isPlainRecord checkpointOrArgs \<and> hasOwn checkpointOrArgs ''checkpoint'' then checkpointOrArgs
            else JObj (obj_puts (props_of maybeOptions)
                   [(''checkpoint'', checkpointOrArgs), (''publicKeys'', maybePublicKeys)]));
          checkpoint = getp options ''checkpoint''
      in if \<not> isPlainRecord checkpoint then Inr (verificationResult False [''checkpoint must be an object''] [])
         else
           ebind (iterate N (coals checkpoint [''signatures''] (JArr []))) (\<lambda>signatures.
           ebind (mapE (checkpoint_signature_errors N options (unsignedCheckpoint checkpoint)) signatures) (\<lambda>signature_errors.
           ebind (expect_root (pick options [''expectedReceiptLogRoot'', ''receiptLogRoot''])
                    ''expectedReceiptLogRoot'' (getp checkpoint ''receipt_log_root'') ''receipt log root mismatch'') (\<lambda>e1.
           ebind (expect_root (pick options [''expectedActiveMemoryRoot'', ''activeMemoryRoot'', ''activeSetRoot''])
                    ''expectedActiveMemoryRoot'' (getp checkpoint ''active_memory_root'') ''active memory root mismatch'') (\<lambda>e2.
           ebind (canonicalize checkpoint) (\<lambda>c.
           ebind (prefixedSha256 N (JStr c)) (\<lambda>checkpoint_hash.
           let errors = checkpoint_shape_errors checkpoint @ concat signature_errors @ e1 @ e2
           in Inr (verificationResult (errors = []) errors [(''checkpoint_hash'', JStr checkpoint_hash)]))))))))"

section \<open>Facts\<close>

lemma getp_orderCheckpointFields [simp]:
  "getp (orderCheckpointFields c) f =
     (if f \<in> set checkpoint_head \<or> f = ''witness_policy'' \<or> f = ''issued_at'' \<or> f = ''signatures''
      then getp c f else JUndef)"
proof -
  have app: "obj_get (xs @ ys) f = (if f \<in> fst ` set xs then obj_get xs f else obj_get ys f)" for xs ys
    by (auto simp: obj_get_def map_add_def map_of_eq_None_iff [THEN iffD2] split: option.split dest: weak_map_of_SomeI map_of_SomeD)
  have "''witness_policy'' \<notin> set checkpoint_head" "''issued_at'' \<notin> set checkpoint_head"
    "''signatures'' \<notin> set checkpoint_head" by (simp_all add: checkpoint_head_def)
  then show ?thesis
    by (auto simp: orderCheckpointFields_def app obj_get_map_fields obj_get_Cons image_image)
qed

definition checkpoint_fields :: "string list" where
  "checkpoint_fields = checkpoint_head @ [''witness_policy'', ''issued_at'', ''signatures'']"

lemma getp_ordered_checkpoint:
  "getp (orderCheckpointFields c) f = (if f \<in> set checkpoint_fields then getp c f else JUndef)"
  by (auto simp: checkpoint_fields_def)

lemma orderCheckpointFields_cong:
  "(\<And>f. f \<in> set checkpoint_fields \<Longrightarrow> getp v f = getp w f) \<Longrightarrow> orderCheckpointFields v = orderCheckpointFields w"
  by (simp add: orderCheckpointFields_def checkpoint_fields_def)

lemma plain_obj_orderCheckpointFields: "plain_obj (orderCheckpointFields c)"
  by (simp add: orderCheckpointFields_def checkpoint_head_def)

lemma not_head: "''witness_policy'' \<notin> set checkpoint_head" "''issued_at'' \<notin> set checkpoint_head"
    "''signatures'' \<notin> set checkpoint_head" "''checkpoint'' \<notin> set checkpoint_fields"
  by (simp_all add: checkpoint_head_def checkpoint_fields_def)

definition signed_checkpoint :: "jsval \<Rightarrow> jsval \<Rightarrow> jsval \<Rightarrow> jsval" where
  "signed_checkpoint b i sgs = orderCheckpointFields
     (spread2 (orderCheckpointFields (spread2 b [(''checkpoint_id'', i)])) [(''signatures'', sgs)])"

lemma getp_signed_checkpoint:
  assumes "plain_obj b"
  shows "getp (signed_checkpoint b i sgs) f =
     (if f = ''signatures'' then sgs else if f = ''checkpoint_id'' then i
      else if f \<in> set checkpoint_fields then getp b f else JUndef)"
proof -
  have "''signatures'' \<in> set checkpoint_fields" "''checkpoint_id'' \<in> set checkpoint_fields"
    by (simp_all add: checkpoint_fields_def checkpoint_head_def)
  with assms show ?thesis
    by (simp add: signed_checkpoint_def getp_ordered_checkpoint getp_spread2 plain_obj_orderCheckpointFields obj_get_Cons
        del: getp_orderCheckpointFields)
qed

lemma unsignedCheckpoint_signed:
  assumes "plain_obj b" "getp b ''signatures'' = JUndef"
  shows "unsignedCheckpoint (signed_checkpoint b i sgs) = orderCheckpointFields (spread2 b [(''checkpoint_id'', i)])"
  unfolding unsignedCheckpoint_def
proof (rule orderCheckpointFields_cong)
  fix f
  assume "f \<in> set checkpoint_fields"
  moreover have "plain_obj (signed_checkpoint b i sgs)" by (simp add: signed_checkpoint_def plain_obj_orderCheckpointFields)
  ultimately show "getp (omit [''signatures''] (signed_checkpoint b i sgs)) f = getp (spread2 b [(''checkpoint_id'', i)]) f"
    using assms by (auto simp: getp_omit getp_signed_checkpoint getp_spread2 obj_get_Cons)
qed

lemma is_ok_canonicalize_obj:
  "is_ok (canonicalize (JObj ps)) \<longleftrightarrow> (\<forall>p \<in> set ps. is_ok (canonicalize (snd p)))"
  by (simp add: canonicalize_def is_ok_ebind_total is_ok_mapE case_prod_unfold)

lemma is_ok_canonicalize_checkpoint:
  "is_ok (canonicalize (orderCheckpointFields c)) \<longleftrightarrow>
     (\<forall>f \<in> insert ''issued_at'' (set checkpoint_head). is_ok (canonicalize (getp c f)))
     \<and> (\<forall>f \<in> {''witness_policy'', ''signatures''}. getp c f = JUndef \<or> is_ok (canonicalize (getp c f)))"
  by (cases "getp c ''witness_policy'' = JUndef"; cases "getp c ''signatures'' = JUndef")
    (auto simp: orderCheckpointFields_def is_ok_canonicalize_obj ball_Un)

lemma canonicalize_signed_checkpoint:
  assumes "plain_obj b" "getp b ''signatures'' = JUndef" "is_ok (canonicalize sgs)" "sgs \<noteq> JUndef"
    and "is_ok (canonicalize (orderCheckpointFields (spread2 b [(''checkpoint_id'', i)])))"
  shows "is_ok (canonicalize (signed_checkpoint b i sgs))"
proof -
  let ?u = "spread2 b [(''checkpoint_id'', i)]"
  let ?w = "spread2 (orderCheckpointFields ?u) [(''signatures'', sgs)]"
  have sig: "getp ?u ''signatures'' = JUndef" using assms by (simp add: getp_spread2 obj_get_Cons)
  have same: "getp ?w f = getp ?u f" if "f \<in> set checkpoint_fields" "f \<noteq> ''signatures''" for f
    using that assms(1)
    by (simp add: getp_spread2 plain_obj_orderCheckpointFields getp_ordered_checkpoint obj_get_Cons del: getp_orderCheckpointFields)
  have "getp ?w ''signatures'' = sgs" by (simp add: getp_spread2 plain_obj_orderCheckpointFields obj_get_Cons)
  moreover have "getp ?w f = getp ?u f" if "f \<in> set checkpoint_head" for f
    using that same not_head by (auto simp: checkpoint_fields_def)
  moreover have "getp ?w ''witness_policy'' = getp ?u ''witness_policy''" "getp ?w ''issued_at'' = getp ?u ''issued_at''"
    using same by (simp_all add: checkpoint_fields_def)
  ultimately show ?thesis
    using assms(3-5) sig unfolding signed_checkpoint_def is_ok_canonicalize_checkpoint by simp
qed

definition checkpoint_body_ok :: "jsval \<Rightarrow> bool" where
  "checkpoint_body_ok b =
     (plain_obj b \<and> getp b ''schema'' = JStr CHECKPOINT_SCHEMA
      \<and> list_all (\<lambda>f. isSha256Root (getp b f)) checkpoint_root_fields
      \<and> isPreviousHash (getp b ''previous_checkpoint_hash'') \<and> as_count (getp b ''epoch'') \<noteq> None
      \<and> getp b ''signatures'' = JUndef)"

lemma checkpoint_body_Inr:
  assumes "hash_hex N" "checkpoint_body N options = Inr b"
  shows "checkpoint_body_ok b"
proof -
  have root: "rx_full ROOT_RE r" if "rootFromHashable N x y = Inr r" for x y r
    using that assms(1) by (auto simp: rootFromHashable_def res_simps split: if_splits dest: normalizeSha256Root_root)
  show ?thesis using assms(2)
    by (auto simp: checkpoint_body_def Let_def res_simps checkpoint_body_ok_def obj_get_Cons checkpoint_root_fields_def
        requiredInteger_Inr dest: normalizeSha256Root_root normalizePreviousHash_ok root)
qed

lemma createCheckpoint_Inr:
  assumes "createCheckpoint N a m = Inr r"
    and "options = spread2 (if isPlainRecord a then a else JObj []) (props_of m)"
    and "nullish (getp options ''signatures'')"
  shows "\<exists>signer b i s. normalizeSigner N (getp options ''signer'') (pick options [''key_id'', ''keyId''])
                 (getp options ''privateKey'') = Inr signer \<and> checkpoint_body N options = Inr b
     \<and> sign_bytes N (orderCheckpointFields (spread2 b [(''checkpoint_id'', i)])) (getp options ''privateKey'') = Inr s
     \<and> r = signed_checkpoint b i
         (JArr [JObj [(''alg'', JStr ED25519), (''key_id'', getp signer ''key_id''), (''value'', JStr s)]])"
  using assms(1,3)
  by (auto simp: createCheckpoint_def Let_def res_simps assms(2) [symmetric] signed_checkpoint_def split: if_splits)

lemma sign_bytes_canonical:
  "sign_bytes N (orderCheckpointFields c) k = Inr s \<Longrightarrow> is_ok (canonicalize (orderCheckpointFields c))"
  by (auto simp: sign_bytes_def res_simps bytesForSigning_def is_ok_iff orderCheckpointFields_def)

lemma checkpoint_accepted:
  assumes "hash_hex N" and "createCheckpoint N args m = Inr r"
    and "options = spread2 (if isPlainRecord args then args else JObj []) (props_of m)"
    and "nullish (getp options ''signatures'')"
    and "key_pair_ok N (getp options ''privateKey'') pub" and "pub \<noteq> JUndef"
    and "getp (element (hd (elems (getp r ''signatures'')))) ''key_id'' = JStr kid"
  shows "\<exists>v. verifyCheckpoint N (JObj [(''checkpoint'', r), (''publicKeys'', JObj [(kid, pub)])]) JUndef (JObj []) = Inr v
    \<and> getp v ''ok'' = JBool True" and "isPlainRecord r \<and> \<not> hasOwn r ''checkpoint''"
proof -
  obtain signer b i s where signer: "normalizeSigner N (getp options ''signer'') (pick options [''key_id'', ''keyId''])
                 (getp options ''privateKey'') = Inr signer" and body: "checkpoint_body N options = Inr b"
    and sign: "sign_bytes N (orderCheckpointFields (spread2 b [(''checkpoint_id'', i)])) (getp options ''privateKey'') = Inr s"
    and r: "r = signed_checkpoint b i
         (JArr [JObj [(''alg'', JStr ED25519), (''key_id'', getp signer ''key_id''), (''value'', JStr s)]])"
    using createCheckpoint_Inr [OF assms(2-4)] by blast
  let ?sg = "JObj [(''alg'', JStr ED25519), (''key_id'', getp signer ''key_id''), (''value'', JStr s)]"
  have b: "checkpoint_body_ok b" by (rule checkpoint_body_Inr [OF assms(1) body])
  then have plain: "plain_obj b" "getp b ''signatures'' = JUndef" by (simp_all add: checkpoint_body_ok_def)
  have kid: "getp signer ''key_id'' = JStr kid"
    using assms(7) by (simp add: r getp_signed_checkpoint plain elems_def element_def obj_get_Cons)
  have kid_ne: "kid \<noteq> []" using normalizeSigner_Inr [OF signer] kid by (auto simp: obj_get_Cons)
  have s: "s \<noteq> []" using sign_bytes_nonempty [OF assms(5) sign] .
  have "verify_bytes N (unsignedCheckpoint r) ?sg pub"
    unfolding r unsignedCheckpoint_signed [OF plain]
    by (rule verify_sign_bytes [OF assms(5,6) sign]) (simp_all add: isPlainRecord_def obj_get_Cons)
  then have sig: "checkpoint_signature_errors N (JObj [(''checkpoint'', r), (''publicKeys'', JObj [(kid, pub)])])
      (unsignedCheckpoint r) ?sg = Inr []"
    using s kid_ne assms(6)
    by (simp add: checkpoint_signature_errors_def getE_def kid resolvePublicKey_def obj_get_Cons)
  have "is_ok (canonicalize r)" unfolding r
    by (rule canonicalize_signed_checkpoint [OF plain _ _ sign_bytes_canonical [OF sign]])
      (simp_all add: canonicalize_def kid is_ok_ebind_total is_ok_mapE)
  then obtain c where c: "canonicalize r = Inr c" by (auto simp: is_ok_iff)
  have "getp r ''signatures'' = JArr [?sg]" by (simp add: r getp_signed_checkpoint plain)
  moreover have "checkpoint_shape_errors r = []"
    using b by (auto simp: checkpoint_shape_errors_def r getp_signed_checkpoint plain checkpoint_body_ok_def
        checkpoint_root_fields_def checkpoint_fields_def checkpoint_head_def)
  moreover show rec: "isPlainRecord r \<and> \<not> hasOwn r ''checkpoint''"
    by (auto simp: r signed_checkpoint_def orderCheckpointFields_def isPlainRecord_def hasOwn_def keys_of_def checkpoint_head_def)
  ultimately show "\<exists>v. verifyCheckpoint N (JObj [(''checkpoint'', r), (''publicKeys'', JObj [(kid, pub)])]) JUndef (JObj []) = Inr v
    \<and> getp v ''ok'' = JBool True" using sig c
    by (simp add: verifyCheckpoint_def Let_def obj_get_Cons iterate_def element_def expect_root_def getp_verificationResult
        isPlainRecord_def hasOwn_def keys_of_def)
qed

text \<open>
  C22. A checkpoint made by \<open>createCheckpoint\<close> with a signing key passes \<open>verifyCheckpoint\<close> under a
  keyring that maps its key identifier to the matching public key.
\<close>

theorem createCheckpoint_verifies:
  assumes "hash_hex N" and "createCheckpoint N args m = Inr r"
    and "options = spread2 (if isPlainRecord args then args else JObj []) (props_of m)"
    and "nullish (getp options ''signatures'')"
    and "key_pair_ok N (getp options ''privateKey'') pub" and "pub \<noteq> JUndef"
    and "getp (element (hd (elems (getp r ''signatures'')))) ''key_id'' = JStr kid"
  shows "\<exists>v. verifyCheckpoint N r (JObj [(kid, pub)]) (JObj []) = Inr v \<and> getp v ''ok'' = JBool True"
proof -
  have "verifyCheckpoint N r keys (JObj []) = verifyCheckpoint N (JObj [(''checkpoint'', r), (''publicKeys'', keys)]) JUndef (JObj [])" for keys
    using checkpoint_accepted(2) [OF assms]
    by (simp add: verifyCheckpoint_def isPlainRecord_def hasOwn_def keys_of_def)
  with checkpoint_accepted(1) [OF assms] show ?thesis by simp
qed

definition sample_checkpoint_args :: jsval where
  "sample_checkpoint_args = JObj [(''privateKey'', JStr ''k''), (''key_id'', JStr ''key-1''), (''epoch'', JInt 3)]"

lemma sample_checkpoint_created:
  obtains r where "createCheckpoint sample sample_checkpoint_args (JObj []) = Inr r"
    "getp (element (hd (elems (getp r ''signatures'')))) ''key_id'' = JStr ''key-1''"
proof -
  let ?o = sample_checkpoint_args
  have opts: "spread2 (if isPlainRecord ?o then ?o else JObj []) (props_of (JObj [])) = ?o"
    by (simp add: sample_checkpoint_args_def isPlainRecord_def spread2_def obj_put_def has_key_def is_array_index_def ch_digit_iff)
  have canon: "canonicalize (JStr s) = Inr (json_string s)" for s by (simp add: canonicalize_def)
  obtain b where b: "checkpoint_body sample ?o = Inr b" "jsonable b" "getp b ''witness_policy'' = JUndef"
    "\<forall>f \<in> insert ''issued_at'' (set checkpoint_head). f = ''checkpoint_id'' \<or> getp b f \<noteq> JUndef"
    by (simp add: checkpoint_body_def sample_checkpoint_args_def obj_get_Cons rootFromHashable_def canon checkpoint_head_def
        requiredInteger_def sample_roots normalizePreviousHash_def requiredString_def sample_def [THEN arg_cong [where f = nd_now]])
  have plain: "plain_obj b" "getp b ''signatures'' = JUndef"
    using checkpoint_body_Inr [OF hash_hex_sample b(1)] by (simp_all add: checkpoint_body_ok_def)
  have ok: "is_ok (canonicalize v)" if "jsonable v" for v
    using canonicalize_jsonable [OF that] by (auto simp: is_ok_iff)
  obtain ps where ps: "b = JObj ps" using plain(1) by (auto simp: plain_obj_def)
  have "is_ok (canonicalize (orderCheckpointFields (spread2 b [(''checkpoint_id'', JStr i)])))" for i
    unfolding is_ok_canonicalize_checkpoint
    using plain b ok jsonable_getp [of ps] ps by (auto simp: getp_spread2 obj_get_Cons)
  then have c: "\<exists>c. canonicalize (orderCheckpointFields (spread2 b [(''checkpoint_id'', JStr i)])) = Inr c" for i
    by (simp add: is_ok_iff)
  have sign: "\<exists>s. sign_bytes sample (orderCheckpointFields (spread2 b [(''checkpoint_id'', JStr i)])) (JStr ''k'') = Inr s" for i
    using c [of i] by (auto simp: sign_bytes_def bytesForSigning_def sample_def orderCheckpointFields_def)
  obtain d where "canonicalize b = Inr d" using canonicalize_jsonable [OF b(2)] by blast
  then obtain s where "createCheckpoint sample ?o (JObj []) = Inr (signed_checkpoint b (JStr (''chk_'' @ take 32 (sha256Str sample d)))
      (JArr [JObj [(''alg'', JStr ED25519), (''key_id'', JStr ''key-1''), (''value'', JStr s)]]))"
    using b(1) sign [of "''chk_'' @ take 32 (sha256Str sample d)"] unfolding createCheckpoint_def Let_def opts
    by (auto simp: sample_checkpoint_args_def obj_get_Cons normalizeSigner_def isPlainRecord_def requiredString_def signed_checkpoint_def)
  then show thesis
    by (rule that) (simp add: getp_signed_checkpoint plain elems_def element_def obj_get_Cons)
qed

theorem createCheckpoint_verifies_witness:
  "\<exists>r v. createCheckpoint sample sample_checkpoint_args (JObj []) = Inr r
     \<and> verifyCheckpoint sample r (JObj [(''key-1'', JStr ''p'')]) (JObj []) = Inr v \<and> getp v ''ok'' = JBool True"
proof -
  obtain r where r: "createCheckpoint sample sample_checkpoint_args (JObj []) = Inr r"
    "getp (element (hd (elems (getp r ''signatures'')))) ''key_id'' = JStr ''key-1''"
    by (rule sample_checkpoint_created)
  have "\<exists>v. verifyCheckpoint sample r (JObj [(''key-1'', JStr ''p'')]) (JObj []) = Inr v \<and> getp v ''ok'' = JBool True"
    by (rule createCheckpoint_verifies [OF hash_hex_sample r(1) refl _ key_pair_ok_sample _ r(2)])
      (simp_all add: sample_checkpoint_args_def isPlainRecord_def spread2_def obj_get_put)
  with r(1) show ?thesis by blast
qed

lemma verifyCheckpoint_signature_ok:
  "checkpoint_signature_errors N options u s = Inr [] \<longleftrightarrow>
     \<not> nullish s \<and> getp s ''alg'' = JStr ED25519 \<and> truthy (getp s ''key_id'') \<and> truthy (getp s ''value'')
     \<and> verify_bytes N u s (resolvePublicKey N (getp s ''key_id'') options)"
  by (auto simp: checkpoint_signature_errors_def getE_def Let_def verify_bytes_def)

text \<open>
  C23. What \<open>verifyCheckpoint\<close> accepts has at least one signature, every signature verifies over the
  unsigned checkpoint under the key the keyring gives for it, every root is a \<open>sha256\<close> root and the
  epoch is a non-negative integer.
\<close>

theorem verifyCheckpoint_sound:
  assumes "verifyCheckpoint N (JObj [(''checkpoint'', c), (''publicKeys'', keys)]) JUndef (JObj []) = Inr v"
    and "getp v ''ok'' = JBool True"
  shows "\<exists>sigs. getp c ''signatures'' = JArr sigs \<and> sigs \<noteq> []
    \<and> (\<forall>s \<in> set sigs. verify_bytes N (unsignedCheckpoint c) s (resolvePublicKey N (getp s ''key_id'')
          (JObj [(''checkpoint'', c), (''publicKeys'', keys)])))
    \<and> (\<forall>f \<in> set checkpoint_root_fields. isSha256Root (getp c f))
    \<and> isPreviousHash (getp c ''previous_checkpoint_hash'') \<and> as_count (getp c ''epoch'') \<noteq> None"
proof -
  let ?o = "JObj [(''checkpoint'', c), (''publicKeys'', keys)]"
  have shape: "checkpoint_shape_errors c = []"
    and "\<exists>sigs es. iterate N (coals c [''signatures''] (JArr [])) = Inr sigs
      \<and> mapE (checkpoint_signature_errors N ?o (unsignedCheckpoint c)) sigs = Inr es \<and> concat es = []"
    using assms by (auto simp: verifyCheckpoint_def isPlainRecord_def hasOwn_def keys_of_def obj_get_Cons Let_def res_simps
        getp_verificationResult split: if_splits)
  then obtain sigs es where it: "iterate N (coals c [''signatures''] (JArr [])) = Inr sigs"
    and es: "list_all2 (\<lambda>s e. checkpoint_signature_errors N ?o (unsignedCheckpoint c) s = Inr e) sigs es" "\<forall>e \<in> set es. e = []"
    by (auto simp: res_simps)
  from shape obtain xs where xs: "getp c ''signatures'' = JArr xs" "xs \<noteq> []"
    by (auto simp: checkpoint_shape_errors_def split: jsval.splits)
  have ok: "checkpoint_signature_errors N ?o (unsignedCheckpoint c) (element s) = Inr []" if "s \<in> set xs" for s
  proof -
    have "element s \<in> set sigs" using it xs that by (auto simp: iterate_def)
    then show ?thesis using es unfolding list_all2_conv_all_nth in_set_conv_nth [of _ sigs] by (metis nth_mem)
  qed
  have "verify_bytes N (unsignedCheckpoint c) s (resolvePublicKey N (getp s ''key_id'') ?o)" if "s \<in> set xs" for s
  proof -
    have "element s = s" using ok [OF that] by (auto simp: verifyCheckpoint_signature_ok element_def split: if_splits)
    with ok [OF that] show ?thesis by (simp add: verifyCheckpoint_signature_ok)
  qed
  moreover have "\<forall>f \<in> set checkpoint_root_fields. isSha256Root (getp c f)"
    "isPreviousHash (getp c ''previous_checkpoint_hash'')" "as_count (getp c ''epoch'') \<noteq> None"
    using shape by (auto simp: checkpoint_shape_errors_def)
  ultimately show ?thesis using xs by blast
qed

theorem verifyCheckpoint_sound_witness:
  "\<exists>c v sigs. verifyCheckpoint sample (JObj [(''checkpoint'', c), (''publicKeys'', JObj [(''key-1'', JStr ''p'')])]) JUndef (JObj []) = Inr v
     \<and> getp v ''ok'' = JBool True \<and> getp c ''signatures'' = JArr sigs \<and> sigs \<noteq> []"
proof -
  obtain r where r: "createCheckpoint sample sample_checkpoint_args (JObj []) = Inr r"
    "getp (element (hd (elems (getp r ''signatures'')))) ''key_id'' = JStr ''key-1''"
    by (rule sample_checkpoint_created)
  obtain v where v: "verifyCheckpoint sample (JObj [(''checkpoint'', r), (''publicKeys'', JObj [(''key-1'', JStr ''p'')])]) JUndef (JObj []) = Inr v"
    "getp v ''ok'' = JBool True"
    using checkpoint_accepted [OF hash_hex_sample r(1) refl _ key_pair_ok_sample _ r(2), of "JStr ''p''"]
    by (auto simp: sample_checkpoint_args_def isPlainRecord_def spread2_def obj_get_put)
  from verifyCheckpoint_sound [OF v] v show ?thesis by blast
qed

end
