(* ===== verification/VaultPublic.thy ===== *)
theory VaultPublic
  imports Receipts
begin

text \<open>
  The public projections of \<open>packages/vault\<close>: what leaves a vault in records, events and receipts.
  Plaintext-like fields are dropped (\<open>sanitizePublicValue\<close>), metadata is reduced to counts and
  digests (\<open>metadata\<close>), source references to hashes (\<open>sanitizeSourceRefs\<close>).  A \<open>BigInt\<close> inside a
  value is the one thing the fallback encoder rejects, so the encoders return results.
\<close>

section \<open>Keys\<close>

definition PUBLIC_PLAINTEXT_KEYS :: "string list" where
  "PUBLIC_PLAINTEXT_KEYS =
     [''body'', ''content'', ''context'', ''contexttext'', ''description'', ''memory'', ''memories'', ''note'',
      ''notes'', ''plain'', ''plaintext'', ''prompt'', ''raw'', ''rawmemory'', ''rawmemories'', ''response'',
      ''summary'', ''text'']"

definition SAFE_METADATA_DIGEST_RE :: rx where
  "SAFE_METADATA_DIGEST_RE = RAlt
     (RSeq (rx_opt (rx_lit ''sha256:'')) (rx_times 64 (RCls ch_hex)))
     (RSeq (rx_lit ''hmac-sha256:'') (rx_times 64 (RCls ch_hex)))"

definition SOURCE_REF_ROOT_RE :: rx where
  "SOURCE_REF_ROOT_RE = ROOT_RE"

definition normalizedPublicKey :: "string \<Rightarrow> string" where
  "normalizedPublicKey key = filter (\<lambda>c. ch_lower c \<or> ch_digit c) (toLowerCase key)"

definition isPlaintextLikeKey :: "string \<Rightarrow> bool" where
  "isPlaintextLikeKey key = (normalizedPublicKey key \<in> set PUBLIC_PLAINTEXT_KEYS)"

definition isSourceRefPlaintextLikeKey :: "string \<Rightarrow> bool" where
  "isSourceRefPlaintextLikeKey key = (isPlaintextLikeKey key \<or> normalizedPublicKey key = ''value'')"

definition privateCommitmentKey :: "node \<Rightarrow> string \<Rightarrow> string" where
  "privateCommitmentKey N key = ''private_field_'' @ take 12 (sha256Str N (normalizedPublicKey key)) @ ''_commitment''"

text \<open>\<open>s.replace(/[^A-Za-z0-9]+/g, '_')\<close>; the flag says that the run has already been written.\<close>

fun squash_runs :: "bool \<Rightarrow> string \<Rightarrow> string" where
  "squash_runs in_run [] = []"
| "squash_runs in_run (c # s) =
     (if ch_alnum c then c # squash_runs False s
      else if in_run then squash_runs True s else CHR ''_'' # squash_runs True s)"

definition trim_underscores :: "string \<Rightarrow> string" where
  "trim_underscores s = rev (dropWhile (\<lambda>c. c = CHR ''_'') (rev (dropWhile (\<lambda>c. c = CHR ''_'') s)))"

definition metadataKeyStem :: "node \<Rightarrow> string \<Rightarrow> string" where
  "metadataKeyStem N key =
     (let stem = toLowerCase (trim_underscores (squash_runs False (split_camel key)))
      in if stem \<noteq> [] then stem else ''field_'' @ take 12 (sha256Str N key))"

definition metadataCommitmentKey :: "node \<Rightarrow> string \<Rightarrow> string" where
  "metadataCommitmentKey N key = metadataKeyStem N key @ ''_commitment''"

section \<open>Encoders\<close>

text \<open>\<open>asSha256\<close> of a string.\<close>

definition sha_root :: "node \<Rightarrow> string \<Rightarrow> string" where
  "sha_root N s = SHA256_PREFIX @ sha256Str N s"

definition json_primitive :: "jsval \<Rightarrow> string res" where
  "json_primitive v =
     (case v of
        JNull \<Rightarrow> Inr ''null''
      | JStr s \<Rightarrow> Inr (json_string s)
      | JBool b \<Rightarrow> Inr (if b then ''true'' else ''false'')
      | JNum n \<Rightarrow> Inr (if is_finite n then num_to_string n else ''null'')
      | JBig i \<Rightarrow> Inl (TypeError ''Do not know how to serialize a BigInt'')
      | _ \<Rightarrow> Inr ''undefined'')"

definition object_text :: "(string \<times> string) list \<Rightarrow> string" where
  "object_text kvs = ''{'' @ join '','' (map (\<lambda>(k, t). json_string k @ '':'' @ t) (sort_key fst kvs)) @ ''}''"

fun stableStringify :: "jsval \<Rightarrow> string res" where
  "stableStringify (JArr xs) =
     emap (\<lambda>ts. ''['' @ join '','' ts @ '']'') (mapE (\<lambda>x. if x \<in> {JHole, JUndef, JFun, JSym} then Inr [] else stableStringify x) xs)"
| "stableStringify (JObj ps) = emap object_text (mapE (\<lambda>(k, v). emap (\<lambda>t. (k, t)) (stableStringify v)) ps)"
| "stableStringify (JInst c ps) = emap object_text (mapE (\<lambda>(k, v). emap (\<lambda>t. (k, t)) (stableStringify v)) ps)"
| "stableStringify (JBytes b) =
     Inr (object_text (map (\<lambda>(k, v). (k, js_String v)) (props_of (JBytes b))))"
| "stableStringify v = json_primitive v"

definition canonical :: "jsval \<Rightarrow> string res" where
  "canonical v = ecatch (canonicalize v) (stableStringify v)"

section \<open>Metadata\<close>

definition isMetadataPrimitive :: "jsval \<Rightarrow> bool" where
  "isMetadataPrimitive v = (v = JNull \<or> js_typeof v \<in> {''string'', ''number'', ''boolean''})"

definition isSafeMetadataPrimitive :: "string \<Rightarrow> jsval \<Rightarrow> bool" where
  "isSafeMetadataPrimitive key v =
     (if isPlaintextLikeKey key then False
      else if endsWith key ''_count'' then (case v of JNum n \<Rightarrow> is_finite n | _ \<Rightarrow> False)
      else if (endsWith key ''_commitment'' \<or> endsWith key ''_hash'') \<and> isString v
        then rx_full SAFE_METADATA_DIGEST_RE (js_String v)
      else False)"

definition commitMetadataValue :: "node \<Rightarrow> props \<Rightarrow> string \<Rightarrow> jsval \<Rightarrow> props res" where
  "commitMetadataValue N out key v =
     ebind (if isMetadataPrimitive v then Inr (js_String v) else canonical v) (\<lambda>t.
       Inr (obj_put (metadataCommitmentKey N key) (JStr (sha_root N t)) out))"

definition metadata_field :: "node \<Rightarrow> props \<Rightarrow> string \<times> jsval \<Rightarrow> props res" where
  "metadata_field N out = (\<lambda>(key, v).
     if v = JUndef then Inr out
     else if isMetadataPrimitive v then
       if isSafeMetadataPrimitive key v then Inr (obj_put key v out) else commitMetadataValue N out key v
     else if isObject v then commitMetadataValue N out key v
     else Inr out)"

definition metadata :: "node \<Rightarrow> jsval \<Rightarrow> jsval res" where
  "metadata N input =
     (if \<not> isObject input then Inr (JObj [])
      else emap JObj (foldE (metadata_field N) [] (props_of input)))"

section \<open>Source references\<close>

definition source_ref_field :: "node \<Rightarrow> string \<times> jsval \<times> jsval \<Rightarrow> props \<Rightarrow> props" where
  "source_ref_field N = (\<lambda>(key, item, sanitized) out.
     if isSourceRefPlaintextLikeKey key then
       if js_typeof item \<in> {''string'', ''number'', ''boolean''}
       then obj_put (privateCommitmentKey N key) (JStr (sha_root N (js_String item))) out else out
     else if key = ''source_hash'' \<and> isString item \<and> rx_full SOURCE_REF_ROOT_RE (js_String item)
       then obj_put key item out
     else if sanitized \<noteq> JUndef then obj_put key sanitized out else out)"

definition source_ref_object :: "node \<Rightarrow> (string \<times> jsval \<times> jsval) list \<Rightarrow> jsval" where
  "source_ref_object N fs =
     (let out = fold (source_ref_field N) fs [] in if out = [] then JUndef else JObj out)"

fun sanitizeSourceRefValue :: "node \<Rightarrow> jsval \<Rightarrow> jsval" where
  "sanitizeSourceRefValue N (JStr s) = JStr (sha_root N s)"
| "sanitizeSourceRefValue N (JNum n) = JNum n"
| "sanitizeSourceRefValue N (JBool b) = JBool b"
| "sanitizeSourceRefValue N (JArr xs) =
     JArr (filter (\<lambda>x. x \<noteq> JUndef) (map (\<lambda>x. if x = JHole then JUndef else sanitizeSourceRefValue N x) xs))"
| "sanitizeSourceRefValue N (JObj ps) =
     source_ref_object N (map (\<lambda>(k, v). (k, v, sanitizeSourceRefValue N v)) ps)"
| "sanitizeSourceRefValue N (JInst c ps) =
     source_ref_object N (map (\<lambda>(k, v). (k, v, sanitizeSourceRefValue N v)) ps)"
| "sanitizeSourceRefValue N (JBytes b) =
     source_ref_object N (map (\<lambda>(k, v). (k, v, v)) (props_of (JBytes b)))"
| "sanitizeSourceRefValue N v = JUndef"

definition sanitizeSourceRefs :: "node \<Rightarrow> jsval \<Rightarrow> jsval" where
  "sanitizeSourceRefs N refs =
     JArr (filter (\<lambda>x. x \<noteq> JUndef) (map (\<lambda>ref.
       case element ref of
         JStr s \<Rightarrow> JObj [(''source_hash'', JStr (sha_root N s))]
       | r \<Rightarrow> sanitizeSourceRefValue N r) (elems refs)))"

section \<open>Public values\<close>

definition public_field ::
  "node \<Rightarrow> string \<Rightarrow> jsval \<Rightarrow> jsval res \<Rightarrow> (string \<times> jsval) option res" where
  "public_field N key item sanitized =
     (if isPlaintextLikeKey key then Inr None
      else if key = ''metadata'' then emap (\<lambda>m. Some (''metadata'', m)) (metadata N item)
      else if key = ''source_refs'' \<or> key = ''sourceRefs'' then Inr (Some (''source_refs'', sanitizeSourceRefs N item))
      else if item \<noteq> JUndef then emap (\<lambda>w. Some (key, w)) sanitized
      else Inr None)"

definition public_object :: "(string \<times> jsval) option list \<Rightarrow> jsval" where
  "public_object fs = JObj (obj_puts (concat (map (case_option [] (\<lambda>f. [f])) fs)) [])"

fun sanitizePublicValue :: "node \<Rightarrow> jsval \<Rightarrow> jsval res" where
  "sanitizePublicValue N (JArr xs) =
     emap JArr (mapE (\<lambda>x. if x = JHole then Inr JHole else sanitizePublicValue N x) xs)"
| "sanitizePublicValue N (JObj ps) =
     emap public_object (mapE (\<lambda>(k, v). public_field N k v (sanitizePublicValue N v)) ps)"
| "sanitizePublicValue N (JInst c ps) =
     emap public_object (mapE (\<lambda>(k, v). public_field N k v (sanitizePublicValue N v)) ps)"
| "sanitizePublicValue N (JBytes b) = Inr (JObj (props_of (JBytes b)))"
| "sanitizePublicValue N v = Inr v"

fun pruneUndefined :: "jsval \<Rightarrow> jsval" where
  "pruneUndefined (JArr xs) = JArr (map pruneUndefined xs)"
| "pruneUndefined (JObj ps) =
     JObj (map (\<lambda>(k, v). (k, pruneUndefined v)) (filter (\<lambda>p. snd p \<noteq> JUndef) ps))"
| "pruneUndefined v = v"

section \<open>The plaintext marker check of receipts\<close>

text \<open>\<open>JSON.stringify\<close> of a receipt, whose values are JSON.\<close>

fun json_stringify :: "jsval \<Rightarrow> string" where
  "json_stringify (JStr s) = json_string s"
| "json_stringify (JNum n) = (if is_finite n then num_to_string n else ''null'')"
| "json_stringify (JBool b) = (if b then ''true'' else ''false'')"
| "json_stringify (JArr xs) = ''['' @ join '','' (map json_stringify xs) @ '']''"
| "json_stringify (JObj ps) =
     ''{'' @ join '','' (map (\<lambda>(k, v). json_string k @ '':'' @ json_stringify v) ps) @ ''}''"
| "json_stringify v = ''null''"

definition containsPlaintextMarker :: "jsval \<Rightarrow> bool" where
  "containsPlaintextMarker v =
     (let encoded = toLowerCase (json_stringify v)
      in list_ex (str_includes encoded)
           [''plaintext'', ''content'' @ [CHR 0x22, CHR '':''], ''text'' @ [CHR 0x22, CHR '':'']])"

section \<open>What the projections leave\<close>

fun no_plain :: "jsval \<Rightarrow> bool" where
  "no_plain (JArr xs) = (\<forall>x \<in> set xs. no_plain x)"
| "no_plain (JObj ps) = (\<forall>p \<in> set ps. \<not> isPlaintextLikeKey (fst p) \<and> no_plain (snd p))"
| "no_plain (JInst c ps) = False"
| "no_plain v = True"

lemma normalizedPublicKey_append: "normalizedPublicKey (s @ t) = normalizedPublicKey s @ normalizedPublicKey t"
  by (simp add: normalizedPublicKey_def toLowerCase_def)

lemma not_plain_commitment: "\<not> isSourceRefPlaintextLikeKey (s @ ''_commitment'')"
proof -
  have "normalizedPublicKey ''_commitment'' = ''commitment''"
    by (simp add: normalizedPublicKey_def toLowerCase_def lower_char_def ch_lower_iff ch_digit_iff)
  then have "take 4 (rev (normalizedPublicKey (s @ ''_commitment''))) = ''tnem''"
    by (simp add: normalizedPublicKey_append)
  then show ?thesis
    by (auto simp: isSourceRefPlaintextLikeKey_def isPlaintextLikeKey_def PUBLIC_PLAINTEXT_KEYS_def)
qed

lemma source_plain: "isPlaintextLikeKey k \<Longrightarrow> isSourceRefPlaintextLikeKey k"
  by (simp add: isSourceRefPlaintextLikeKey_def)

lemma sha_root_digest: "hash_hex N \<Longrightarrow> rx_full SAFE_METADATA_DIGEST_RE (sha_root N s)"
  using hash_hexD [of N s]
  by (simp add: rx_full_iff_lang SAFE_METADATA_DIGEST_RE_def rx_lang conc_def sha_root_def SHA256_PREFIX_def)
    (metis append_Cons append_Nil)

definition metadata_entry_ok :: "string \<times> jsval \<Rightarrow> bool" where
  "metadata_entry_ok p = (\<not> isPlaintextLikeKey (fst p)
     \<and> ((\<exists>n. snd p = JNum n \<and> is_finite n \<and> endsWith (fst p) ''_count'')
        \<or> (\<exists>s. snd p = JStr s \<and> rx_full SAFE_METADATA_DIGEST_RE s
              \<and> (endsWith (fst p) ''_commitment'' \<or> endsWith (fst p) ''_hash''))))"

lemma endsWith_append: "endsWith (s @ t) t"
  by (simp add: endsWith_def)

lemma metadata_field_ok:
  assumes "hash_hex N" "metadata_field N out p = Inr out'" "\<forall>q \<in> set out. metadata_entry_ok q"
  shows "\<forall>q \<in> set out'. metadata_entry_ok q"
proof -
  obtain k v where p: "p = (k, v)" by (cases p)
  have put: "\<forall>q \<in> set (obj_put k' w out). metadata_entry_ok q" if "metadata_entry_ok (k', w)" for k' w
    using set_obj_put [of k' w out] assms(3) that by blast
  have commit: "\<forall>q \<in> set out'. metadata_entry_ok q" if "commitMetadataValue N out k v = Inr out'"
  proof -
    from that obtain t where "out' = obj_put (metadataCommitmentKey N k) (JStr (sha_root N t)) out"
      by (auto simp: commitMetadataValue_def res_simps)
    then show ?thesis
      using put [of "metadataCommitmentKey N k" "JStr (sha_root N t)"] assms(1) not_plain_commitment source_plain
      by (auto simp: metadata_entry_ok_def metadataCommitmentKey_def sha_root_digest endsWith_append)
  qed
  have safe: "metadata_entry_ok (k, v)" if "isSafeMetadataPrimitive k v"
    using that by (auto simp: isSafeMetadataPrimitive_def metadata_entry_ok_def isString_iff split: if_splits jsval.splits)
  from assms(2,3) show ?thesis
    using commit put safe by (auto simp: metadata_field_def p split: if_splits)
qed

lemma metadata_ok:
  assumes "hash_hex N" "metadata N input = Inr w"
  shows "\<exists>ps. w = JObj ps \<and> (\<forall>q \<in> set ps. metadata_entry_ok q)"
proof (cases "isObject input")
  case True
  with assms(2) obtain ps where ps: "foldE (metadata_field N) [] (props_of input) = Inr ps" "w = JObj ps"
    by (auto simp: metadata_def res_simps)
  have "\<forall>q \<in> set ps. metadata_entry_ok q"
    by (rule foldE_invariant [OF ps(1)]) (auto dest: metadata_field_ok [OF assms(1)])
  with ps(2) show ?thesis by blast
qed (use assms(2) in \<open>auto simp: metadata_def\<close>)

text \<open>Where a field of public metadata comes from.\<close>

definition metadata_origin :: "node \<Rightarrow> props \<Rightarrow> string \<times> jsval \<Rightarrow> bool" where
  "metadata_origin N ps q \<longleftrightarrow>
     q \<in> set ps \<and> isSafeMetadataPrimitive (fst q) (snd q)
     \<or> (\<exists>key x t. (key, x) \<in> set ps \<and> (if isMetadataPrimitive x then t = js_String x else canonical x = Inr t)
          \<and> q = (metadataCommitmentKey N key, JStr (sha_root N t)))"

lemma metadata_field_origin:
  assumes "metadata_field N out p = Inr out'" "p \<in> set ps" "\<forall>q \<in> set out. metadata_origin N ps q"
  shows "\<forall>q \<in> set out'. metadata_origin N ps q"
proof -
  obtain k v where p: "p = (k, v)" by (cases p)
  have put: "\<forall>q \<in> set (obj_put k' w out). metadata_origin N ps q" if "metadata_origin N ps (k', w)" for k' w
    using set_obj_put [of k' w out] assms(3) that by blast
  have commit: "\<forall>q \<in> set out'. metadata_origin N ps q" if "commitMetadataValue N out k v = Inr out'"
  proof -
    from that obtain t where t: "(if isMetadataPrimitive v then Inr (js_String v) else canonical v) = Inr t"
      and out: "out' = obj_put (metadataCommitmentKey N k) (JStr (sha_root N t)) out"
      by (auto simp: commitMetadataValue_def res_simps)
    from t assms(2) have "metadata_origin N ps (metadataCommitmentKey N k, JStr (sha_root N t))"
      unfolding metadata_origin_def p by (intro disjI2 exI [of _ k] exI [of _ v] exI [of _ t]) (auto split: if_splits)
    then show ?thesis unfolding out by (rule put)
  qed
  have "metadata_origin N ps (k, v)" if "isSafeMetadataPrimitive k v"
    using that assms(2) by (simp add: metadata_origin_def p)
  with assms(1,3) show ?thesis using commit put by (auto simp: metadata_field_def p split: if_splits)
qed

lemma metadata_from:
  assumes "metadata N input = Inr (JObj ps)" and "q \<in> set ps"
  shows "metadata_origin N (props_of input) q"
proof (cases "isObject input")
  case True
  with assms(1) have ps: "foldE (metadata_field N) [] (props_of input) = Inr ps" by (auto simp: metadata_def res_simps)
  have "\<forall>q \<in> set ps. metadata_origin N (props_of input) q"
    by (rule foldE_invariant [OF ps]) (auto dest: metadata_field_origin)
  with assms(2) show ?thesis by blast
qed (use assms in \<open>auto simp: metadata_def\<close>)

lemma safe_primitive_iff:
  "isSafeMetadataPrimitive k v \<longleftrightarrow> \<not> isPlaintextLikeKey k
     \<and> ((\<exists>n. v = JNum n \<and> is_finite n \<and> endsWith k ''_count'')
        \<or> (\<exists>s. v = JStr s \<and> rx_full SAFE_METADATA_DIGEST_RE s \<and> (endsWith k ''_commitment'' \<or> endsWith k ''_hash'')
              \<and> \<not> endsWith k ''_count''))"
  by (cases v) (auto simp: isSafeMetadataPrimitive_def)

text \<open>
  C38. Each field of public metadata has one of two origins.  Either a field of the input was kept as it
  is: a finite number under a key ending in \<open>_count\<close>, or a text that already has the format of a SHA-256 or
  HMAC digest under a key ending in \<open>_commitment\<close> or \<open>_hash\<close>, the key naming no plaintext.  Or it is the
  SHA-256 root of the text of an input field, its own text or the canonical text of an object, under the
  commitment key of that field.
\<close>

theorem metadata_digests_only:
  assumes "metadata N input = Inr (JObj ps)" and "(k, v) \<in> set ps"
  shows "(k, v) \<in> set (props_of input) \<and> \<not> isPlaintextLikeKey k
       \<and> ((\<exists>n. v = JNum n \<and> is_finite n \<and> endsWith k ''_count'')
          \<or> (\<exists>s. v = JStr s \<and> rx_full SAFE_METADATA_DIGEST_RE s \<and> (endsWith k ''_commitment'' \<or> endsWith k ''_hash'')))
    \<or> (\<exists>key x t. (key, x) \<in> set (props_of input) \<and> (if isMetadataPrimitive x then t = js_String x else canonical x = Inr t)
          \<and> k = metadataCommitmentKey N key \<and> v = JStr (sha_root N t))"
  using metadata_from [OF assms] unfolding metadata_origin_def fst_conv snd_conv safe_primitive_iff prod.inject
  by (elim disjE) (rule disjI1, blast, rule disjI2, blast)

lemma endsWith_iff: "endsWith s t \<longleftrightarrow> (\<exists>u. s = u @ t)"
  by (auto simp: endsWith_def) (metis append_take_drop_id)

lemma count_not_digest:
  assumes "endsWith k ''_commitment'' \<or> endsWith k ''_hash''"
  shows "\<not> endsWith k ''_count''" "\<not> is_array_index k"
proof -
  have "take 3 (rev k) = ''tne'' \<or> take 3 (rev k) = ''hsa''" using assms by (auto simp: endsWith_iff)
  then show "\<not> endsWith k ''_count''" by (auto simp: endsWith_iff)
  from assms show "\<not> is_array_index k" by (auto simp: endsWith_iff is_array_index_def ch_digit_iff)
qed

lemma count_not_index: "endsWith k ''_count'' \<Longrightarrow> \<not> is_array_index k"
  by (auto simp: endsWith_iff is_array_index_def ch_digit_iff)

lemma metadata_entry_safe:
  assumes "metadata_entry_ok (k, v)"
  shows "metadata_field N out (k, v) = Inr (obj_put k v out)" "\<not> is_array_index k"
proof -
  have "isSafeMetadataPrimitive k v" "isMetadataPrimitive v" "v \<noteq> JUndef"
    using assms count_not_digest [of k]
    by (auto simp: metadata_entry_ok_def isSafeMetadataPrimitive_def isMetadataPrimitive_def)
  then show "metadata_field N out (k, v) = Inr (obj_put k v out)" by (simp add: metadata_field_def)
  show "\<not> is_array_index k"
    using assms count_not_digest [of k] count_not_index [of k] by (auto simp: metadata_entry_ok_def)
qed

lemma metadata_fields_append:
  "\<forall>q \<in> set ps. metadata_entry_ok q \<Longrightarrow> distinct (map fst (out @ ps)) \<Longrightarrow>
     foldE (metadata_field N) out ps = Inr (out @ ps)"
proof (induction ps arbitrary: out)
  case (Cons p ps)
  obtain k v where p: "p = (k, v)" by (cases p)
  have "obj_put k v out = out @ [(k, v)]"
    using Cons.prems metadata_entry_safe(2) [of k v] by (auto simp: p obj_put_def has_key_def image_iff)
  with Cons.IH [of "out @ [(k, v)]"] Cons.prems metadata_entry_safe(1) [of k v] show ?case by (simp add: p)
qed simp

lemma distinct_metadata: "foldE (metadata_field N) out ps = Inr qs \<Longrightarrow> distinct (map fst out) \<Longrightarrow> distinct (map fst qs)"
  by (erule foldE_invariant)
    (auto simp: metadata_field_def commitMetadataValue_def res_simps distinct_obj_put split: if_splits)

text \<open>Projecting metadata again leaves it unchanged.\<close>

theorem metadata_idempotent:
  assumes "hash_hex N" and "metadata N input = Inr w"
  shows "metadata N w = Inr w"
proof -
  obtain ps where w: "w = JObj ps" "\<forall>q \<in> set ps. metadata_entry_ok q"
    using metadata_ok [OF assms] by blast
  moreover have "distinct (map fst ps)"
    using assms(2) distinct_metadata [of N "[]" "props_of input" ps]
    by (auto simp: metadata_def res_simps w(1) split: if_splits)
  ultimately show ?thesis using metadata_fields_append [of ps "[]" N] by (simp add: metadata_def)
qed

lemma digit_key_plain: "list_all ch_digit k \<Longrightarrow> k \<noteq> [] \<Longrightarrow> \<not> isPlaintextLikeKey k"
proof -
  assume k: "list_all ch_digit k" "k \<noteq> []"
  have "lower_char c = c" if "ch_digit c" for c using that by (auto simp: lower_char_def ch_digit_iff Let_def)
  with k(1) have "normalizedPublicKey k = k"
    by (induction k) (auto simp: normalizedPublicKey_def toLowerCase_def)
  moreover have "ch_digit (hd k)" using k by (cases k) auto
  ultimately show ?thesis by (auto simp: isPlaintextLikeKey_def PUBLIC_PLAINTEXT_KEYS_def ch_digit_iff)
qed

lemma index_props_keys: "(k, v) \<in> set (index_props i xs) \<Longrightarrow> (\<exists>n. k = nat_to_string n) \<and> v \<in> set xs"
  by (induction i xs rule: index_props.induct) auto

lemma bytes_props:
  assumes "(k, v) \<in> set (props_of (JBytes b))"
  shows "\<not> isPlaintextLikeKey k \<and> no_plain v"
proof -
  from assms have "(k, v) \<in> set (index_props 0 (map (\<lambda>c. JInt (int (of_char c))) b))" by simp
  from index_props_keys [OF this] obtain n i where "k = nat_to_string n" "v = JInt i" by auto
  then show ?thesis using digit_key_plain [of k] nat_to_string_digits by simp
qed

lemma no_plain_bytes: "no_plain (JObj (props_of (JBytes b)))"
  using bytes_props by (auto simp del: props_of.simps)

lemma no_plain_metadata: "hash_hex N \<Longrightarrow> metadata N input = Inr w \<Longrightarrow> no_plain w"
  using metadata_ok [of N input w] by (fastforce simp: metadata_entry_ok_def)

definition clean_props :: "props \<Rightarrow> bool" where
  "clean_props ps = (\<forall>q \<in> set ps. \<not> isPlaintextLikeKey (fst q) \<and> no_plain (snd q))"

lemma clean_props_put: "clean_props out \<Longrightarrow> \<not> isPlaintextLikeKey k \<Longrightarrow> no_plain w \<Longrightarrow> clean_props (obj_put k w out)"
  using set_obj_put [of k w out] by (auto simp: clean_props_def)

lemma clean_source_field:
  assumes "clean_props out" "w = JUndef \<or> no_plain w"
  shows "clean_props (source_ref_field N (k, v, w) out)"
proof (cases "isSourceRefPlaintextLikeKey k")
  case True
  have "\<not> isPlaintextLikeKey (privateCommitmentKey N k)"
    using not_plain_commitment [of "''private_field_'' @ take 12 (sha256Str N (normalizedPublicKey k))"] source_plain
    by (auto simp: privateCommitmentKey_def)
  with True assms(1) show ?thesis by (simp add: source_ref_field_def clean_props_put)
next
  case False
  then have k: "\<not> isPlaintextLikeKey k" using source_plain by blast
  have v: "isString v \<Longrightarrow> no_plain v" by (auto simp: isString_iff)
  have "clean_props (obj_put k v out)" if "isString v" using assms(1) k v [OF that] by (rule clean_props_put)
  moreover have "clean_props (obj_put k w out)" if "w \<noteq> JUndef" using assms k that clean_props_put by blast
  ultimately show ?thesis using False assms(1) by (auto simp: source_ref_field_def)
qed

lemma no_plain_source_object:
  assumes "\<And>k v w. (k, v, w) \<in> set fs \<Longrightarrow> w = JUndef \<or> no_plain w"
  shows "no_plain (source_ref_object N fs)"
proof -
  have "clean_props (fold (source_ref_field N) fs out)" if "clean_props out" for out
    using that assms
  proof (induction fs arbitrary: out)
    case (Cons f fs)
    obtain k v w where f: "f = (k, v, w)" by (cases f)
    have "clean_props (source_ref_field N f out)"
      unfolding f by (rule clean_source_field) (use Cons.prems f in auto)
    from Cons.IH [OF this] Cons.prems(2) have "clean_props (fold (source_ref_field N) fs (source_ref_field N f out))"
      by (meson list.set_intros(2))
    then show ?case by simp
  qed simp
  from this [of "[]"] show ?thesis by (simp add: source_ref_object_def Let_def clean_props_def)
qed

lemma no_plain_source_value: "no_plain (sanitizeSourceRefValue N v)"
proof (induction v rule: sanitizeSourceRefValue.induct [of "\<lambda>N v. no_plain (sanitizeSourceRefValue N v)"])
  case (5 N ps)
  then show ?case unfolding sanitizeSourceRefValue.simps by (intro no_plain_source_object) auto
next
  case (6 N c ps)
  then show ?case unfolding sanitizeSourceRefValue.simps by (intro no_plain_source_object) auto
next
  case (7 N b)
  show ?case unfolding sanitizeSourceRefValue.simps
    by (rule no_plain_source_object) (use bytes_props in \<open>auto simp del: props_of.simps\<close>)
qed auto

lemma no_plain_source_refs: "no_plain (sanitizeSourceRefs N refs)"
proof -
  have "normalizedPublicKey ''source_hash'' = ''sourcehash''"
    by (simp add: normalizedPublicKey_def toLowerCase_def lower_char_def ch_lower_iff ch_digit_iff)
  then have "\<not> isPlaintextLikeKey ''source_hash''" by (simp add: isPlaintextLikeKey_def PUBLIC_PLAINTEXT_KEYS_def)
  then have "no_plain (case element ref of JStr s \<Rightarrow> JObj [(''source_hash'', JStr (sha_root N s))]
      | r \<Rightarrow> sanitizeSourceRefValue N r)" for ref
    using no_plain_source_value [of N "element ref"]
    by (cases "element ref") (simp_all del: sanitizeSourceRefValue.simps)
  then show ?thesis by (auto simp: sanitizeSourceRefs_def)
qed

lemma public_field_no_plain:
  assumes "hash_hex N" "public_field N k v sv = Inr (Some (k', w))" "\<And>w. sv = Inr w \<Longrightarrow> no_plain w"
  shows "\<not> isPlaintextLikeKey k' \<and> no_plain w"
proof -
  have "normalizedPublicKey ''source_refs'' = ''sourcerefs''"
    by (simp add: normalizedPublicKey_def toLowerCase_def lower_char_def ch_lower_iff ch_digit_iff)
  then have "\<not> isPlaintextLikeKey ''source_refs''" by (simp add: isPlaintextLikeKey_def PUBLIC_PLAINTEXT_KEYS_def)
  with assms show ?thesis
    using no_plain_source_refs no_plain_metadata [OF assms(1)]
    by (auto simp: public_field_def res_simps split: if_splits)
qed

lemma public_object_no_plain:
  assumes "\<And>k w. Some (k, w) \<in> set fs \<Longrightarrow> \<not> isPlaintextLikeKey k \<and> no_plain w"
  shows "no_plain (public_object fs)"
  using set_obj_puts [of "concat (map (case_option [] (\<lambda>f. [f])) fs)" "[]"] assms
  by (fastforce simp: public_object_def split: option.splits)

lemma sanitize_fields_no_plain:
  assumes "hash_hex N" "mapE (\<lambda>(k, v). public_field N k v (sanitizePublicValue N v)) ps = Inr fs"
    and "\<And>k v w. (k, v) \<in> set ps \<Longrightarrow> sanitizePublicValue N v = Inr w \<Longrightarrow> no_plain w"
  shows "no_plain (public_object fs)"
proof (rule public_object_no_plain)
  fix k' w
  assume "Some (k', w) \<in> set fs"
  with assms(2) obtain k v where "(k, v) \<in> set ps" "public_field N k v (sanitizePublicValue N v) = Inr (Some (k', w))"
    using mapE_member [OF assms(2)] by force
  with public_field_no_plain [OF assms(1)] assms(3) show "\<not> isPlaintextLikeKey k' \<and> no_plain w" by blast
qed

lemma sanitize_no_plain: "hash_hex N \<Longrightarrow> sanitizePublicValue N v = Inr w \<Longrightarrow> no_plain w"
proof (induction N v arbitrary: w rule: sanitizePublicValue.induct)
  case (1 N xs)
  from 1(3) obtain ys where ys: "w = JArr ys"
    "mapE (\<lambda>x. if x = JHole then Inr JHole else sanitizePublicValue N x) xs = Inr ys"
    by (auto simp: emap_Inr_iff)
  have "no_plain y" if "y \<in> set ys" for y
  proof -
    from mapE_member [OF ys(2) that] obtain x where "x \<in> set xs"
      "(if x = JHole then Inr JHole else sanitizePublicValue N x) = Inr y" by blast
    then show ?thesis using 1(1) [of x y] 1(2) by (cases "x = JHole") auto
  qed
  then show ?case by (simp add: ys)
next
  case (2 N ps)
  then obtain fs where fs: "mapE (\<lambda>(k, v). public_field N k v (sanitizePublicValue N v)) ps = Inr fs" "w = public_object fs"
    by (auto simp: res_simps)
  show ?case unfolding fs(2) by (rule sanitize_fields_no_plain [OF 2(2) fs(1)]) (use 2 in blast)
next
  case (3 N c ps)
  then obtain fs where fs: "mapE (\<lambda>(k, v). public_field N k v (sanitizePublicValue N v)) ps = Inr fs" "w = public_object fs"
    by (auto simp: res_simps)
  show ?case unfolding fs(2) by (rule sanitize_fields_no_plain [OF 3(2) fs(1)]) (use 3 in blast)
next
  case (4 N b)
  then show ?case using no_plain_bytes [of b] by simp
qed auto

inductive holds_key :: "string \<Rightarrow> jsval \<Rightarrow> bool" where
  hk_here: "(k, v) \<in> set ps \<Longrightarrow> holds_key k (JObj ps)"
| hk_field: "(k', v) \<in> set ps \<Longrightarrow> holds_key k v \<Longrightarrow> holds_key k (JObj ps)"
| hk_elem: "x \<in> set xs \<Longrightarrow> holds_key k x \<Longrightarrow> holds_key k (JArr xs)"

lemma no_plain_holds_key: "holds_key k v \<Longrightarrow> no_plain v \<Longrightarrow> \<not> isPlaintextLikeKey k"
  by (induction rule: holds_key.induct) auto

text \<open>
  C39. Nothing the vault makes public carries a plaintext-like field: in a sanitised value no object at
  any depth has a key that normalises to one of the plaintext keys (content, text, prompt, memory, ...).
\<close>

theorem sanitizePublicValue_no_plaintext:
  assumes "hash_hex N" and "sanitizePublicValue N v = Inr w" and "holds_key k w"
  shows "normalizedPublicKey k \<notin> set PUBLIC_PLAINTEXT_KEYS"
  using no_plain_holds_key [OF assms(3) sanitize_no_plain [OF assms(1,2)]] by (simp add: isPlaintextLikeKey_def)

lemma sample_plain_keys: "isPlaintextLikeKey ''content''" "\<not> isPlaintextLikeKey ''kind''" 
  by (simp_all add: isPlaintextLikeKey_def normalizedPublicKey_def toLowerCase_def lower_char_def ch_lower_iff
      ch_digit_iff PUBLIC_PLAINTEXT_KEYS_def)

theorem sanitizePublicValue_no_plaintext_witness:
  "\<exists>w. sanitizePublicValue sample (JObj [(''kind'', JStr ''fact''), (''content'', JStr ''secret'')]) = Inr w
     \<and> normalizedPublicKey ''kind'' \<notin> set PUBLIC_PLAINTEXT_KEYS"
proof -
  have s: "sanitizePublicValue sample (JObj [(''kind'', JStr ''fact''), (''content'', JStr ''secret'')]) = Inr (JObj [(''kind'', JStr ''fact'')])"
    by (simp add: public_field_def sample_plain_keys public_object_def obj_put_def has_key_def is_array_index_def ch_digit_iff)
  have "normalizedPublicKey ''kind'' \<notin> set PUBLIC_PLAINTEXT_KEYS"
    by (rule sanitizePublicValue_no_plaintext [OF hash_hex_sample s]) (auto intro: hk_here)
  with s show ?thesis by blast
qed

lemma sample_metadata:
  "metadata sample (JObj [(''memory_count'', JInt 2), (''kind'', JStr ''fact'')])
     = Inr (JObj [(''memory_count'', JInt 2), (''kind_commitment'', JStr (sha_root sample ''fact''))])"
  by (simp add: metadata_def metadata_field_def isMetadataPrimitive_def isSafeMetadataPrimitive_def isPlaintextLikeKey_def
      normalizedPublicKey_def toLowerCase_def lower_char_def ch_lower_iff ch_digit_iff ch_upper_iff PUBLIC_PLAINTEXT_KEYS_def
      endsWith_def is_finite_def commitMetadataValue_def metadataCommitmentKey_def metadataKeyStem_def trim_underscores_def
      ch_alnum_def obj_put_def has_key_def is_array_index_def)

theorem metadata_digests_only_witness:
  "metadata sample (JObj [(''memory_count'', JInt 2), (''kind'', JStr ''fact'')])
     = Inr (JObj [(''memory_count'', JInt 2), (''kind_commitment'', JStr (sha_root sample ''fact''))])
   \<and> \<not> isPlaintextLikeKey ''memory_count''
   \<and> (\<exists>key x. (key, x) \<in> {(''memory_count'', JInt 2), (''kind'', JStr ''fact'')} \<and> metadataCommitmentKey sample key = ''kind_commitment''
          \<and> sha_root sample (js_String x) = sha_root sample ''fact'')"
proof -
  let ?ps = "[(''memory_count'', JInt 2), (''kind'', JStr ''fact'')]"
  let ?q = "JStr (sha_root sample ''fact'')"
  note s = sample_metadata
  have count: "\<not> isPlaintextLikeKey ''memory_count''" using metadata_digests_only [OF s, of "''memory_count''" "JInt 2"] by auto
  have prim: "isMetadataPrimitive x" if "(key, x) \<in> set ?ps" for key x using that by (auto simp: isMetadataPrimitive_def)
  have "(''kind_commitment'', ?q) \<notin> set (props_of (JObj ?ps))" by simp
  with metadata_digests_only [OF s, of "''kind_commitment''" ?q] obtain key x t where f: "(key, x) \<in> set (props_of (JObj ?ps))"
    "if isMetadataPrimitive x then t = js_String x else canonical x = Inr t" "''kind_commitment'' = metadataCommitmentKey sample key"
    "?q = JStr (sha_root sample t)" by (auto simp only: list.set insert_iff simp_thms)
  from f(1) have mem: "(key, x) \<in> set ?ps" by simp
  with f(2) prim have "t = js_String x" by (simp only: if_True)
  with f(3,4) mem show ?thesis
    by (intro conjI s count exI [of _ key] exI [of _ x]) (simp_all only: list.set jsval.inject)
qed

theorem metadata_idempotent_witness:
  "metadata sample (JObj [(''memory_count'', JInt 2), (''kind_commitment'', JStr (sha_root sample ''fact''))])
     = Inr (JObj [(''memory_count'', JInt 2), (''kind_commitment'', JStr (sha_root sample ''fact''))])"
  by (rule metadata_idempotent [OF hash_hex_sample sample_metadata])

text \<open>
  Source references, in contrast, are hashed again by every projection: a text field of a
  reference holds the hash of its hash after two passes, so the references of a record change with
  every update, export and import.
\<close>

theorem sanitizeSourceRefs_rehashes:
  "sanitizeSourceRefs N (sanitizeSourceRefs N (JArr [JObj [(''uri'', JStr s)]]))
     = JArr [JObj [(''uri'', JStr (sha_root N (sha_root N s)))]]"
proof -
  have "\<not> isSourceRefPlaintextLikeKey ''uri''"
    by (simp add: isSourceRefPlaintextLikeKey_def isPlaintextLikeKey_def normalizedPublicKey_def toLowerCase_def
        lower_char_def ch_lower_iff ch_digit_iff PUBLIC_PLAINTEXT_KEYS_def)
  then have "sanitizeSourceRefs N (JArr [JObj [(''uri'', JStr t)]]) = JArr [JObj [(''uri'', JStr (sha_root N t))]]" for t
    by (simp add: sanitizeSourceRefs_def elems_def element_def source_ref_object_def source_ref_field_def
        obj_put_def has_key_def is_array_index_def ch_digit_iff)
  then show ?thesis by simp
qed

end
