(* ===== verification/Vault.thy ===== *)
theory Vault
  imports VaultPublic ReceiptChain
begin

text \<open>
  The local vault of \<open>packages/vault\<close>: its state, the append-only event and receipt log, and the
  operations \<open>createVault\<close>, \<open>remember\<close>, \<open>recall\<close>, \<open>updateMemory\<close>, \<open>deleteMemory\<close>.  The operations
  mutate the vault and may throw after having done so; they are state transformers that also give the
  state left behind by an exception.

  AES-256-GCM, the key derivation, key generation and export, the conversion of dates and numbers, the
  reading of JSON texts and collation belong to the runtime and are the parameter \<open>vnode\<close>; random bytes and identifiers drawn by a call
  are its argument \<open>fresh\<close>.  Memory addresses are arbitrary JavaScript values, since callers and
  imported bundles may supply any; the addresses the vault makes itself are strings.
\<close>

section \<open>Runtime and state\<close>

record vnode =
  vn_node :: node
  vn_encrypt :: "string \<Rightarrow> string \<Rightarrow> string \<Rightarrow> string \<Rightarrow> string \<times> string"
  vn_decrypt :: "string \<Rightarrow> string \<Rightarrow> string \<Rightarrow> string \<Rightarrow> string \<Rightarrow> string res"
  vn_b64 :: "string \<Rightarrow> string"
  vn_scrypt :: "string \<Rightarrow> string \<Rightarrow> string"
  vn_signingPair :: "string option \<Rightarrow> jsval"
  vn_iso :: "jsval \<Rightarrow> string res"
  vn_number :: "jsval \<Rightarrow> jsnum"
  vn_collate :: "string \<Rightarrow> string"
  vn_exportKey :: "string \<Rightarrow> jsval \<Rightarrow> jsval"
  vn_json :: "string \<Rightarrow> jsval res"

definition aead_ok :: "vnode \<Rightarrow> bool" where
  "aead_ok V = (\<forall>k iv aad p. (case vn_encrypt V k iv aad p of (c, t) \<Rightarrow>
       vn_decrypt V k (nd_b64dec (vn_node V) ''base64'' (vn_b64 V iv)) aad
         (nd_b64dec (vn_node V) ''base64'' (vn_b64 V c)) (nd_b64dec (vn_node V) ''base64'' (vn_b64 V t)) = Inr p))"

record fresh =
  fr_uuid :: string
  fr_event :: string
  fr_iv :: string
  fr_vaultKey :: string
  fr_addressKey :: string
  fr_salt :: string

record memory =
  mr_obj :: jsval
  mr_plaintext :: "string option"

record roots =
  rt_active :: string
  rt_quarantine :: string
  rt_tombstone :: string
  rt_receipt_log :: string
  rt_lifecycle :: string

record vault =
  vt_vault_id :: jsval
  vt_tenant_id :: jsval
  vt_subject_id :: jsval
  vt_actor_id :: jsval
  vt_policy_id :: jsval
  vt_created_at :: jsval
  vt_updated_at :: jsval
  vt_key_id :: jsval
  vt_vaultKey :: string
  vt_addressKey :: string
  vt_signingKeyPair :: jsval
  vt_signer :: jsval
  vt_memories :: "(jsval, memory) jmap"
  vt_events :: "jsval list"
  vt_receipts :: "jsval list"
  vt_active :: "jsval list"
  vt_tombstones :: "(jsval, jsval) jmap"
  vt_quarantine :: "jsval list"
  vt_sequence :: int
  vt_roots :: roots
  vt_keyringType :: string

type_synonym 'a vm = "(vault, 'a) sm"

definition sthrow :: "string \<Rightarrow> 'a vm" where
  "sthrow msg = slift (Inl (Error msg))"

definition VAULT_SCHEMA :: string where "VAULT_SCHEMA = ''enigma.vault.local.v1''"
definition EVENT_SCHEMA :: string where "EVENT_SCHEMA = ''enigma.memory_event.v1''"
definition MEMORY_DOMAIN :: string where "MEMORY_DOMAIN = ''enigma.memory.v1''"
definition KEYRING_ENCRYPTED_TYPE :: string where "KEYRING_ENCRYPTED_TYPE = ''local_secret_encrypted''"
definition KEYRING_PLAINTEXT_TYPE :: string where "KEYRING_PLAINTEXT_TYPE = ''local_secret''"

definition ZERO_ROOT :: "vnode \<Rightarrow> string" where
  "ZERO_ROOT V = ms_root (vn_node V) ms_empty"

section \<open>Hashes and roots\<close>

definition sortedStrings :: "jsval list \<Rightarrow> string list" where
  "sortedStrings vs = sort (map js_String vs)"

definition asHmacSha256 :: "vnode \<Rightarrow> string \<Rightarrow> string \<Rightarrow> string" where
  "asHmacSha256 V key s = nd_hmac (vn_node V) key (utf8 s)"

text \<open>\<open>computeSetRoot\<close> of arbitrary values, which may fail to encode, and of strings.\<close>

definition computeSetRoot :: "vnode \<Rightarrow> jsval list \<Rightarrow> string res" where
  "computeSetRoot V vs = emap (ms_root (vn_node V)) (ms_new vs)"

definition string_set_root :: "vnode \<Rightarrow> string list \<Rightarrow> string" where
  "string_set_root V ss = ms_root (vn_node V) (ms_of ss)"

definition hashReceipt :: "vnode \<Rightarrow> jsval \<Rightarrow> string res" where
  "hashReceipt V receipt =
     ecatch (receiptHash (vn_node V) receipt) (emap (sha_root (vn_node V)) (canonical receipt))"

definition computeReceiptLogRootFrom :: "vnode \<Rightarrow> jsval list \<Rightarrow> string res" where
  "computeReceiptLogRootFrom V receipts =
     emap (\<lambda>hashes. if hashes = [] then ZERO_ROOT V else string_set_root V hashes) (mapE (hashReceipt V) receipts)"

definition quarantineAddresses :: "vault \<Rightarrow> string list" where
  "quarantineAddresses v = sortedStrings (fold set_add
     (map fst (filter (\<lambda>(a, m). getp (mr_obj m) ''state'' \<in> {JStr ''quarantine'', JStr ''quarantined''}) (vt_memories v)))
     (vt_quarantine v))"

definition publicTombstone :: "vnode \<Rightarrow> jsval \<Rightarrow> jsval" where
  "publicTombstone V t =
     (if \<not> isObject t then JUndef
      else pruneUndefined (JObj
        [(''schema'', coals t [''schema''] (JStr ''enigma.deletion_tombstone.v1'')),
         (''memory_addr'', getp t ''memory_addr''), (''operation'', getp t ''operation''),
         (''successor_addr'', getp t ''successor_addr''), (''tombstoned_at'', getp t ''tombstoned_at''),
         (''reason_hash'', if truthy (getp t ''reason'')
            then JStr (sha_root (vn_node V) (js_String (getp t ''reason''))) else JUndef)]))"

definition tombstoneRootItems :: "vnode \<Rightarrow> vault \<Rightarrow> string list res" where
  "tombstoneRootItems V v =
     mapE (\<lambda>t. emap (sha_root (vn_node V)) (canonical t))
       (sort_key (\<lambda>t. vn_collate V (js_String (getp t ''memory_addr'')))
         (filter truthy (map (publicTombstone V) (map snd (vt_tombstones v)))))"

definition lifecycleRoots :: "vnode \<Rightarrow> vault \<Rightarrow> roots res" where
  "lifecycleRoots V v =
     ebind (tombstoneRootItems V v) (\<lambda>tombstones.
     ebind (computeReceiptLogRootFrom V (vt_receipts v)) (\<lambda>receiptLogRoot.
       let activeSetRoot = string_set_root V (sortedStrings (vt_active v));
           quarantineSetRoot = string_set_root V (quarantineAddresses v);
           tombstoneSetRoot = string_set_root V tombstones
       in Inr \<lparr>rt_active = activeSetRoot, rt_quarantine = quarantineSetRoot, rt_tombstone = tombstoneSetRoot,
            rt_receipt_log = receiptLogRoot,
            rt_lifecycle = string_set_root V [activeSetRoot, quarantineSetRoot, tombstoneSetRoot, receiptLogRoot]\<rparr>))"

definition applyLifecycleRoots :: "vnode \<Rightarrow> unit vm" where
  "applyLifecycleRoots V =
     sbind sget (\<lambda>v. sbind (slift (lifecycleRoots V v)) (\<lambda>r. smodify (\<lambda>v. v\<lparr>vt_roots := r\<rparr>)))"

section \<open>Receipts\<close>

definition receiptArgs :: "vault \<Rightarrow> jsval \<Rightarrow> string \<Rightarrow> string \<Rightarrow> string \<Rightarrow> string \<Rightarrow> jsval" where
  "receiptArgs v event event_hash previousReceiptHash activeSetRoot receiptLogRoot =
     pruneUndefined (JObj
       [(''event'', event), (''event_hash'', JStr event_hash), (''operation'', getp event ''operation''),
        (''tenant_id'', getp event ''tenant_id''), (''subject_id'', getp event ''subject_id''),
        (''memory_addr'', getp event ''memory_addr''), (''source_addr'', getp event ''source_addr''),
        (''provider'', getp event ''provider''), (''model'', getp event ''model''),
        (''policy_id'', getp event ''policy_id''), (''sequence'', getp event ''sequence''),
        (''previous_receipt_hash'', JStr previousReceiptHash), (''active_set_root'', JStr activeSetRoot),
        (''receipt_log_root'', JStr receiptLogRoot), (''timestamp'', getp event ''timestamp''),
        (''signer'', vt_signer v), (''privateKey'', getp (vt_signingKeyPair v) ''privateKey'')])"

definition buildReceipt :: "vnode \<Rightarrow> vault \<Rightarrow> jsval \<Rightarrow> string \<Rightarrow> string \<Rightarrow> string \<Rightarrow> string \<Rightarrow> jsval res" where
  "buildReceipt V v event event_hash previousReceiptHash activeSetRoot receiptLogRoot =
     ebind (createReceipt (vn_node V)
              (receiptArgs v event event_hash previousReceiptHash activeSetRoot receiptLogRoot) (JObj [])) (\<lambda>receipt.
       if containsPlaintextMarker receipt then Inl (Error ''receipt must not contain plaintext memory content'')
       else Inr (pruneUndefined receipt))"

definition event_of :: "vnode \<Rightarrow> fresh \<Rightarrow> vault \<Rightarrow> jsval \<Rightarrow> jsval res" where
  "event_of V fr v fs =
     ebind (vn_iso V (getp fs ''now'')) (\<lambda>timestamp.
     ebind (metadata (vn_node V) (getp fs ''metadata'')) (\<lambda>meta.
     Inr (pruneUndefined (JObj
       [(''schema'', JStr EVENT_SCHEMA), (''event_id'', JStr (''evt_'' @ fr_event fr)),
        (''operation'', getp fs ''operation''), (''tenant_id'', coals fs [''tenant_id''] (vt_tenant_id v)),
        (''subject_id'', coals fs [''subject_id''] (vt_subject_id v)),
        (''actor_id'', coals fs [''actor_id''] (vt_actor_id v)), (''memory_addr'', getp fs ''memory_addr''),
        (''source_addr'', getp fs ''source_addr''), (''provider'', getp fs ''provider''),
        (''model'', getp fs ''model''), (''purpose'', getp fs ''purpose''), (''timestamp'', JStr timestamp),
        (''sequence'', JInt (vt_sequence v)), (''policy_id'', coals fs [''policy_id''] (vt_policy_id v)),
        (''decision'', getp fs ''decision''), (''metadata'', meta)]))))"

definition previous_hash :: "vnode \<Rightarrow> vault \<Rightarrow> string res" where
  "previous_hash V v = (if vt_receipts v = [] then Inr GENESIS else hashReceipt V (last (vt_receipts v)))"

text \<open>The event and the receipt that \<open>appendEvent\<close> is about to store.\<close>

definition next_entry :: "vnode \<Rightarrow> fresh \<Rightarrow> vault \<Rightarrow> jsval \<Rightarrow> (jsval \<times> jsval \<times> jsval) res" where
  "next_entry V fr v fs =
     ebind (event_of V fr v fs) (\<lambda>event.
     ebind (canonical event) (\<lambda>eventCanonical.
     let event_hash = sha_root (vn_node V) eventCanonical
     in ebind (previous_hash V v) (\<lambda>previousReceiptHash.
        ebind (computeSetRoot V (vt_active v)) (\<lambda>activeSetRoot.
        ebind (computeReceiptLogRootFrom V (vt_receipts v)) (\<lambda>priorReceiptLogRoot.
        ebind (buildReceipt V v event event_hash previousReceiptHash activeSetRoot priorReceiptLogRoot) (\<lambda>receipt.
        Inr (JObj [(''event'', event), (''canonical'', JStr eventCanonical), (''hash'', JStr event_hash)], event, receipt)))))))"

definition store_entry :: "jsval \<times> jsval \<times> jsval \<Rightarrow> vault \<Rightarrow> vault" where
  "store_entry = (\<lambda>(entry, event, receipt) v.
     v\<lparr>vt_events := vt_events v @ [entry], vt_receipts := vt_receipts v @ [receipt],
       vt_sequence := vt_sequence v + 1, vt_updated_at := getp event ''timestamp''\<rparr>)"

definition appendEvent :: "vnode \<Rightarrow> fresh \<Rightarrow> jsval \<Rightarrow> (jsval \<times> jsval) vm" where
  "appendEvent V fr fs =
     sbind sget (\<lambda>v.
     sbind (slift (next_entry V fr v fs)) (\<lambda>(entry, event, receipt).
     sbind (smodify (store_entry (entry, event, receipt))) (\<lambda>_.
     sbind (applyLifecycleRoots V) (\<lambda>_. sret (event, receipt)))))"

section \<open>Memory objects\<close>

definition memoryAddress :: "vnode \<Rightarrow> vault \<Rightarrow> jsval \<Rightarrow> jsval \<Rightarrow> string \<Rightarrow> string res" where
  "memoryAddress V v subjectId memoryId contentHash =
     (let components = JObj [(''domain'', JStr MEMORY_DOMAIN), (''subject_id'', subjectId), (''memory_id'', memoryId),
            (''content_hash'', JStr contentHash)]
      in ebind (canonical components) (\<lambda>payload.
         ecatch (createMemoryAddress (vn_node V) (JObj
             [(''vault_addr_key'', JBytes (vt_addressKey v)), (''vaultAddressKey'', JBytes (vt_addressKey v)),
              (''key'', JBytes (vt_addressKey v)), (''value'', JStr payload), (''components'', components),
              (''domain'', JStr MEMORY_DOMAIN), (''subject_id'', subjectId), (''subjectId'', subjectId),
              (''memory_id'', memoryId), (''memoryId'', memoryId), (''content_hash'', JStr contentHash),
              (''contentHash'', JStr contentHash)]) JUndef (JObj []))
           (Inr (''mem:'' @ asHmacSha256 V (vt_addressKey v) payload))))"

definition encryptContent :: "vnode \<Rightarrow> fresh \<Rightarrow> vault \<Rightarrow> string \<Rightarrow> string \<Rightarrow> jsval" where
  "encryptContent V fr v memoryAddr plaintext =
     (let (ciphertext, tag) = vn_encrypt V (vt_vaultKey v) (fr_iv fr) memoryAddr plaintext
      in JObj [(''alg'', JStr ''AES-256-GCM''), (''iv'', JStr (vn_b64 V (fr_iv fr))), (''aad'', JStr memoryAddr),
               (''ciphertext'', JStr (vn_b64 V ciphertext)), (''tag'', JStr (vn_b64 V tag))])"

text \<open>\<open>Buffer.from(x, 'base64')\<close> and \<open>Buffer.from(x)\<close> of a text.\<close>

definition base64_bytes :: "vnode \<Rightarrow> jsval \<Rightarrow> string res" where
  "base64_bytes V x = (case x of JStr s \<Rightarrow> Inr (nd_b64dec (vn_node V) ''base64'' s)
     | _ \<Rightarrow> Inl (TypeError ''The first argument must be of type string''))"

definition text_bytes :: "jsval \<Rightarrow> string res" where
  "text_bytes x = (case x of JStr s \<Rightarrow> Inr s | _ \<Rightarrow> Inl (TypeError ''The first argument must be of type string''))"

text \<open>
  The decrypted text is cached on the record as a non-enumerable property, so it is no part of the
  record's public fields.
\<close>

definition decryptContent :: "vnode \<Rightarrow> vault \<Rightarrow> memory \<Rightarrow> (string \<times> memory) res" where
  "decryptContent V v m =
     (case mr_plaintext m of
        Some p \<Rightarrow> Inr (p, m)
      | None \<Rightarrow>
          (let encrypted = getp (mr_obj m) ''content_ciphertext''
           in ebind (getE encrypted ''iv'') (\<lambda>iv.
              ebind (base64_bytes V iv) (\<lambda>iv_bytes.
              ebind (text_bytes (coals encrypted [''aad''] (getp (mr_obj m) ''memory_addr''))) (\<lambda>aad.
              ebind (base64_bytes V (getp encrypted ''tag'')) (\<lambda>tag.
              ebind (base64_bytes V (getp encrypted ''ciphertext'')) (\<lambda>ciphertext.
              ebind (vn_decrypt V (vt_vaultKey v) iv_bytes aad ciphertext tag) (\<lambda>p.
              Inr (p, m\<lparr>mr_plaintext := Some p\<rparr>)))))))))"

definition publicRecord :: "vnode \<Rightarrow> memory \<Rightarrow> jsval res" where
  "publicRecord V m = emap pruneUndefined (sanitizePublicValue (vn_node V) (mr_obj m))"

definition clamp_unit :: "jsnum \<Rightarrow> jsnum" where
  "clamp_unit n =
     (case n of
        NInt i \<Rightarrow> NInt (max 0 (min 1 i))
      | NDec m e \<Rightarrow> if m \<le> 0 then NInt 0
                    else if (if 0 \<le> e then True else 10 ^ nat (- e) \<le> m) then NInt 1 else n
      | _ \<Rightarrow> NInt 0)"

definition normalizeImportance :: "vnode \<Rightarrow> jsval \<Rightarrow> jsval" where
  "normalizeImportance V value =
     (if nullish value then JUndef
      else let num = vn_number V value in if is_finite num then JNum (clamp_unit num) else JUndef)"

section \<open>Creation\<close>

definition keyBytes :: "vnode \<Rightarrow> string \<Rightarrow> jsval \<Rightarrow> string \<Rightarrow> string res" where
  "keyBytes V random key label =
     (case key of
        JBytes b \<Rightarrow> if length b \<noteq> 32 then Inl (Error (label @ '' must be 32 bytes'')) else Inr b
      | JStr s \<Rightarrow>
          (let bytes = nd_b64dec (vn_node V) ''base64'' s
           in if length bytes \<noteq> 32 then Inl (Error (label @ '' must decode to 32 bytes'')) else Inr bytes)
      | JUndef \<Rightarrow> Inr random
      | JNull \<Rightarrow> Inr random
      | _ \<Rightarrow> Inl (Error (label @ '' must be a Buffer or base64 string'')))"

definition signerFor :: "fresh \<Rightarrow> jsval \<Rightarrow> jsval" where
  "signerFor fr pair = JObj
     [(''key_id'', coals pair [''key_id'', ''keyId''] (JStr (''local-ed25519-'' @ fr_uuid fr))), (''alg'', JStr ''Ed25519'')]"

definition has_passphrase :: "jsval \<Rightarrow> bool" where
  "has_passphrase p = (\<not> nullish p \<and> js_String p \<noteq> [])"

definition deriveMasterKeyFromPassphrase :: "vnode \<Rightarrow> jsval \<Rightarrow> jsval \<Rightarrow> string res" where
  "deriveMasterKeyFromPassphrase V passphrase salt =
     ebind (case salt of
              JBytes b \<Rightarrow> Inr b
            | JStr s \<Rightarrow> Inr (nd_b64dec (vn_node V) ''base64'' s)
            | _ \<Rightarrow> Inl (TypeError ''The first argument must be of type string'')) (\<lambda>saltBuf.
       if length saltBuf < 8 then Inl (Error ''Salt must be at least 8 bytes'')
       else Inr (vn_scrypt V (js_String passphrase) saltBuf))"

record derived =
  dk_kek :: string
  dk_vaultKey :: string
  dk_addressKey :: string
  dk_signingSeed :: string

definition deriveKeysFromPassphrase :: "vnode \<Rightarrow> jsval \<Rightarrow> jsval \<Rightarrow> derived res" where
  "deriveKeysFromPassphrase V passphrase salt =
     emap (\<lambda>master. \<lparr>dk_kek = take 32 master, dk_vaultKey = take 32 (drop 32 master),
         dk_addressKey = take 32 (drop 64 master), dk_signingSeed = take 32 (drop 96 master)\<rparr>)
       (deriveMasterKeyFromPassphrase V passphrase salt)"

text \<open>The keys of a new vault: derived from a passphrase, or given, or random.\<close>

definition derived_keys :: "vnode \<Rightarrow> fresh \<Rightarrow> jsval \<Rightarrow> (string \<times> string \<times> string option \<times> string) res" where
  "derived_keys V fr args =
     (if has_passphrase (getp args ''passphrase'') then
        emap (\<lambda>d. (dk_vaultKey d, dk_addressKey d, Some (dk_signingSeed d), KEYRING_ENCRYPTED_TYPE))
          (deriveKeysFromPassphrase V (getp args ''passphrase'') (coals args [''salt''] (JStr (fr_salt fr))))
      else
        ebind (keyBytes V (fr_vaultKey fr) (pick args [''vault_key'', ''vaultKey'']) ''vault key'') (\<lambda>vaultKey.
        ebind (keyBytes V (fr_addressKey fr) (pick args [''address_key'', ''addressKey'']) ''address key'') (\<lambda>addressKey.
        Inr (vaultKey, addressKey, None, KEYRING_PLAINTEXT_TYPE))))"

definition zero_roots :: "vnode \<Rightarrow> roots" where
  "zero_roots V = \<lparr>rt_active = ZERO_ROOT V, rt_quarantine = ZERO_ROOT V, rt_tombstone = ZERO_ROOT V,
     rt_receipt_log = ZERO_ROOT V, rt_lifecycle = ZERO_ROOT V\<rparr>"

definition createVault :: "vnode \<Rightarrow> fresh \<Rightarrow> jsval \<Rightarrow> vault res" where
  "createVault V fr args =
     ebind (vn_iso V (getp args ''now'')) (\<lambda>createdAt.
     ebind (derived_keys V fr args) (\<lambda>(vaultKey, addressKey, signingSeed, keyringType).
     let pair = coals args [''signingKeyPair''] (vn_signingPair V signingSeed);
         v = \<lparr>vt_vault_id = coals args [''vault_id'', ''vaultId''] (JStr (''vault_'' @ fr_uuid fr)),
              vt_tenant_id = coals args [''tenant_id'', ''tenantId''] (JStr ''local''),
              vt_subject_id = coals args [''subject_id'', ''subjectId''] (JStr ''local-subject''),
              vt_actor_id = coals args [''actor_id'', ''actorId''] (JStr ''local-user''),
              vt_policy_id = coals args [''policy_id'', ''policyId''] (JStr ''local-default''),
              vt_created_at = JStr createdAt, vt_updated_at = JStr createdAt,
              vt_key_id = coals args [''key_id'', ''keyId''] (JStr (''vault-key-'' @ fr_uuid fr)),
              vt_vaultKey = vaultKey, vt_addressKey = addressKey, vt_signingKeyPair = pair,
              vt_signer = coals args [''signer''] (signerFor fr pair),
              vt_memories = [], vt_events = [], vt_receipts = [], vt_active = [], vt_tombstones = [],
              vt_quarantine = [], vt_sequence = 0, vt_roots = zero_roots V, vt_keyringType = keyringType\<rparr>
     in emap (\<lambda>r. v\<lparr>vt_roots := r\<rparr>) (lifecycleRoots V v)))"

section \<open>Operations\<close>

definition content_of :: "jsval \<Rightarrow> jsval" where
  "content_of args = pick args [''content'', ''text'', ''plaintext'']"

definition record_of ::
  "vnode \<Rightarrow> fresh \<Rightarrow> vault \<Rightarrow> jsval \<Rightarrow> jsval \<Rightarrow> jsval \<Rightarrow> string \<Rightarrow> string \<Rightarrow> string \<Rightarrow> jsval \<Rightarrow> jsval" where
  "record_of V fr v args memoryId subjectId createdAt contentHash memoryAddr meta =
     pruneUndefined (JObj
       [(''schema'', JStr ''enigma.memory_object.v1''), (''memory_id'', memoryId), (''memory_addr'', JStr memoryAddr),
        (''subject_id'', subjectId), (''kind'', coals args [''kind''] (JStr ''fact'')),
        (''content_ciphertext'', encryptContent V fr v memoryAddr (js_String (content_of args))),
        (''content_hash'', JStr contentHash),
        (''content_commitment'', JStr (''hmac-sha256:'' @ asHmacSha256 V (vt_addressKey v) contentHash)),
        (''source_refs'', sanitizeSourceRefs (vn_node V) (pick args [''source_refs'', ''sourceRefs''])),
        (''confidence'', coals args [''confidence''] (JStr ''user_confirmed'')),
        (''sensitivity'', coals args [''sensitivity''] (JStr ''normal'')),
        (''purpose_tags'', case pick args [''purpose_tags'', ''purposeTags''] of JArr xs \<Rightarrow> JArr xs | _ \<Rightarrow> JArr []),
        (''retention'', coals args [''retention''] (JStr ''durable'')),
        (''importance'', normalizeImportance V (getp args ''importance'')), (''state'', JStr ''active''),
        (''metadata'', meta), (''created_at'', JStr createdAt), (''updated_at'', JStr createdAt)])"

definition actor_policy_now :: "jsval \<Rightarrow> props" where
  "actor_policy_now args =
     [(''actor_id'', pick args [''actor_id'', ''actorId'']), (''policy_id'', pick args [''policy_id'', ''policyId'']),
      (''now'', getp args ''now'')]"

definition remember :: "vnode \<Rightarrow> fresh \<Rightarrow> jsval \<Rightarrow> jsval vm" where
  "remember V fr args =
     (if nullish (content_of args) then sthrow ''remember requires content''
      else
       sbind sget (\<lambda>v.
       let memoryId = coals args [''memory_id'', ''memoryId''] (JStr (''mem_'' @ fr_uuid fr));
           subjectId = coals args [''subject_id'', ''subjectId''] (vt_subject_id v);
           contentHash = sha_root (vn_node V) (js_String (content_of args))
       in sbind (slift (vn_iso V (getp args ''now''))) (\<lambda>createdAt.
          sbind (slift (memoryAddress V v subjectId memoryId contentHash)) (\<lambda>memoryAddr.
          if jm_has (vt_tombstones v) (JStr memoryAddr) then sthrow (''memory address is tombstoned: '' @ memoryAddr)
          else
           sbind (slift (metadata (vn_node V) (getp args ''metadata''))) (\<lambda>meta.
           let r = record_of V fr v args memoryId subjectId createdAt contentHash memoryAddr meta;
               m = \<lparr>mr_obj = r, mr_plaintext = None\<rparr>
           in sbind (smodify (\<lambda>v. v\<lparr>vt_memories := jm_set (JStr memoryAddr) m (vt_memories v),
                               vt_active := set_add (JStr memoryAddr) (vt_active v)\<rparr>)) (\<lambda>_.
              sbind (appendEvent V fr (JObj
                ([(''operation'', JStr ''create''), (''memory_addr'', JStr memoryAddr), (''subject_id'', subjectId),
                  (''metadata'', pruneUndefined (JObj
                    [(''memory_id'', memoryId), (''kind'', getp r ''kind''), (''sensitivity'', getp r ''sensitivity''),
                     (''importance'', getp r ''importance''), (''content_commitment'', getp r ''content_commitment'')]))]
                 @ actor_policy_now args))) (\<lambda>(event, receipt).
              sbind (slift (publicRecord V m)) (\<lambda>public.
              sret (JObj [(''memory'', public), (''memory_addr'', JStr memoryAddr), (''event'', event),
                (''receipt'', receipt)])))))))))"

definition recall :: "vnode \<Rightarrow> fresh \<Rightarrow> jsval \<Rightarrow> jsval vm" where
  "recall V fr args =
     (let memoryAddr = pick args [''memory_addr'', ''memoryAddr'']
      in if \<not> truthy memoryAddr then sthrow ''recall requires memory_addr''
         else
          sbind sget (\<lambda>v.
          if jm_has (vt_tombstones v) memoryAddr then sthrow (''memory is tombstoned: '' @ js_String memoryAddr)
          else if memoryAddr \<notin> set (vt_active v) then sthrow (''memory is not active: '' @ js_String memoryAddr)
          else case jm_get (vt_memories v) memoryAddr of
                 None \<Rightarrow> sthrow (''memory is not active: '' @ js_String memoryAddr)
               | Some m \<Rightarrow>
                   if getp (mr_obj m) ''state'' \<noteq> JStr ''active'' then sthrow (''memory is not active: '' @ js_String memoryAddr)
                   else
                    sbind (slift (decryptContent V v m)) (\<lambda>(plaintext, m').
                    sbind (smodify (\<lambda>v. v\<lparr>vt_memories := jm_set memoryAddr m' (vt_memories v)\<rparr>)) (\<lambda>_.
                    sbind (appendEvent V fr (JObj
                      ([(''operation'', coals args [''operation''] (JStr ''read'')), (''memory_addr'', memoryAddr),
                        (''provider'', getp args ''provider''), (''model'', getp args ''model''),
                        (''purpose'', getp args ''purpose''),
                        (''metadata'', JObj [(''kind'', getp (mr_obj m) ''kind''),
                           (''sensitivity'', getp (mr_obj m) ''sensitivity'')])] @ actor_policy_now args)))
                      (\<lambda>(event, receipt).
                    sbind (slift (publicRecord V m')) (\<lambda>public.
                    sret (JObj [(''memory'', spread2 public [(''content'', JStr plaintext)]), (''memory_addr'', memoryAddr),
                      (''content'', JStr plaintext), (''event'', event), (''receipt'', receipt)])))))))"

definition set_fields :: "props \<Rightarrow> memory \<Rightarrow> memory" where
  "set_fields kvs m = m\<lparr>mr_obj := JObj (obj_puts kvs (props_of (mr_obj m)))\<rparr>"

definition updateMemory :: "vnode \<Rightarrow> fresh \<Rightarrow> jsval \<Rightarrow> jsval vm" where
  "updateMemory V fr args =
     (let oldAddr = pick args [''memory_addr'', ''memoryAddr'']
      in if \<not> truthy oldAddr then sthrow ''updateMemory requires memory_addr''
         else if nullish (content_of args) then sthrow ''updateMemory requires content''
         else
          sbind sget (\<lambda>v0.
          if jm_has (vt_tombstones v0) oldAddr \<or> oldAddr \<notin> set (vt_active v0)
          then sthrow (''memory is not active: '' @ js_String oldAddr)
          else case jm_get (vt_memories v0) oldAddr of
                 None \<Rightarrow> sthrow (''unknown memory: '' @ js_String oldAddr)
               | Some m0 \<Rightarrow>
                   sbind (smodify (\<lambda>v. v\<lparr>vt_memories := jm_set oldAddr (set_fields [(''state'', JStr ''superseded'')] m0) (vt_memories v)\<rparr>)) (\<lambda>_.
                   sbind (slift (vn_iso V (getp args ''now''))) (\<lambda>updatedAt.
                   let m1 = set_fields [(''state'', JStr ''superseded''), (''updated_at'', JStr updatedAt)] m0;
                       contentHash = sha_root (vn_node V) (js_String (content_of args))
                   in sbind (smodify (\<lambda>v. v\<lparr>vt_memories := jm_set oldAddr m1 (vt_memories v),
                                       vt_active := set_remove oldAddr (vt_active v)\<rparr>)) (\<lambda>_.
                      sbind (slift (memoryAddress V v0 (getp (mr_obj m0) ''subject_id'') (getp (mr_obj m0) ''memory_id'') contentHash)) (\<lambda>newAddr.
                      sbind (slift (publicRecord V m1)) (\<lambda>public.
                      let commitment = JStr (''hmac-sha256:'' @ asHmacSha256 V (vt_addressKey v0) contentHash);
                          r = pruneUndefined (spread2 public
                            [(''memory_addr'', JStr newAddr),
                             (''content_ciphertext'', encryptContent V fr v0 newAddr (js_String (content_of args))),
                             (''content_hash'', JStr contentHash), (''content_commitment'', commitment),
                             (''state'', JStr ''active''), (''updated_at'', JStr updatedAt)]);
                          tombstone = JObj
                            [(''schema'', JStr ''enigma.deletion_tombstone.v1''), (''memory_addr'', oldAddr),
                             (''operation'', JStr ''update''), (''successor_addr'', JStr newAddr),
                             (''tombstoned_at'', JStr updatedAt), (''reason'', coals args [''reason''] (JStr ''updated''))]
                      in sbind (smodify (\<lambda>v. v\<lparr>vt_memories := jm_set (JStr newAddr) \<lparr>mr_obj = r, mr_plaintext = None\<rparr> (vt_memories v),
                                          vt_active := set_add (JStr newAddr) (vt_active v),
                                          vt_tombstones := jm_set oldAddr tombstone (vt_tombstones v)\<rparr>)) (\<lambda>_.
                         sbind (appendEvent V fr (JObj
                           ([(''operation'', JStr ''update''), (''memory_addr'', JStr newAddr), (''source_addr'', oldAddr),
                             (''metadata'', JObj [(''memory_id'', getp (mr_obj m0) ''memory_id''),
                                (''old_memory_addr'', oldAddr), (''content_commitment'', commitment)])]
                            @ actor_policy_now args))) (\<lambda>(event, receipt).
                         sbind (slift (publicRecord V \<lparr>mr_obj = r, mr_plaintext = None\<rparr>)) (\<lambda>public'.
                         sret (JObj [(''old_memory_addr'', oldAddr), (''memory_addr'', JStr newAddr), (''memory'', public'),
                           (''tombstone'', tombstone), (''event'', event), (''receipt'', receipt)])))))))))))"

definition deleteMemory :: "vnode \<Rightarrow> fresh \<Rightarrow> jsval \<Rightarrow> jsval vm" where
  "deleteMemory V fr args =
     (let memoryAddr = pick args [''memory_addr'', ''memoryAddr'']
      in if \<not> truthy memoryAddr then sthrow ''deleteMemory requires memory_addr''
         else
          sbind sget (\<lambda>v0.
          if jm_has (vt_tombstones v0) memoryAddr then sthrow (''memory is already tombstoned: '' @ js_String memoryAddr)
          else if memoryAddr \<notin> set (vt_active v0) then sthrow (''memory is not active: '' @ js_String memoryAddr)
          else
           sbind (case jm_get (vt_memories v0) memoryAddr of
                    None \<Rightarrow> sret ()
                  | Some m0 \<Rightarrow>
                      sbind (smodify (\<lambda>v. v\<lparr>vt_memories := jm_set memoryAddr
                               (set_fields [(''state'', JStr ''tombstoned'')] m0) (vt_memories v)\<rparr>)) (\<lambda>_.
                      sbind (slift (vn_iso V (getp args ''now''))) (\<lambda>at.
                      smodify (\<lambda>v. v\<lparr>vt_memories := jm_set memoryAddr
                        ((set_fields [(''state'', JStr ''tombstoned''), (''updated_at'', JStr at)] m0)\<lparr>mr_plaintext := None\<rparr>)
                        (vt_memories v)\<rparr>)))) (\<lambda>_.
           sbind (smodify (\<lambda>v. v\<lparr>vt_active := set_remove memoryAddr (vt_active v)\<rparr>)) (\<lambda>_.
           sbind (slift (vn_iso V (getp args ''now''))) (\<lambda>at.
           let reason = coals args [''reason''] (JStr ''user_deleted'');
               tombstone = JObj
                 [(''schema'', JStr ''enigma.deletion_tombstone.v1''), (''memory_addr'', memoryAddr),
                  (''operation'', JStr ''delete''), (''tombstoned_at'', JStr at), (''reason'', reason)]
           in sbind (smodify (\<lambda>v. v\<lparr>vt_tombstones := jm_set memoryAddr tombstone (vt_tombstones v)\<rparr>)) (\<lambda>_.
              sbind (appendEvent V fr (JObj
                ([(''operation'', JStr ''delete''), (''memory_addr'', memoryAddr),
                  (''metadata'', JObj [(''reason'', reason)])] @ actor_policy_now args))) (\<lambda>(event, receipt).
              sret (JObj [(''memory_addr'', memoryAddr), (''tombstone'', tombstone), (''event'', event),
                (''receipt'', receipt)]))))))))"

end
