(* ===== verification/Sample_Vault.thy ===== *)
theory Sample_Vault
  imports Vault
begin

text \<open>
  A concrete runtime for the witnesses on vaults: a constant digest, encryption by copying and fixed
  times and keys, so that whole operations evaluate.
\<close>

definition zeros :: string where
  "zeros = replicate 64 (CHR ''0'')"

definition vsample :: vnode where
  "vsample = \<lparr>
     vn_node = sample\<lparr>nd_sha256 := \<lambda>s. zeros, nd_hmac := \<lambda>k s. zeros, nd_sign := \<lambda>m k. Inr ''s'', nd_verify := \<lambda>m k s. Inr (s = ''s'')\<rparr>,
     vn_encrypt = (\<lambda>k iv aad p. (p, ''t'')),
     vn_decrypt = (\<lambda>k iv aad c t. Inr c),
     vn_b64 = (\<lambda>b. CHR ''_'' # b),
     vn_scrypt = (\<lambda>p s. concat (replicate 4 s)),
     vn_signingPair = (\<lambda>seed. JObj [(''publicKey'', JStr ''p''), (''privateKey'', JStr ''k'')]),
     vn_iso = (\<lambda>v. Inr ''2026-01-01''),
     vn_number = (\<lambda>v. NNaN),
     vn_collate = (\<lambda>s. s),
     vn_exportKey = (\<lambda>format key. JUndef),
     vn_json = (\<lambda>text. Inr JNull)\<rparr>"

definition sample_fresh :: fresh where
  "sample_fresh = \<lparr>fr_uuid = ''u'', fr_event = ''e'', fr_iv = ''i'', fr_vaultKey = ''v'', fr_addressKey = ''a'', fr_salt = ''12345678''\<rparr>"

lemma vsample_simps [simp]:
  "nd_sha256 (vn_node vsample) s = zeros" "nd_hmac (vn_node vsample) k s = zeros" "nd_sign (vn_node vsample) m sk = Inr ''s''"
  "nd_verify (vn_node vsample) m pk s = Inr (s = ''s'')" "nd_b64url (vn_node vsample) b = CHR ''_'' # b"
  "nd_b64dec (vn_node vsample) en b = tl b" "vn_encrypt vsample k iv aad p = (p, ''t'')"
  "vn_decrypt vsample k iv aad ct t = Inr ct" "vn_b64 vsample b = CHR ''_'' # b"
  "vn_signingPair vsample seed = JObj [(''publicKey'', JStr ''p''), (''privateKey'', JStr ''k'')]"
  "vn_iso vsample v = Inr ''2026-01-01''" "vn_collate vsample t = t"
  by (simp_all add: vsample_def sample_def)

lemma sha256Str_vsample [simp]: "sha256Str (vn_node vsample) s = zeros"
  by (simp add: sha256Str_def)

lemma aead_ok_vsample: "aead_ok vsample"
  by (simp add: aead_ok_def)

lemma key_pair_ok_vsample: "key_pair_ok (vn_node vsample) k p"
  by (simp add: key_pair_ok_def)

definition vault0 :: vault where
  "vault0 = \<lparr>vt_vault_id = JStr ''vault_u'', vt_tenant_id = JStr ''local'', vt_subject_id = JStr ''local-subject'',
     vt_actor_id = JStr ''local-user'', vt_policy_id = JStr ''local-default'', vt_created_at = JStr ''2026-01-01'',
     vt_updated_at = JStr ''2026-01-01'', vt_key_id = JStr ''vault-key-u'', vt_vaultKey = ''v'', vt_addressKey = ''a'',
     vt_signingKeyPair = JObj [(''publicKey'', JStr ''p''), (''privateKey'', JStr ''k'')],
     vt_signer = JObj [(''key_id'', JStr ''local-ed25519-u''), (''alg'', JStr ''Ed25519'')],
     vt_memories = [], vt_events = [], vt_receipts = [], vt_active = [], vt_tombstones = [], vt_quarantine = [],
     vt_sequence = 0,
     vt_roots = \<lparr>rt_active = SHA256_PREFIX @ zeros, rt_quarantine = SHA256_PREFIX @ zeros, rt_tombstone = SHA256_PREFIX @ zeros,
        rt_receipt_log = SHA256_PREFIX @ zeros, rt_lifecycle = SHA256_PREFIX @ zeros\<rparr>,
     vt_keyringType = KEYRING_PLAINTEXT_TYPE\<rparr>"

lemma merkle_reduce_zeros:
  "level \<noteq> [] \<Longrightarrow> set level \<subseteq> {zeros} \<Longrightarrow> hd (merkle_reduce (vn_node vsample) level) = zeros"
proof (induction "vn_node vsample" level rule: merkle_reduce.induct)
  case (1 level)
  have next_set: "set (nextMerkleLevel (vn_node vsample) xs) \<subseteq> insert zeros (set xs)" for xs
    by (induction "vn_node vsample" xs rule: nextMerkleLevel.induct) (auto simp: merkleNodeHash_def)
  have "nextMerkleLevel (vn_node vsample) level \<noteq> []" if "length level > 1"
    using that length_nextMerkleLevel [of "vn_node vsample" level] by (cases level) auto
  with 1 next_set [of level] show ?case
    by (subst merkle_reduce.simps) (cases level; auto)
qed

lemma ms_root_vsample [simp]: "ms_root (vn_node vsample) m = SHA256_PREFIX @ zeros"
  by (auto simp: ms_root_def merkleRoot_def EMPTY_MERKLE_ROOT_def merkleLeafHash_def intro!: merkle_reduce_zeros)

lemma vault0_created: "createVault vsample sample_fresh (JObj []) = Inr vault0"
  by (simp add: createVault_def derived_keys_def has_passphrase_def keyBytes_def sample_fresh_def
    lifecycleRoots_def tombstoneRootItems_def computeReceiptLogRootFrom_def vault0_def string_set_root_def ZERO_ROOT_def
    signerFor_def obj_get_Cons)

lemma metadata_strings:
  assumes "\<forall>p \<in> set ps. \<exists>s. snd p = JStr s"
  shows "\<exists>qs. metadata N (JObj ps) = Inr (JObj qs) \<and> jsonable (JObj qs)"
proof -
  have "\<exists>qs. foldE (metadata_field N) out ps = Inr qs \<and> jsonable (JObj qs)" if "jsonable (JObj out)" for out
    using assms that
  proof (induction ps arbitrary: out)
    case (Cons p ps)
    obtain k s where p: "p = (k, JStr s)" using Cons.prems(1) by (cases p) auto
    have put: "jsonable (JObj (obj_put k' (JStr t) out))" for k' t
      using Cons.prems(2) set_obj_put [of k' "JStr t" out] by (fastforce simp: distinct_obj_put)
    obtain out' where "metadata_field N out p = Inr out'" "jsonable (JObj out')"
      using put by (cases "isSafeMetadataPrimitive k (JStr s)") (auto simp: p metadata_field_def isMetadataPrimitive_def commitMetadataValue_def simp del: jsonable.simps)
    then show ?case using Cons by simp
  qed simp
  from this [of "[]"] show ?thesis by (auto simp: metadata_def)
qed

definition addr0 :: string where "addr0 = ''mem:hmac-sha256:'' @ zeros"

lemma memoryAddress_vsample:
  assumes "jsonable sb" "jsonable mi" 
  shows "memoryAddress vsample v sb mi h = Inr addr0"
proof -
  have "jsonable (JObj [(''domain'', JStr MEMORY_DOMAIN), (''subject_id'', sb), (''memory_id'', mi), (''content_hash'', JStr h)])"
    using assms by simp
  then obtain c where c: "canonicalize (JObj [(''domain'', JStr MEMORY_DOMAIN), (''subject_id'', sb), (''memory_id'', mi), (''content_hash'', JStr h)]) = Inr c"
    using canonicalize_jsonable by blast
  have "jsonable (JObj [(''namespace'', JStr ''memory''), (''tenant_id'', JNull), (''subject_id'', coal sb (coal sb JNull)), (''value'', JStr c)])"
    using assms by (simp add: coal_def)
  then obtain d where d: "canonicalize (JObj [(''namespace'', JStr ''memory''), (''tenant_id'', JNull), (''subject_id'', coal sb (coal sb JNull)), (''value'', JStr c)]) = Inr d"
    using canonicalize_jsonable by blast
  show ?thesis
    using c d by (simp add: memoryAddress_def Let_def canonical_def createMemoryAddress_def keyed_options_def isPlainRecord_def
      hasOwn_def keys_of_def obj_get_Cons hmacSha256Hex_def bytesForKey_def bytesForHash_def addr0_def)
qed

end
