(* ===== verification/VaultState.thy ===== *)
theory VaultState
  imports Sample_Vault
begin

text \<open>
  Invariants of the vault over sequences of operations.  Operations are run in any order, with any
  arguments, and may throw at any point; \<open>steps\<close> is the resulting relation between vaults.
\<close>

section \<open>The log is append-only\<close>

lemma applyLifecycleRoots_state: "\<exists>\<rho>. snd (applyLifecycleRoots V v) = v\<lparr>vt_roots := \<rho>\<rparr>"
proof (cases "lifecycleRoots V v")
  case (Inl e)
  then have "snd (applyLifecycleRoots V v) = v\<lparr>vt_roots := vt_roots v\<rparr>" by (simp add: applyLifecycleRoots_def)
  then show ?thesis by blast
next
  case (Inr r)
  then have "snd (applyLifecycleRoots V v) = v\<lparr>vt_roots := r\<rparr>" by (simp add: applyLifecycleRoots_def)
  then show ?thesis by blast
qed

lemma appendEvent_Inl:
  "next_entry V fr v fs = Inl e \<Longrightarrow> appendEvent V fr fs v = (Inl e, v)"
  by (simp add: appendEvent_def)

lemma appendEvent_Inr:
  assumes "next_entry V fr v fs = Inr ent"
  shows "\<exists>\<rho>. snd (appendEvent V fr fs v) = (store_entry ent v)\<lparr>vt_roots := \<rho>\<rparr>"
proof -
  obtain entry event receipt where ent: "ent = (entry, event, receipt)" by (cases ent)
  obtain r w where w: "applyLifecycleRoots V (store_entry ent v) = (r, w)" by (cases "applyLifecycleRoots V (store_entry ent v)")
  obtain \<rho> where "w = (store_entry ent v)\<lparr>vt_roots := \<rho>\<rparr>"
    using applyLifecycleRoots_state [of V "store_entry ent v"] w by auto
  moreover have "snd (appendEvent V fr fs v) = w"
    using assms w by (cases r) (simp_all add: appendEvent_def ent)
  ultimately show ?thesis by blast
qed

lemma appendEvent_state:
  obtains (fail) e where "next_entry V fr v fs = Inl e" "appendEvent V fr fs v = (Inl e, v)"
  | (store) ent \<rho> where "next_entry V fr v fs = Inr ent" "snd (appendEvent V fr fs v) = (store_entry ent v)\<lparr>vt_roots := \<rho>\<rparr>"
  using appendEvent_Inl [of V fr v fs] appendEvent_Inr [of V fr v fs] by (cases "next_entry V fr v fs") blast+

text \<open>What an entry of the log does not touch.\<close>

lemma store_entry_simps [simp]:
  "vt_active (store_entry ent v) = vt_active v" "vt_tombstones (store_entry ent v) = vt_tombstones v"
  "vt_memories (store_entry ent v) = vt_memories v" "vt_signer (store_entry ent v) = vt_signer v"
  "vt_signingKeyPair (store_entry ent v) = vt_signingKeyPair v"
  "vt_vaultKey (store_entry ent v) = vt_vaultKey v"
  "vt_receipts (store_entry ent v) = vt_receipts v @ [snd (snd ent)]"
  "vt_sequence (store_entry ent v) = vt_sequence v + 1"
  by (simp_all add: store_entry_def split: prod.split)

lemma appendEvent_frame:
  "vt_active (snd (appendEvent V fr fs v)) = vt_active v"
  "vt_tombstones (snd (appendEvent V fr fs v)) = vt_tombstones v"
  "vt_memories (snd (appendEvent V fr fs v)) = vt_memories v"
  by (cases rule: appendEvent_state [of V fr v fs]; simp)+

lemma keeps_appendEvent:
  assumes "\<And>v ent \<rho>. P v \<Longrightarrow> next_entry V fr v fs = Inr ent \<Longrightarrow> P ((store_entry ent v)\<lparr>vt_roots := \<rho>\<rparr>)"
  shows "keeps P (appendEvent V fr fs)"
  unfolding keeps_def
proof (intro allI impI)
  fix v r t
  assume "P v" "appendEvent V fr fs v = (r, t)"
  with assms [of v] show "P t" by (cases rule: appendEvent_state [of V fr v fs]) auto
qed

section \<open>Operations and reachable vaults\<close>

datatype vault_op =
    Remember fresh jsval
  | Recall fresh jsval
  | Update fresh jsval
  | Delete fresh jsval

fun run_op :: "vnode \<Rightarrow> vault_op \<Rightarrow> jsval vm" where
  "run_op V (Remember fr args) = remember V fr args"
| "run_op V (Recall fr args) = recall V fr args"
| "run_op V (Update fr args) = updateMemory V fr args"
| "run_op V (Delete fr args) = deleteMemory V fr args"

inductive steps :: "vnode \<Rightarrow> vault \<Rightarrow> vault \<Rightarrow> bool" for V where
  steps_refl: "steps V v v"
| steps_op: "steps V v w \<Longrightarrow> run_op V op w = (r, w') \<Longrightarrow> steps V v w'"

text \<open>
  Changes of the state that an operation makes between log entries concern memories, the active set
  and the tombstones, and only add tombstones.
\<close>

definition log_stable :: "(vault \<Rightarrow> bool) \<Rightarrow> bool" where
  "log_stable P = (\<forall>v m a t. P v \<longrightarrow> (\<forall>x. jm_has (vt_tombstones v) x \<longrightarrow> jm_has t x) \<longrightarrow>
      P (v\<lparr>vt_memories := m, vt_active := a, vt_tombstones := t\<rparr>))"

lemma log_stable_memories: "log_stable P \<Longrightarrow> P v \<Longrightarrow> P (v\<lparr>vt_memories := m\<rparr>)"
  unfolding log_stable_def by (drule spec [of _ v], drule spec [of _ m], drule spec [of _ "vt_active v"],
      drule spec [of _ "vt_tombstones v"]) simp

lemma log_stable_active: "log_stable P \<Longrightarrow> P v \<Longrightarrow> P (v\<lparr>vt_active := a\<rparr>)"
  unfolding log_stable_def by (drule spec [of _ v], drule spec [of _ "vt_memories v"], drule spec [of _ a],
      drule spec [of _ "vt_tombstones v"]) simp

lemma log_stable_tombstone: "log_stable P \<Longrightarrow> P v \<Longrightarrow> P (v\<lparr>vt_tombstones := jm_set x t (vt_tombstones v)\<rparr>)"
  unfolding log_stable_def by (drule spec [of _ v], drule spec [of _ "vt_memories v"], drule spec [of _ "vt_active v"],
      drule spec [of _ "jm_set x t (vt_tombstones v)"]) (simp add: jm_has_set)

lemma log_stable_both: "log_stable P \<Longrightarrow> P v \<Longrightarrow> P (v\<lparr>vt_memories := m, vt_active := a\<rparr>)"
  unfolding log_stable_def by (drule spec [of _ v], drule spec [of _ m], drule spec [of _ a],
      drule spec [of _ "vt_tombstones v"]) simp

lemma log_stable_all:
  "log_stable P \<Longrightarrow> P v \<Longrightarrow> P (v\<lparr>vt_memories := m, vt_active := a, vt_tombstones := jm_set x t (vt_tombstones v)\<rparr>)"
  unfolding log_stable_def by (drule spec [of _ v], drule spec [of _ m], drule spec [of _ a],
      drule spec [of _ "jm_set x t (vt_tombstones v)"]) (simp add: jm_has_set)

lemmas log_stable_rules = log_stable_memories log_stable_active log_stable_tombstone log_stable_both log_stable_all

lemma keeps_sthrow [intro]: "keeps P (sthrow msg)"
  by (simp add: sthrow_def keeps_slift)

lemma keeps_if [intro]: "keeps P m \<Longrightarrow> keeps P m' \<Longrightarrow> keeps P (if b then m else m')"
  by simp

lemma keeps_prod [intro]: "(\<And>a b. keeps P (f a b)) \<Longrightarrow> keeps P (case p of (a, b) \<Rightarrow> f a b)"
  by (cases p) simp

lemma keeps_option [intro]: "keeps P m \<Longrightarrow> (\<And>x. keeps P (f x)) \<Longrightarrow> keeps P (case o' of None \<Rightarrow> m | Some x \<Rightarrow> f x)"
  by (cases o') simp_all


lemma keeps_run_op:
  assumes "log_stable P" and "\<And>fr fs. keeps P (appendEvent V fr fs)"
  shows "keeps P (run_op V op)"
proof (cases op)
  case (Remember fr args)
  show ?thesis unfolding Remember run_op.simps remember_def Let_def
    by (intro keeps_if keeps_sthrow keeps_sbind keeps_sget keeps_slift keeps_sret keeps_smodify keeps_prod assms(2)
        log_stable_rules [OF assms(1)])
next
  case (Recall fr args)
  show ?thesis unfolding Recall run_op.simps recall_def Let_def
    by (intro keeps_if keeps_sthrow keeps_sbind keeps_sget keeps_slift keeps_sret keeps_smodify keeps_prod keeps_option
        assms(2) log_stable_rules [OF assms(1)])
next
  case (Update fr args)
  show ?thesis unfolding Update run_op.simps updateMemory_def Let_def
    by (intro keeps_if keeps_sthrow keeps_sbind keeps_sget keeps_slift keeps_sret keeps_smodify keeps_prod keeps_option
        assms(2) log_stable_rules [OF assms(1)])
next
  case (Delete fr args)
  show ?thesis unfolding Delete run_op.simps deleteMemory_def Let_def
    by (intro keeps_if keeps_sthrow keeps_sbind keeps_sget keeps_slift keeps_sret keeps_smodify keeps_prod keeps_option
        assms(2) log_stable_rules [OF assms(1)])
qed

lemma steps_keeps:
  assumes "steps V v w" and "P v" and "log_stable P" and "\<And>fr fs. keeps P (appendEvent V fr fs)"
  shows "P w"
  using assms(1,2)
proof (induction rule: steps.induct)
  case (steps_op v w op r w')
  then show ?case using keepsD [OF keeps_run_op [OF assms(3,4)], of w op] by simp
qed

section \<open>Deletion is permanent\<close>

lemma tombstone_kept:
  assumes "steps V v w" and "jm_has (vt_tombstones v) a"
  shows "jm_has (vt_tombstones w) a"
proof (rule steps_keeps [OF assms(1), where P = "\<lambda>v. jm_has (vt_tombstones v) a"])
  show "keeps (\<lambda>v. jm_has (vt_tombstones v) a) (appendEvent V fr fs)" for fr fs
    by (rule keeps_appendEvent) simp
qed (use assms(2) in \<open>auto simp: log_stable_def\<close>)

lemma recall_tombstoned:
  "jm_has (vt_tombstones w) a \<Longrightarrow> truthy a \<Longrightarrow>
     recall V fr (JObj [(''memory_addr'', a)]) w = (Inl (Error (''memory is tombstoned: '' @ js_String a)), w)"
  by (auto simp: recall_def Let_def sbind_def sthrow_def obj_get_Cons coal_def nullish_iff)

text \<open>
  C6. Once an address is tombstoned it stays so, whatever operations follow and wherever they throw:
  recalling it throws the error of the code and leaves the vault unchanged.
\<close>

theorem tombstoned_never_recalled:
  assumes "steps V v w" and "jm_has (vt_tombstones v) a" and "truthy a"
  shows "recall V fr (JObj [(''memory_addr'', a)]) w = (Inl (Error (''memory is tombstoned: '' @ js_String a)), w)"
  by (rule recall_tombstoned [OF tombstone_kept [OF assms(1,2)] assms(3)])

theorem tombstoned_never_recalled_witness:
  "recall vsample sample_fresh (JObj [(''memory_addr'', JStr ''m'')])
      (snd (deleteMemory vsample sample_fresh (JObj [(''memory_addr'', JStr ''m'')])
        (vault0\<lparr>vt_tombstones := [(JStr ''m'', JNull)]\<rparr>)))
    = (Inl (Error ''memory is tombstoned: m''),
       snd (deleteMemory vsample sample_fresh (JObj [(''memory_addr'', JStr ''m'')])
         (vault0\<lparr>vt_tombstones := [(JStr ''m'', JNull)]\<rparr>)))"
proof -
  have "steps vsample v (snd (deleteMemory vsample sample_fresh args v))" for v args
    using steps_op [OF steps_refl, of vsample "Delete sample_fresh args"] by (metis prod.collapse run_op.simps(4))
  from tombstoned_never_recalled [OF this, of _ "JStr ''m''"] show ?thesis by (simp add: jm_has_def)
qed

end
