(* ===== verification/VaultLog.thy ===== *)
theory VaultLog
  imports VaultState
begin

text \<open>
  The receipts a vault writes form a chain that the verifier of \<open>packages/core\<close> accepts: the
  producer (\<open>appendEvent\<close> of \<open>packages/vault\<close>) meets the contract of the consumer
  (\<open>verifyReceiptChain\<close>), whatever operations were run and wherever they threw.
\<close>

section \<open>Encodable values have no undefined fields\<close>

lemma canonicalize_JObj_ok: "is_ok (canonicalizeValue (JObj ps)) \<longleftrightarrow> (\<forall>p \<in> set ps. is_ok (canonicalizeValue (snd p)))"
  by (simp add: is_ok_ebind_total is_ok_mapE case_prod_unfold)

lemma canonicalize_prune: "is_ok (canonicalizeValue v) \<Longrightarrow> pruneUndefined v = v"
proof (induction v rule: pruneUndefined.induct)
  case (1 xs)
  then have "is_ok (canonicalizeValue x)" if "x \<in> set xs" for x
    using that by (auto simp: is_ok_ebind_total is_ok_mapE split: if_splits)
  with 1 show ?case by (simp add: map_idI)
next
  case (2 ps)
  then have ok: "is_ok (canonicalizeValue (snd p))" if "p \<in> set ps" for p
    using that by (simp only: canonicalize_JObj_ok)
  then have "snd p \<noteq> JUndef" if "p \<in> set ps" for p using that by fastforce
  then have "filter (\<lambda>p. snd p \<noteq> JUndef) ps = ps" by simp
  moreover have "(fst p, pruneUndefined (snd p)) = p" if "p \<in> set ps" for p
  proof -
    have "pruneUndefined (snd p) = snd p"
      using 2(1) [of p "fst p" "snd p"] that ok [OF that] calculation by simp
    then show ?thesis by (simp add: prod_eq_iff)
  qed
  ultimately show ?case by (simp add: case_prod_unfold map_idI)
qed simp_all

lemma obj_get_prune:
  assumes "distinct (map fst ps)"
  shows "getp (pruneUndefined (JObj ps)) k = pruneUndefined (obj_get ps k)"
proof -
  have "obj_get (map (\<lambda>(k, v). (k, pruneUndefined v)) xs) k = pruneUndefined (obj_get xs k)" for xs
    by (induction xs) (auto simp: obj_get_Cons)
  with assms show ?thesis by (simp add: obj_get_filter_defined)
qed

lemma pruneUndefined_idem [simp]: "pruneUndefined (pruneUndefined v) = pruneUndefined v"
proof (induction v rule: pruneUndefined.induct)
  case (2 ps)
  have nz: "pruneUndefined v \<noteq> JUndef" if "v \<noteq> JUndef" for v using that by (cases v) simp_all
  have "filter (\<lambda>p. snd p \<noteq> JUndef) (map (\<lambda>(k, v). (k, pruneUndefined v)) (filter (\<lambda>p. snd p \<noteq> JUndef) ps))
      = map (\<lambda>(k, v). (k, pruneUndefined v)) (filter (\<lambda>p. snd p \<noteq> JUndef) ps)"
    by (auto simp: filter_id_conv nz)
  with 2 show ?case by (auto simp: case_prod_unfold)
qed simp_all

section \<open>The next receipt of a vault\<close>

text \<open>A private key as the runtime has it: a PEM text or a key object.\<close>

fun key_value :: "jsval \<Rightarrow> bool" where
  "key_value (JStr s) = True"
| "key_value (JInst c ps) = True"
| "key_value _ = False"

lemma prune_key_value: "key_value k \<Longrightarrow> pruneUndefined k = k"
  by (cases k) simp_all

definition log_key :: "vnode \<Rightarrow> jsval \<Rightarrow> vault \<Rightarrow> bool" where
  "log_key V pub v = (key_value (getp (vt_signingKeyPair v) ''privateKey'')
     \<and> key_pair_ok (vn_node V) (getp (vt_signingKeyPair v) ''privateKey'') pub \<and> pub \<noteq> JUndef
     \<and> coals (pruneUndefined (vt_signer v)) [''alg''] (JStr ED25519) = JStr ED25519)"

lemma receipt_body_Inr:
  assumes "receipt_body N opts src = Inr b"
  shows "\<exists>p a l. getp b ''sequence'' = coal (getp opts ''sequence'') (getp src ''sequence'')
    \<and> normalizePreviousHash (coals opts [''previous_receipt_hash'', ''previousReceiptHash'']
        (if js_eq (getp b ''sequence'') (JInt 0) then JStr GENESIS else JUndef)) = Inr p
    \<and> getp b ''previous_receipt_hash'' = JStr p
    \<and> normalizeSha256Root (coals opts [''active_set_root'', ''activeSetRoot''] (JStr (EMPTY_MERKLE_ROOT N))) ''active_set_root'' = Inr a
    \<and> getp b ''active_set_root'' = JStr a
    \<and> normalizeSha256Root (coals opts [''receipt_log_root'', ''receiptLogRoot''] (JStr (EMPTY_MERKLE_ROOT N))) ''receipt_log_root'' = Inr l
    \<and> getp b ''receipt_log_root'' = JStr l
    \<and> getp b ''operation'' = coal (getp opts ''operation'') (getp src ''operation'')
    \<and> getp b ''memory_addr'' = coal (getp opts ''memory_addr'') (coal (getp opts ''memoryAddr'')
        (coal (getp src ''memory_addr'') (getp src ''memoryAddr'')))
    \<and> getp b ''source_addr'' = coal (getp opts ''source_addr'') (coal (getp opts ''sourceAddr'')
        (coal (getp src ''source_addr'') (getp src ''sourceAddr'')))"
proof -
  from assms obtain sq p e eh a l op ts sr tn sb where
    "requiredInteger (coal (getp opts ''sequence'') (getp src ''sequence'')) ''sequence'' = Inr sq"
    "normalizePreviousHash (coals opts [''previous_receipt_hash'', ''previousReceiptHash'']
        (if js_eq sq (JInt 0) then JStr GENESIS else JUndef)) = Inr p"
    "normalizeSha256Root (coals opts [''active_set_root'', ''activeSetRoot''] (JStr (EMPTY_MERKLE_ROOT N))) ''active_set_root'' = Inr a"
    "normalizeSha256Root (coals opts [''receipt_log_root'', ''receiptLogRoot''] (JStr (EMPTY_MERKLE_ROOT N))) ''receipt_log_root'' = Inr l"
    "requiredString (coal (getp opts ''operation'') (getp src ''operation'')) ''operation'' = Inr op"
    and b: "b = JObj
       (copyOptional opts src ''policy_id'' ''policyId''
       (copyOptional opts src ''model'' ''model''
       (copyOptional opts src ''provider'' ''provider''
       (copyOptional opts src ''source_addr'' ''sourceAddr''
       (copyOptional opts src ''memory_addr'' ''memoryAddr''
         [(''schema'', JStr RECEIPT_SCHEMA), (''event_hash'', JStr eh),
          (''operation'', JStr op), (''tenant_id'', JStr tn),
          (''subject_id'', JStr sb), (''sequence'', sq),
          (''previous_receipt_hash'', JStr p),
          (''active_set_root'', JStr a), (''receipt_log_root'', JStr l),
          (''timestamp'', JStr ts), (''signer'', sr)])))))"
    unfolding receipt_body_def ebind_Inr_iff by blast
  moreover have "getp b ''sequence'' = sq" "getp b ''previous_receipt_hash'' = JStr p"
    "getp b ''active_set_root'' = JStr a" "getp b ''receipt_log_root'' = JStr l" "getp b ''operation'' = JStr op"
    by (simp_all add: b obj_get_copyOptional obj_get_Cons)
  moreover have "getp b ''memory_addr'' = coal (getp opts ''memory_addr'') (coal (getp opts ''memoryAddr'')
        (coal (getp src ''memory_addr'') (getp src ''memoryAddr'')))"
    "getp b ''source_addr'' = coal (getp opts ''source_addr'') (coal (getp opts ''sourceAddr'')
        (coal (getp src ''source_addr'') (getp src ''sourceAddr'')))"
    unfolding b by (simp_all add: obj_get_copyOptional)
      (simp_all add: copyOptional_def Let_def obj_get_put obj_get_Cons)
  moreover have "coal (getp opts ''operation'') (getp src ''operation'') = JStr op"
    using calculation(5) by (simp add: requiredString_Inr)
  moreover from calculation(1) have "sq = coal (getp opts ''sequence'') (getp src ''sequence'')"
    by (simp add: requiredInteger_Inr)
  ultimately show ?thesis by simp
qed

lemma normalize_prefixed:
  "normalizeSha256Root (JStr (SHA256_PREFIX @ h)) f = Inr r \<Longrightarrow> r = SHA256_PREFIX @ h"
proof -
  have "\<not> rx_full HASH_RE (SHA256_PREFIX @ h)"
    unfolding HASH_RE_iff by (simp add: SHA256_PREFIX_def ch_hex_def ch_range_def ch_digit_def)
  then show "normalizeSha256Root (JStr (SHA256_PREFIX @ h)) f = Inr r \<Longrightarrow> r = SHA256_PREFIX @ h"
    by (simp add: normalizeSha256Root_def split: if_splits)
qed

lemma normalize_previous_prefixed:
  "normalizePreviousHash (JStr p) = Inr r \<Longrightarrow> p = GENESIS \<or> (\<exists>h. p = SHA256_PREFIX @ h) \<Longrightarrow> r = p"
  by (auto simp: normalizePreviousHash_def split: if_splits dest: normalize_prefixed)

lemma ms_root_prefixed: "\<exists>h. ms_root N m = SHA256_PREFIX @ h"
  by (auto simp: ms_root_def merkleRoot_def EMPTY_MERKLE_ROOT_def)

lemma receiptArgs_get:
  "getp (receiptArgs v event h p a l) k = pruneUndefined (obj_get
       [(''event'', event), (''event_hash'', JStr h), (''operation'', getp event ''operation''),
        (''tenant_id'', getp event ''tenant_id''), (''subject_id'', getp event ''subject_id''),
        (''memory_addr'', getp event ''memory_addr''), (''source_addr'', getp event ''source_addr''),
        (''provider'', getp event ''provider''), (''model'', getp event ''model''),
        (''policy_id'', getp event ''policy_id''), (''sequence'', getp event ''sequence''),
        (''previous_receipt_hash'', JStr p), (''active_set_root'', JStr a),
        (''receipt_log_root'', JStr l), (''timestamp'', getp event ''timestamp''),
        (''signer'', vt_signer v), (''privateKey'', getp (vt_signingKeyPair v) ''privateKey'')] k)"
  unfolding receiptArgs_def by (rule obj_get_prune) simp

lemma receiptArgs_options:
  assumes "event \<noteq> JUndef"
  shows "normalizeCreateReceiptArgs (receiptArgs v event h p a l) m = receiptArgs v event h p a l"
  using assms by (simp add: normalizeCreateReceiptArgs_def receiptArgs_def isPlainRecord_def hasOwn_def keys_of_def)

lemma event_of_get:
  assumes "event_of V fr v fs = Inr event"
  shows "event \<noteq> JUndef" "pruneUndefined event = event"
    "\<exists>ts meta. \<forall>k. getp event k = pruneUndefined (obj_get
       [(''schema'', JStr EVENT_SCHEMA), (''event_id'', JStr (''evt_'' @ fr_event fr)),
        (''operation'', getp fs ''operation''), (''tenant_id'', coals fs [''tenant_id''] (vt_tenant_id v)),
        (''subject_id'', coals fs [''subject_id''] (vt_subject_id v)),
        (''actor_id'', coals fs [''actor_id''] (vt_actor_id v)), (''memory_addr'', getp fs ''memory_addr''),
        (''source_addr'', getp fs ''source_addr''), (''provider'', getp fs ''provider''),
        (''model'', getp fs ''model''), (''purpose'', getp fs ''purpose''), (''timestamp'', JStr ts),
        (''sequence'', JInt (vt_sequence v)), (''policy_id'', coals fs [''policy_id''] (vt_policy_id v)),
        (''decision'', getp fs ''decision''), (''metadata'', meta)] k)" (is "\<exists>ts meta. \<forall>k. getp event k = pruneUndefined (obj_get (?ps ts meta) k)")
proof -
  from assms obtain ts meta where e: "event = pruneUndefined (JObj (?ps ts meta))"
    by (auto simp only: event_of_def ebind_Inr_iff sum.inject)
  then show "event \<noteq> JUndef" "pruneUndefined event = event" by (simp, simp only: pruneUndefined_idem)
  have "getp event k = pruneUndefined (obj_get (?ps ts meta) k)" for k unfolding e by (rule obj_get_prune) simp
  then show "\<exists>ts meta. \<forall>k. getp event k = pruneUndefined (obj_get (?ps ts meta) k)" by blast
qed

lemma event_of_sequence:
  assumes "event_of V fr v fs = Inr event"
  shows "getp event ''sequence'' = JInt (vt_sequence v) \<and> event \<noteq> JUndef"
  using event_of_get [OF assms] by (auto simp: obj_get_Cons)

text \<open>A receipt that a vault may append after the receipts it has.\<close>

definition next_receipt_ok :: "node \<Rightarrow> jsval \<Rightarrow> jsval list \<Rightarrow> jsval \<Rightarrow> bool" where
  "next_receipt_ok N pub rs r =
     (isPlainRecord r \<and> receipt_valid N r pub \<and> is_ok (receiptHash N r)
      \<and> getp r ''sequence'' = JInt (int (length rs))
      \<and> getp r ''previous_receipt_hash'' = JStr (if rs = [] then GENESIS else safeReceiptHash N (last rs))
      \<and> getp r ''receipt_log_root'' = JStr (ms_root N (ms_of (map (safeReceiptHash N) rs))))"

lemma canonicalize_ordered:
  "is_ok (canonicalizeValue (ordered_fields fs v)) \<longleftrightarrow>
     (\<forall>f \<in> set fs. getp v f \<noteq> JUndef \<longrightarrow> is_ok (canonicalizeValue (getp v f)))"
  unfolding ordered_fields_def canonicalize_JObj_ok by auto

lemma signed_receipt_encodes:
  assumes "plain_obj b" "is_ok (canonicalize (orderReceiptFields (spread2 b [(''receipt_id'', i)])))" "is_ok (canonicalize sg)"
  shows "is_ok (canonicalize (signed_receipt b i sg))"
proof -
  let ?u = "spread2 b [(''receipt_id'', i)]" and ?s = "\<lambda>u. spread2 (orderReceiptFields u) [(''signature'', sg)]"
  have "getp (?s ?u) f = (if f = ''signature'' then sg else if f \<in> set receipt_fields then getp ?u f else JUndef)" for f
    by (simp add: getp_spread2 obj_get_Cons)
  then show ?thesis
    using assms(2,3) unfolding canonicalize_def signed_receipt_def orderReceiptFields_def canonicalize_ordered by simp
qed

lemma createReceipt_encodes:
  assumes "createReceipt N a m = Inr r" and "opts = normalizeCreateReceiptArgs a m"
    and "nullish (pick opts [''receipt_id'', ''receiptId''])" and "nullish (getp opts ''signature'')"
  shows "is_ok (canonicalize r)"
proof -
  obtain b i s where b: "receipt_body N opts (coal (getp opts ''event'') opts) = Inr b"
    and sign: "sign_bytes N (orderReceiptFields (spread2 b [(''receipt_id'', JStr i)])) (getp opts ''privateKey'') = Inr s"
    and r: "r = signed_receipt b (JStr i) (JObj [(''alg'', JStr ED25519), (''value'', JStr s)])"
    using createReceipt_Inr [OF assms] by auto
  have "plain_obj b" using receipt_body_ok [OF b] by (simp add: body_ok_def)
  moreover from sign have "is_ok (canonicalize (orderReceiptFields (spread2 b [(''receipt_id'', JStr i)])))"
    by (auto simp: sign_bytes_def res_simps bytesForSigning_def orderReceiptFields_def ordered_fields_def is_ok_iff
        split: if_splits)
  ultimately show ?thesis unfolding r by (rule signed_receipt_encodes) (simp add: canonicalize_def)
qed

lemma hashReceipt_safe: "is_ok (receiptHash (vn_node V) r) \<Longrightarrow> hashReceipt V r = Inr (safeReceiptHash (vn_node V) r)"
  by (auto simp: hashReceipt_def safeReceiptHash_def is_ok_iff)

lemma receiptHash_ok: "is_ok (canonicalize r) \<Longrightarrow> is_ok (receiptHash N r)"
  by (auto simp: receiptHash_def is_ok_iff)

lemma safeReceiptHash_prefixed: "\<exists>h. safeReceiptHash N r = SHA256_PREFIX @ h"
  by (auto simp: safeReceiptHash_def receiptHash_def canonicalize_def split: sum.split dest!: ebind_Inr_iff [THEN iffD1])

lemma log_root_of_hashes:
  assumes "\<forall>q \<in> set rs. is_ok (receiptHash (vn_node V) q)"
  shows "computeReceiptLogRootFrom V rs = Inr (ms_root (vn_node V) (ms_of (map (safeReceiptHash (vn_node V)) rs)))"
proof -
  have "mapE (hashReceipt V) rs = mapE (\<lambda>q. Inr (safeReceiptHash (vn_node V) q)) rs"
    using assms by (intro mapE_cong) (simp_all add: hashReceipt_safe)
  then show ?thesis
    by (simp add: computeReceiptLogRootFrom_def string_set_root_def ZERO_ROOT_def ms_of_def)
qed

lemma next_entry_receipt:
  assumes "next_entry V fr v fs = Inr (entry, event, r)" and "log_key V pub v"
    and "vt_sequence v = int (length (vt_receipts v))" and "\<forall>q \<in> set (vt_receipts v). is_ok (receiptHash (vn_node V) q)"
  shows "next_receipt_ok (vn_node V) pub (vt_receipts v) r"
proof -
  let ?N = "vn_node V" and ?rs = "vt_receipts v"
  let ?l = "ms_root ?N (ms_of (map (safeReceiptHash ?N) ?rs))"
  let ?p = "if ?rs = [] then GENESIS else safeReceiptHash ?N (last ?rs)"
  have p: "previous_hash V v = Inr ?p" using assms(4) by (simp add: previous_hash_def hashReceipt_safe)
  obtain h a where ev: "event_of V fr v fs = Inr event"
    and br: "buildReceipt V v event h ?p a ?l = Inr r"
    using assms(1) by (auto simp: next_entry_def ebind_Inr_iff Let_def p log_root_of_hashes [OF assms(4)])
  let ?o = "receiptArgs v event h ?p a ?l"
  note seq = event_of_sequence [OF ev]
  obtain c where c: "createReceipt ?N ?o (JObj []) = Inr c" and r: "r = pruneUndefined c"
    using br by (auto simp: buildReceipt_def ebind_Inr_iff split: if_splits)
  have o: "normalizeCreateReceiptArgs ?o (JObj []) = ?o" by (rule receiptArgs_options) (simp add: seq)
  have n: "nullish (pick ?o [''receipt_id'', ''receiptId''])" "nullish (getp ?o ''signature'')"
    by (simp_all add: receiptArgs_get obj_get_Cons)
  have ok: "is_ok (canonicalize c)" by (rule createReceipt_encodes [OF c o [symmetric] n])
  then have r: "r = c" using r by (simp add: canonicalize_prune canonicalize_def)
  obtain b i s where b: "receipt_body ?N ?o (coal (getp ?o ''event'') ?o) = Inr b"
    and i: "receipt_id_of ?N b = Inr i" and s: "s \<noteq> []"
    and sign: "sign_bytes ?N (orderReceiptFields (spread2 b [(''receipt_id'', JStr i)])) (getp ?o ''privateKey'') = Inr s"
    and c': "c = signed_receipt b (JStr i) (JObj [(''alg'', JStr ED25519), (''value'', JStr s)])"
    using createReceipt_Inr [OF c o [symmetric] n] by auto
  have priv: "getp ?o ''privateKey'' = getp (vt_signingKeyPair v) ''privateKey''"
    using assms(2) by (simp add: receiptArgs_get obj_get_Cons prune_key_value log_key_def)
  have "getp (getp b ''signer'') ''alg'' = JStr ED25519"
    using receipt_body_signer [OF b] assms(2) by (auto simp: obj_get_Cons log_key_def receiptArgs_get)
  moreover have "verify_bytes ?N (orderReceiptFields (spread2 b [(''receipt_id'', JStr i)]))
      (JObj [(''alg'', JStr ED25519), (''value'', JStr s)]) pub"
    using assms(2) by (intro verify_sign_bytes [OF _ _ sign]) (simp_all add: log_key_def priv isPlainRecord_def obj_get_Cons)
  ultimately have "receipt_valid ?N c pub"
    unfolding c' using assms(2) by (intro signed_receipt_valid receipt_body_ok [OF b] i s) (simp_all add: log_key_def)
  moreover have plain: "plain_obj b" using receipt_body_ok [OF b] by (simp add: body_ok_def)
  obtain p' l' where links: "getp b ''sequence'' = coal (getp ?o ''sequence'') (getp (coal (getp ?o ''event'') ?o) ''sequence'')"
    "normalizePreviousHash (coals ?o [''previous_receipt_hash'', ''previousReceiptHash'']
        (if js_eq (getp b ''sequence'') (JInt 0) then JStr GENESIS else JUndef)) = Inr p'"
    "getp b ''previous_receipt_hash'' = JStr p'"
    "normalizeSha256Root (coals ?o [''receipt_log_root'', ''receiptLogRoot''] (JStr (EMPTY_MERKLE_ROOT ?N))) ''receipt_log_root'' = Inr l'"
    "getp b ''receipt_log_root'' = JStr l'"
    using receipt_body_Inr [OF b] by blast
  have "getp b ''sequence'' = JInt (int (length ?rs))"
    by (simp add: links(1) receiptArgs_get obj_get_Cons seq assms(3))
  moreover have "p' = ?p"
    using links(2) safeReceiptHash_prefixed [of ?N] by (intro normalize_previous_prefixed) (simp_all add: receiptArgs_get obj_get_Cons)
  moreover have "l' = ?l"
  proof -
    obtain h where "?l = SHA256_PREFIX @ h" using ms_root_prefixed by blast
    with links(4) show ?thesis by (simp add: receiptArgs_get obj_get_Cons normalize_prefixed)
  qed
  ultimately show ?thesis
    using links ok plain unfolding r next_receipt_ok_def
    by (simp add: receiptHash_ok c' isPlainRecord_signed getp_signed_receipt)
qed

section \<open>The invariant\<close>

definition log_ok :: "vnode \<Rightarrow> jsval \<Rightarrow> vault \<Rightarrow> bool" where
  "log_ok V pub v = (log_key V pub v \<and> vt_sequence v = int (length (vt_receipts v))
     \<and> (\<forall>i < length (vt_receipts v). next_receipt_ok (vn_node V) pub (take i (vt_receipts v)) (vt_receipts v ! i)))"

lemma log_ok_append:
  assumes "log_ok V pub v" and "next_entry V fr v fs = Inr ent"
  shows "log_ok V pub ((store_entry ent v)\<lparr>vt_roots := \<rho>\<rparr>)"
proof -
  obtain entry event r where ent: "ent = (entry, event, r)" by (cases ent)
  have "\<forall>q \<in> set (vt_receipts v). is_ok (receiptHash (vn_node V) q)"
    using assms(1) by (auto simp: log_ok_def next_receipt_ok_def in_set_conv_nth)
  with assms have "next_receipt_ok (vn_node V) pub (vt_receipts v) r"
    by (auto simp: log_ok_def ent intro: next_entry_receipt)
  with assms(1) show ?thesis
    by (auto simp: log_ok_def log_key_def ent nth_append less_Suc_eq)
qed

lemma log_ok_keeps: "keeps (log_ok V pub) (appendEvent V fr fs)"
  by (rule keeps_appendEvent) (rule log_ok_append)

lemma log_ok_stable: "log_stable (log_ok V pub)"
  by (simp add: log_stable_def log_ok_def log_key_def)

lemma log_ok_steps: "steps V v w \<Longrightarrow> log_ok V pub v \<Longrightarrow> log_ok V pub w"
  by (rule steps_keeps [OF _ _ log_ok_stable log_ok_keeps])

lemma createVault_fields:
  assumes "createVault V fr args = Inr v"
  shows "vt_receipts v = []" "vt_sequence v = 0" "vt_active v = []" "vt_tombstones v = []" "vt_memories v = []"
    "vt_events v = []" "vt_signer v = coals args [''signer''] (signerFor fr (vt_signingKeyPair v))"
  using assms by (auto simp: createVault_def ebind_Inr_iff emap_Inr_iff Let_def)

lemma log_ok_created:
  assumes "createVault V fr args = Inr v" and "nullish (getp args ''signer'')"
    and "key_value (getp (vt_signingKeyPair v) ''privateKey'')"
    and "key_pair_ok (vn_node V) (getp (vt_signingKeyPair v) ''privateKey'') pub" and "pub \<noteq> JUndef"
  shows "log_ok V pub v"
  using assms(2-5) createVault_fields [OF assms(1)]
  by (simp add: log_ok_def log_key_def signerFor_def coal_def obj_get_Cons ED25519_def)

definition log_options :: "jsval \<Rightarrow> jsval" where
  "log_options pub = JObj [(''publicKey'', pub), (''verifyEmbeddedReceiptLogRoot'', JBool True)]"

lemma log_ok_verifies:
  assumes "log_ok V pub v"
  shows "\<exists>res. verifyReceiptChain (vn_node V) (JArr (vt_receipts v)) (log_options pub) = Inr res \<and> getp res ''ok'' = JBool True"
proof -
  let ?N = "vn_node V" and ?rs = "vt_receipts v" and ?o = "log_options pub"
  have pub: "pub \<noteq> JUndef" using assms by (simp add: log_ok_def log_key_def)
  have o: "plain_key_options ?o pub"
    using pub by (simp add: plain_key_options_def log_options_def hasOwn_def keys_of_def obj_get_Cons)
  have r: "next_receipt_ok ?N pub (take i ?rs) (?rs ! i)" if "i < length ?rs" for i
    using assms that by (simp add: log_ok_def)
  have el: "element (?rs ! i) = ?rs ! i" if "i < length ?rs" for i
    using r [OF that] by (simp add: next_receipt_ok_def element_record)
  have start: "chain_start ?o = JInt 0" by (simp add: chain_start_def log_options_def obj_get_Cons)
  have prev: "chain_previous ?o = JStr GENESIS"
    by (simp add: chain_previous_def start js_eq_def num_eq_def) (simp add: log_options_def obj_get_Cons)
  have at: "getp (?rs ! i) ''previous_receipt_hash'' = prev_at ?N (JStr GENESIS) ?rs i" if "i < length ?rs" for i
    using r [OF that] that el [of "i - 1"] by (cases i) (auto simp: next_receipt_ok_def prev_at_def take_Suc_conv_app_nth)
  have loop: "fst (chain_loop ?N ?o (JInt 0) 0 (JStr GENESIS) ?rs) = []"
    unfolding chain_loop_errors_Nil step_errors_Nil verifyReceipt_with_key [OF o]
    using r el at by (auto simp: next_receipt_ok_def sequence_at_def js_add_zero js_eq_def num_eq_def prev_at_def)
  let ?hs = "map (\<lambda>x. safeReceiptHash ?N (element x)) ?rs"
  have hs: "?hs = map (safeReceiptHash ?N) ?rs" using el by (intro nth_equalityI) simp_all
  have "embedded_loop ?N 0 ms_empty ?rs ?hs = []"
    using r el by (simp add: embedded_loop_Nil hs) (simp add: next_receipt_ok_def ms_of_def take_map)
  moreover obtain root where root: "chain_active_root ?N ?rs = Inr root"
  proof (cases "?rs = []")
    case False
    then have "element (last ?rs) = last ?rs" "isPlainRecord (last ?rs)"
      using el [of "length ?rs - 1"] r [of "length ?rs - 1"] by (simp_all add: last_conv_nth next_receipt_ok_def)
    moreover from this have "\<not> nullish (last ?rs)" by (auto simp: nullish_iff isPlainRecord_def)
    ultimately show thesis using False that by (simp add: chain_active_root_def getE_def)
  qed (use that in \<open>simp add: chain_active_root_def\<close>)
  ultimately show ?thesis
    by (simp add: verifyReceiptChain_def Let_def start prev case_prod_unfold loop chain_loop_hashes sequence_guard_def)
      (simp add: log_options_def obj_get_Cons expect_root_def embedded_errors_def expected_hash_errors_def getp_verificationResult)
qed

text \<open>
  C1. The receipts of a vault always form a valid chain.  Take a vault made by \<open>createVault\<close> with a
  working Ed25519 key pair and the default signer, and run any sequence of operations on it, with any
  arguments, failing or not: its sequence counter is the number of its receipts, and
  \<open>verifyReceiptChain\<close> returns and accepts the receipts under the public key of the vault, embedded log
  roots included.
\<close>

theorem vault_log_verifies:
  assumes "createVault V fr args = Inr v" and "nullish (getp args ''signer'')"
    and "key_value (getp (vt_signingKeyPair v) ''privateKey'')"
    and "key_pair_ok (vn_node V) (getp (vt_signingKeyPair v) ''privateKey'') pub" and "pub \<noteq> JUndef"
    and "steps V v w"
  shows "vt_sequence w = int (length (vt_receipts w))
    \<and> (\<exists>res. verifyReceiptChain (vn_node V) (JArr (vt_receipts w)) (log_options pub) = Inr res
             \<and> getp res ''ok'' = JBool True)"
  using log_ok_steps [OF assms(6) log_ok_created [OF assms(1-5)]] log_ok_verifies by (auto simp: log_ok_def)

theorem vault_log_verifies_witness:
  "\<exists>res. verifyReceiptChain (vn_node vsample)
      (JArr (vt_receipts (snd (remember vsample sample_fresh (JObj [(''content'', JStr ''hi'')]) vault0)))) (log_options (JStr ''p''))
    = Inr res \<and> getp res ''ok'' = JBool True"
proof -
  have "steps vsample vault0 (snd (remember vsample sample_fresh (JObj [(''content'', JStr ''hi'')]) vault0))"
    using steps_op [OF steps_refl, of vsample "Remember sample_fresh (JObj [(''content'', JStr ''hi'')])"]
    by (metis prod.collapse run_op.simps(1))
  with vault_log_verifies [OF vault0_created, of "JStr ''p''"] key_pair_ok_vsample show ?thesis
    by (auto simp: vault0_def obj_get_Cons)
qed

end
