(* ===== verification/VaultLifecycle.thy ===== *)
theory VaultLifecycle
  imports VaultLog
begin

text \<open>
  What the operations of a vault do to its memories, its active set and its tombstones, also when the
  final log entry fails: the code changes them before it appends the receipt.
\<close>

section \<open>States left behind\<close>

text \<open>The tail of every operation: append the entry, then project the record that is returned.\<close>

definition append_then :: "vnode \<Rightarrow> fresh \<Rightarrow> jsval \<Rightarrow> 'a res \<Rightarrow> (jsval \<Rightarrow> jsval \<Rightarrow> 'a \<Rightarrow> jsval) \<Rightarrow> jsval vm" where
  "append_then V fr fs q g = sbind (appendEvent V fr fs) (\<lambda>(event, receipt). sbind (slift q) (\<lambda>p. sret (g event receipt p)))"

lemma append_then_state: "snd (append_then V fr fs q g v) = snd (appendEvent V fr fs v)"
  unfolding append_then_def
  by (cases "appendEvent V fr fs v"; cases "fst (appendEvent V fr fs v)"; cases q)
    (auto simp: sbind_def split: prod.split sum.split)

lemma append_then_ok: "append_then V fr fs q g v = (Inr res, w) \<Longrightarrow> \<exists>e. appendEvent V fr fs v = (Inr e, w)"
  by (auto simp: append_then_def sbind_Inr_iff split: prod.splits)

lemma append_then_unit:
  "sbind (appendEvent V fr fs) (\<lambda>(event, receipt). sret (g event receipt)) = append_then V fr fs (Inr ()) (\<lambda>e r _. g e r)"
  unfolding append_then_def by (simp add: sbind_def [abs_def] slift_def [abs_def] case_prod_unfold)

lemma appendEvent_keys: "vt_vaultKey (snd (appendEvent V fr fs v)) = vt_vaultKey v"
  by (cases rule: appendEvent_state [of V fr v fs]) simp_all

lemma remember_run:
  assumes "\<not> nullish (content_of args)" and "vn_iso V (getp args ''now'') = Inr at"
    and "memoryAddress V v (coals args [''subject_id'', ''subjectId''] (vt_subject_id v))
      (coals args [''memory_id'', ''memoryId''] (JStr (''mem_'' @ fr_uuid fr)))
      (sha_root (vn_node V) (js_String (content_of args))) = Inr a"
    and "\<not> jm_has (vt_tombstones v) (JStr a)" and "metadata (vn_node V) (getp args ''metadata'') = Inr meta"
  shows "\<exists>fs q g r. remember V fr args v = append_then V fr fs (q :: jsval res) g
      (v\<lparr>vt_memories := jm_set (JStr a) \<lparr>mr_obj = r, mr_plaintext = None\<rparr> (vt_memories v), vt_active := set_add (JStr a) (vt_active v)\<rparr>)
    \<and> getp fs ''operation'' = JStr ''create'' \<and> getp fs ''memory_addr'' = JStr a \<and> getp fs ''source_addr'' = JUndef
    \<and> getp r ''content_ciphertext'' = encryptContent V fr v a (js_String (content_of args))
    \<and> getp r ''state'' = JStr ''active''"
proof -
  obtain mid where mid: "coals args [''memory_id'', ''memoryId''] (JStr (''mem_'' @ fr_uuid fr)) = mid" by blast
  obtain sid where sid: "coals args [''subject_id'', ''subjectId''] (vt_subject_id v) = sid" by blast
  obtain h where h: "sha_root (vn_node V) (js_String (content_of args)) = h" by blast
  have addr: "memoryAddress V v sid mid h = Inr a" using assms(3) unfolding mid sid h .
  let ?r = "record_of V fr v args mid sid at h a meta"
  have "getp ?r ''content_ciphertext'' = pruneUndefined (encryptContent V fr v a (js_String (content_of args)))"
    "getp ?r ''state'' = pruneUndefined (JStr ''active'')"
    unfolding record_of_def by (subst obj_get_prune; simp add: obj_get_Cons)+
  moreover have "pruneUndefined (encryptContent V fr v a p) = encryptContent V fr v a p" for p
    by (simp add: encryptContent_def Let_def split: prod.split)
  moreover have "\<exists>fs q g. remember V fr args v = append_then V fr fs (q :: jsval res) g
      (v\<lparr>vt_memories := jm_set (JStr a) \<lparr>mr_obj = ?r, mr_plaintext = None\<rparr> (vt_memories v), vt_active := set_add (JStr a) (vt_active v)\<rparr>)
    \<and> getp fs ''operation'' = JStr ''create'' \<and> getp fs ''memory_addr'' = JStr a \<and> getp fs ''source_addr'' = JUndef"
    unfolding remember_def Let_def mid append_then_def
    by (simp only: assms(1,2,4,5) addr sid h sbind_run if_False)
      (rule exI, rule exI, rule exI, rule conjI, rule refl, simp add: obj_get_Cons actor_policy_now_def)
  ultimately show ?thesis by auto
qed

text \<open>
  C36. What \<open>remember\<close> stores can be read back: after it the new address is active and the record kept under it decrypts
  to the given content, provided the cipher decrypts what it encrypts.
\<close>

theorem remember_stores:
  assumes "aead_ok V" and "\<not> nullish (content_of args)" and "vn_iso V (getp args ''now'') = Inr at"
    and "memoryAddress V v (coals args [''subject_id'', ''subjectId''] (vt_subject_id v))
      (coals args [''memory_id'', ''memoryId''] (JStr (''mem_'' @ fr_uuid fr)))
      (sha_root (vn_node V) (js_String (content_of args))) = Inr a"
    and "\<not> jm_has (vt_tombstones v) (JStr a)" and "metadata (vn_node V) (getp args ''metadata'') = Inr meta"
    and "w = snd (remember V fr args v)"
  shows "JStr a \<in> set (vt_active w) \<and> (\<exists>m m'. jm_get (vt_memories w) (JStr a) = Some m
     \<and> getp (mr_obj m) ''state'' = JStr ''active''
     \<and> decryptContent V w m = Inr (js_String (content_of args), m'))"
proof -
  let ?p = "js_String (content_of args)"
  obtain fs q g r where run: "remember V fr args v = append_then V fr fs (q :: jsval res) g
      (v\<lparr>vt_memories := jm_set (JStr a) \<lparr>mr_obj = r, mr_plaintext = None\<rparr> (vt_memories v), vt_active := set_add (JStr a) (vt_active v)\<rparr>)"
    and r: "getp r ''content_ciphertext'' = encryptContent V fr v a ?p" "getp r ''state'' = JStr ''active''"
    using remember_run [OF assms(2-6)] by blast
  have w: "w = snd (appendEvent V fr fs
      (v\<lparr>vt_memories := jm_set (JStr a) \<lparr>mr_obj = r, mr_plaintext = None\<rparr> (vt_memories v), vt_active := set_add (JStr a) (vt_active v)\<rparr>))"
    by (simp add: assms(7) run append_then_state)
  obtain ct t where e: "vn_encrypt V (vt_vaultKey v) (fr_iv fr) a ?p = (ct, t)" by (cases "vn_encrypt V (vt_vaultKey v) (fr_iv fr) a ?p")
  have "vn_decrypt V (vt_vaultKey v) (nd_b64dec (vn_node V) ''base64'' (vn_b64 V (fr_iv fr))) a
         (nd_b64dec (vn_node V) ''base64'' (vn_b64 V ct)) (nd_b64dec (vn_node V) ''base64'' (vn_b64 V t)) = Inr ?p"
    using assms(1) [unfolded aead_ok_def, rule_format, of "vt_vaultKey v" "fr_iv fr" a ?p] e by simp
  moreover have "vt_vaultKey w = vt_vaultKey v" by (simp add: w appendEvent_keys)
  ultimately have "decryptContent V w \<lparr>mr_obj = r, mr_plaintext = None\<rparr> = Inr (?p, \<lparr>mr_obj = r, mr_plaintext = Some ?p\<rparr>)"
    by (simp add: decryptContent_def r encryptContent_def e getE_def obj_get_Cons base64_bytes_def text_bytes_def)
  then show ?thesis using r by (simp add: w appendEvent_frame jm_get_set)
qed

theorem remember_stores_witness:
  "JStr addr0 \<in> set (vt_active (snd (remember vsample sample_fresh (JObj [(''content'', JStr ''hi'')]) vault0)))"
  using remember_stores [OF aead_ok_vsample _ _ memoryAddress_vsample, of "JObj [(''content'', JStr ''hi'')]" _ vault0 sample_fresh]
  by (auto simp: content_of_def obj_get_Cons vault0_def sample_fresh_def jm_has_def metadata_def)

section \<open>Updates\<close>

text \<open>The address an update will give to the new content.\<close>

definition update_address :: "vnode \<Rightarrow> vault \<Rightarrow> memory \<Rightarrow> jsval \<Rightarrow> string res" where
  "update_address V v m args = memoryAddress V v (getp (mr_obj m) ''subject_id'') (getp (mr_obj m) ''memory_id'')
     (sha_root (vn_node V) (js_String (content_of args)))"

lemma updateMemory_run:
  assumes "truthy old" and "pick args [''memory_addr'', ''memoryAddr''] = old" and "\<not> nullish (content_of args)"
    and "\<not> jm_has (vt_tombstones v) old" and "old \<in> set (vt_active v)" and "jm_get (vt_memories v) old = Some m"
    and "vn_iso V (getp args ''now'') = Inr at" and "update_address V v m args = Inr new"
    and "publicRecord V (set_fields [(''state'', JStr ''superseded''), (''updated_at'', JStr at)] m) = Inr public"
  shows "\<exists>fs q g r t. updateMemory V fr args v = append_then V fr fs (q :: jsval res) g
     (v\<lparr>vt_memories := jm_set (JStr new) r (jm_set old (set_fields [(''state'', JStr ''superseded''), (''updated_at'', JStr at)] m)
          (jm_set old (set_fields [(''state'', JStr ''superseded'')] m) (vt_memories v))),
        vt_active := set_add (JStr new) (set_remove old (vt_active v)),
        vt_tombstones := jm_set old t (vt_tombstones v)\<rparr>)
    \<and> getp fs ''operation'' = JStr ''update'' \<and> getp fs ''memory_addr'' = JStr new \<and> getp fs ''source_addr'' = old"
  unfolding updateMemory_def Let_def assms(2) append_then_def
  by (simp add: assms(1,3-7,9) assms(8) [unfolded update_address_def] sbind_run del: sbind_simps coals.simps ex_simps)
    (rule exI, rule exI, rule exI, rule exI, rule exI, rule conjI, rule refl, simp add: obj_get_Cons actor_policy_now_def)

lemma updateMemory_states:
  assumes "pick args [''memory_addr'', ''memoryAddr''] = old" and "w = snd (updateMemory V fr args v)"
  obtains (unchanged) ms where "w = v\<lparr>vt_memories := ms\<rparr>" "\<And>a. jm_has (vt_memories v) a \<Longrightarrow> jm_has ms a"
  | (removed) ms where "w = v\<lparr>vt_memories := ms, vt_active := set_remove old (vt_active v)\<rparr>" "\<And>a. jm_has (vt_memories v) a \<Longrightarrow> jm_has ms a"
  | (updated) m new t where "jm_get (vt_memories v) old = Some m" "old \<in> set (vt_active v)" "update_address V v m args = Inr new"
      "vt_active w = set_add (JStr new) (set_remove old (vt_active v))" "vt_tombstones w = jm_set old t (vt_tombstones v)"
      "jm_has (vt_memories w) (JStr new)" "\<And>a. jm_has (vt_memories v) a \<Longrightarrow> jm_has (vt_memories w) a"
proof -
  let ?g = "truthy old \<and> \<not> nullish (content_of args) \<and> \<not> jm_has (vt_tombstones v) old \<and> old \<in> set (vt_active v)"
  show thesis
  proof (cases "?g \<and> jm_get (vt_memories v) old \<noteq> None")
    case False
    then have "w = v\<lparr>vt_memories := vt_memories v\<rparr>" unfolding assms(2) updateMemory_def Let_def assms(1)
      by (auto simp: sbind_run sthrow_def simp del: sbind_simps)
    then show thesis by (rule unchanged)
  next
    case True
    then obtain m where m: "jm_get (vt_memories v) old = Some m" and g: ?g by auto
    let ?m1 = "\<lambda>at. set_fields [(''state'', JStr ''superseded''), (''updated_at'', JStr at)] m"
    show thesis
    proof (cases "vn_iso V (getp args ''now'')")
      case (Inl e)
      then have "w = v\<lparr>vt_memories := jm_set old (set_fields [(''state'', JStr ''superseded'')] m) (vt_memories v)\<rparr>"
        unfolding assms(2) updateMemory_def Let_def assms(1)
        using g by (simp add: m sbind_run del: sbind_simps coals.simps ex_simps)
      then show thesis by (rule unchanged) (simp add: jm_has_set)
    next
      case iso: (Inr at)
      have rest: "w = v\<lparr>vt_memories := jm_set old (?m1 at) (jm_set old (set_fields [(''state'', JStr ''superseded'')] m) (vt_memories v)),
          vt_active := set_remove old (vt_active v)\<rparr>" if "is_ok (update_address V v m args) \<longrightarrow> \<not> is_ok (publicRecord V (?m1 at))"
        unfolding assms(2) updateMemory_def Let_def assms(1)
        using g that by (cases "update_address V v m args"; cases "publicRecord V (?m1 at)")
          (simp_all add: m iso update_address_def sbind_run del: sbind_simps coals.simps ex_simps)
      show thesis
      proof (cases "is_ok (update_address V v m args) \<longrightarrow> \<not> is_ok (publicRecord V (?m1 at))")
        case True
        show thesis by (rule removed [OF rest [OF True]]) (simp add: jm_has_set)
      next
        case False
        then obtain new public where n: "update_address V v m args = Inr new" "publicRecord V (?m1 at) = Inr public"
          by (auto simp: is_ok_iff)
        from updateMemory_run [OF _ assms(1) _ _ _ m iso n] g obtain fs q h r t where
          run: "updateMemory V fr args v = append_then V fr fs (q :: jsval res) h
             (v\<lparr>vt_memories := jm_set (JStr new) r (jm_set old (?m1 at)
                  (jm_set old (set_fields [(''state'', JStr ''superseded'')] m) (vt_memories v))),
                vt_active := set_add (JStr new) (set_remove old (vt_active v)),
                vt_tombstones := jm_set old t (vt_tombstones v)\<rparr>)" by blast
        then show thesis
          using g by (intro updated [OF m _ n(1)]) (simp_all add: assms(2) run append_then_state appendEvent_frame jm_has_set)
      qed
    qed
  qed
qed

text \<open>
  C37. An update whose new address is the old one (the same content again) or an address that was retired
  before (an earlier content again) leaves that address active and tombstoned at once: the updated
  memory can be recalled no more.
\<close>

theorem update_to_retired_address:
  assumes "truthy old" and "pick args [''memory_addr'', ''memoryAddr''] = old" and "\<not> nullish (content_of args)"
    and "\<not> jm_has (vt_tombstones v) old" and "old \<in> set (vt_active v)" and "jm_get (vt_memories v) old = Some m"
    and "vn_iso V (getp args ''now'') = Inr at" and "update_address V v m args = Inr new" and "new \<noteq> []"
    and "publicRecord V (set_fields [(''state'', JStr ''superseded''), (''updated_at'', JStr at)] m) = Inr public"
    and "JStr new = old \<or> jm_has (vt_tombstones v) (JStr new)" and "w = snd (updateMemory V fr args v)"
  shows "JStr new \<in> set (vt_active w) \<and> jm_has (vt_tombstones w) (JStr new)
    \<and> recall V fr' (JObj [(''memory_addr'', JStr new)]) w = (Inl (Error (''memory is tombstoned: '' @ new)), w)"
proof -
  from updateMemory_run [OF assms(1-8,10), of fr] obtain fs q g r t where
    "updateMemory V fr args v = append_then V fr fs (q :: jsval res) g
     (v\<lparr>vt_memories := jm_set (JStr new) r (jm_set old (set_fields [(''state'', JStr ''superseded''), (''updated_at'', JStr at)] m)
          (jm_set old (set_fields [(''state'', JStr ''superseded'')] m) (vt_memories v))),
        vt_active := set_add (JStr new) (set_remove old (vt_active v)),
        vt_tombstones := jm_set old t (vt_tombstones v)\<rparr>)" by blast
  then have "JStr new \<in> set (vt_active w)" "jm_has (vt_tombstones w) (JStr new)"
    using assms(11,12) by (auto simp: append_then_state appendEvent_frame jm_has_set)
  with assms(9) recall_tombstoned [of w "JStr new"] show ?thesis by simp
qed

definition memory1 :: memory where
  "memory1 = \<lparr>mr_obj = JObj [(''subject_id'', JStr ''s''), (''memory_id'', JStr ''m'')], mr_plaintext = Some ''hi''\<rparr>"

definition vault1 :: vault where
  "vault1 = vault0\<lparr>vt_memories := [(JStr addr0, memory1)], vt_active := [JStr addr0]\<rparr>"

theorem update_to_retired_address_witness:
  "recall vsample sample_fresh (JObj [(''memory_addr'', JStr addr0)])
      (snd (updateMemory vsample sample_fresh (JObj [(''memory_addr'', JStr addr0), (''content'', JStr ''hi'')]) vault1))
    = (Inl (Error (''memory is tombstoned: '' @ addr0)),
       snd (updateMemory vsample sample_fresh (JObj [(''memory_addr'', JStr addr0), (''content'', JStr ''hi'')]) vault1))"
proof -
  let ?args = "JObj [(''memory_addr'', JStr addr0), (''content'', JStr ''hi'')]"
  have "update_address vsample vault1 memory1 ?args = Inr addr0"
    unfolding update_address_def by (rule memoryAddress_vsample) (simp_all add: memory1_def obj_get_Cons)
  moreover have "\<exists>p. publicRecord vsample (set_fields [(''state'', JStr ''superseded''), (''updated_at'', JStr ''2026-01-01'')] memory1) = Inr p"
    by (simp add: publicRecord_def set_fields_def memory1_def obj_puts_def obj_put_def has_key_def is_array_index_def
        public_field_def isPlaintextLikeKey_def emap_def ch_digit_def ch_range_def)
  ultimately show ?thesis
    using update_to_retired_address [of "JStr addr0" ?args vault1 memory1 vsample "''2026-01-01''" addr0]
    by (auto simp: addr0_def vault1_def vault0_def jm_has_def jm_get_def content_of_def obj_get_Cons)
qed

section \<open>Active and tombstoned addresses\<close>

definition lifecycle_ok :: "vault \<Rightarrow> bool" where
  "lifecycle_ok v = (distinct (vt_active v) \<and>
     (\<forall>a \<in> set (vt_active v). \<not> jm_has (vt_tombstones v) a \<and> jm_has (vt_memories v) a))"

text \<open>An update is fresh when it yields an address that is neither the old one nor retired.\<close>

fun fresh_op :: "vnode \<Rightarrow> vault \<Rightarrow> vault_op \<Rightarrow> bool" where
  "fresh_op V v (Update fr args) =
     (case jm_get (vt_memories v) (pick args [''memory_addr'', ''memoryAddr'']) of
        None \<Rightarrow> True
      | Some m \<Rightarrow> (case update_address V v m args of
                     Inl _ \<Rightarrow> True
                   | Inr new \<Rightarrow> JStr new \<noteq> pick args [''memory_addr'', ''memoryAddr'']
                               \<and> \<not> jm_has (vt_tombstones v) (JStr new)))"
| "fresh_op V v _ = True"

lemma lifecycle_ok_append: "keeps lifecycle_ok (appendEvent V fr fs)"
  by (rule keeps_appendEvent) (simp add: lifecycle_ok_def)

lemma lifecycle_ok_update:
  assumes "lifecycle_ok v" and "fresh_op V v (Update fr args)"
  shows "lifecycle_ok (snd (updateMemory V fr args v))"
  using assms
  by (cases rule: updateMemory_states [OF refl refl, of V fr args v])
    (auto simp: lifecycle_ok_def jm_has_set)

lemma remember_states:
  obtains (same) "snd (remember V fr args v) = v"
  | (stored) a fs m where "\<not> jm_has (vt_tombstones v) (JStr a)" "snd (remember V fr args v) = snd (appendEvent V fr fs
      (v\<lparr>vt_memories := jm_set (JStr a) m (vt_memories v), vt_active := set_add (JStr a) (vt_active v)\<rparr>))"
proof -
  let ?adr = "memoryAddress V v (coals args [''subject_id'', ''subjectId''] (vt_subject_id v))
      (coals args [''memory_id'', ''memoryId''] (JStr (''mem_'' @ fr_uuid fr))) (sha_root (vn_node V) (js_String (content_of args)))"
  show thesis
  proof (cases "\<not> nullish (content_of args) \<and> is_ok (vn_iso V (getp args ''now'')) \<and> is_ok ?adr
      \<and> (\<forall>a. ?adr = Inr a \<longrightarrow> \<not> jm_has (vt_tombstones v) (JStr a)) \<and> is_ok (metadata (vn_node V) (getp args ''metadata''))")
    case True
    then obtain at a meta where "vn_iso V (getp args ''now'') = Inr at" "?adr = Inr a" "\<not> jm_has (vt_tombstones v) (JStr a)"
      "metadata (vn_node V) (getp args ''metadata'') = Inr meta" by (auto simp: is_ok_iff simp del: coals.simps)
    with True remember_run [of args V at v fr a meta] show thesis by (metis append_then_state stored)
  next
    case False
    have "snd (remember V fr args v) = v" unfolding remember_def Let_def
      using False by (cases "nullish (content_of args)"; cases "vn_iso V (getp args ''now'')"; cases ?adr;
          cases "metadata (vn_node V) (getp args ''metadata'')")
        (simp_all only: sbind_run sthrow_def if_True if_False is_ok_simps simp_thms sum.inject snd_conv sm_simps split: if_splits)
    then show thesis by (rule same)
  qed
qed

lemma lifecycle_ok_remember:
  assumes "lifecycle_ok v" shows "lifecycle_ok (snd (remember V fr args v))"
proof (cases rule: remember_states [of V fr args v])
  case (stored a fs m)
  then show ?thesis using assms by (auto simp: lifecycle_ok_def appendEvent_frame jm_has_set)
qed (use assms in simp)

lemma lifecycle_ok_recall:
  assumes "lifecycle_ok v" shows "lifecycle_ok (snd (recall V fr args v))"
proof -
  have "keeps lifecycle_ok (recall V fr args)" unfolding recall_def Let_def
    by (intro keeps_if keeps_sthrow keeps_sbind keeps_sget keeps_slift keeps_sret keeps_smodify keeps_prod keeps_option
        lifecycle_ok_append) (auto simp: lifecycle_ok_def jm_has_set)
  from keepsD [OF this assms] show ?thesis .
qed

lemma deleteMemory_run:
  assumes "truthy a" and "pick args [''memory_addr'', ''memoryAddr''] = a" and "\<not> jm_has (vt_tombstones v) a" and "a \<in> set (vt_active v)"
    and "vn_iso V (getp args ''now'') = Inr at"
  shows "\<exists>fs q g ms t. deleteMemory V fr args v = append_then V fr fs (q :: unit res) g
     (v\<lparr>vt_memories := ms, vt_active := set_remove a (vt_active v), vt_tombstones := jm_set a t (vt_tombstones v)\<rparr>)
    \<and> getp fs ''operation'' = JStr ''delete'' \<and> getp fs ''memory_addr'' = a \<and> getp fs ''source_addr'' = JUndef
    \<and> (\<forall>x. jm_has (vt_memories v) x \<longrightarrow> jm_has ms x)"
proof (cases "jm_get (vt_memories v) a")
  case None
  show ?thesis unfolding deleteMemory_def Let_def assms(2) append_then_unit
    by (simp add: assms None sbind_run del: sbind_simps coals.simps ex_simps)
      (rule exI, rule exI, rule exI, rule exI [of _ "vt_memories v"], rule exI, rule conjI, simp, simp add: obj_get_Cons actor_policy_now_def)
next
  case (Some m)
  show ?thesis unfolding deleteMemory_def Let_def assms(2) append_then_unit
    by (simp add: assms Some sbind_run sbind_assoc del: sbind_simps coals.simps ex_simps)
      (rule exI, rule exI, rule exI, rule exI, rule exI, rule conjI, rule refl, simp add: obj_get_Cons actor_policy_now_def jm_has_set)
qed

lemma deleteMemory_states:
  assumes "pick args [''memory_addr'', ''memoryAddr''] = a" and "w = snd (deleteMemory V fr args v)"
  obtains (unchanged) ms where "w = v\<lparr>vt_memories := ms\<rparr>" "\<And>x. jm_has (vt_memories v) x \<Longrightarrow> jm_has ms x"
  | (removed) ms where "w = v\<lparr>vt_memories := ms, vt_active := set_remove a (vt_active v)\<rparr>" "\<And>x. jm_has (vt_memories v) x \<Longrightarrow> jm_has ms x"
  | (deleted) t where "vt_active w = set_remove a (vt_active v)" "vt_tombstones w = jm_set a t (vt_tombstones v)"
      "\<And>x. jm_has (vt_memories v) x \<Longrightarrow> jm_has (vt_memories w) x"
proof -
  let ?g = "truthy a \<and> \<not> jm_has (vt_tombstones v) a \<and> a \<in> set (vt_active v)"
  show thesis
  proof (cases ?g)
    case False
    then have "w = v\<lparr>vt_memories := vt_memories v\<rparr>" unfolding assms(2) deleteMemory_def Let_def assms(1)
      by (auto simp: sbind_run sthrow_def simp del: sbind_simps)
    then show thesis by (rule unchanged)
  next
    case g: True
    note run = assms(2) [unfolded deleteMemory_def Let_def assms(1)]
    show thesis
    proof (cases "vn_iso V (getp args ''now'')")
      case (Inl e)
      show thesis
      proof (cases "jm_get (vt_memories v) a")
        case None
        then have "w = v\<lparr>vt_memories := vt_memories v, vt_active := set_remove a (vt_active v)\<rparr>"
          using g run by (simp add: Inl sbind_run del: sbind_simps coals.simps ex_simps)
        then show thesis by (rule removed)
      next
        case (Some m)
        then have "w = v\<lparr>vt_memories := jm_set a (set_fields [(''state'', JStr ''tombstoned'')] m) (vt_memories v)\<rparr>"
          using g run by (simp add: Inl sbind_def del: coals.simps)
        then show thesis by (rule unchanged) (simp add: jm_has_set)
      qed
    next
      case (Inr at)
      from deleteMemory_run [OF _ assms(1) _ _ Inr] g obtain fs q h ms t where
        run: "deleteMemory V fr args v = append_then V fr fs (q :: unit res) h (v\<lparr>vt_memories := ms, vt_active := set_remove a (vt_active v),
          vt_tombstones := jm_set a t (vt_tombstones v)\<rparr>)" and "\<forall>x. jm_has (vt_memories v) x \<longrightarrow> jm_has ms x" by blast
      then show thesis by (intro deleted) (auto simp: assms(2) append_then_state appendEvent_frame)
    qed
  qed
qed

lemma lifecycle_ok_delete:
  assumes "lifecycle_ok v" shows "lifecycle_ok (snd (deleteMemory V fr args v))"
  using assms
  by (cases rule: deleteMemory_states [OF refl refl, of V fr args v]) (auto simp: lifecycle_ok_def jm_has_set)

text \<open>
  C35. The lifecycle invariant: in a vault whose active addresses are pairwise distinct, have a record and
  are not tombstoned, every operation keeps this so, failing or not, when an update yields a fresh
  address; a new vault has it.
\<close>

theorem lifecycle_invariant:
  assumes "lifecycle_ok v \<or> createVault V fr args = Inr v" and "fresh_op V v op"
  shows "lifecycle_ok (snd (run_op V op v))"
proof -
  have "lifecycle_ok v" using assms(1) by (auto simp: lifecycle_ok_def createVault_fields)
  with assms(2) show ?thesis
    by (cases op) (auto simp: lifecycle_ok_remember lifecycle_ok_recall lifecycle_ok_delete intro!: lifecycle_ok_update)
qed

theorem lifecycle_invariant_witness:
  "lifecycle_ok (snd (run_op vsample (Delete sample_fresh (JObj [(''memory_addr'', JStr addr0)])) vault1))"
proof -
  have "lifecycle_ok vault1" by (simp add: lifecycle_ok_def vault1_def vault0_def jm_has_def)
  then show ?thesis by (intro lifecycle_invariant [of vault1 vsample sample_fresh "JObj []"]) simp_all
qed

end
