(* ===== verification/VaultBundle.thy ===== *)
theory VaultBundle
  imports VaultLifecycle
begin

text \<open>
  Projections and bundles of \<open>packages/vault\<close>: the public summaries and the public receipt log, the
  keyring, \<open>exportBundle\<close>, and \<open>importBundle\<close> with the lifecycle it derives from receipts.
\<close>

section \<open>Public projections\<close>

definition signerRef :: "jsval \<Rightarrow> jsval" where
  "signerRef signer =
     (if \<not> isObject signer then JUndef
      else pruneUndefined (JObj [(''key_id'', pick signer [''key_id'', ''keyId'']), (''alg'', getp signer ''alg''),
             (''publicKey'', getp signer ''publicKey'')]))"

definition signatureRef :: "jsval \<Rightarrow> jsval" where
  "signatureRef signature =
     (if \<not> isObject signature then JUndef
      else pruneUndefined (JObj [(''alg'', getp signature ''alg''), (''value'', getp signature ''value'')]))"

definition projectLifecycleReceipt :: "vnode \<Rightarrow> jsval \<Rightarrow> jsval res" where
  "projectLifecycleReceipt V receipt =
     (if \<not> isObject receipt then Inr JUndef
      else emap (\<lambda>hash. pruneUndefined (JObj
        [(''schema'', JStr ''enigma.lifecycle_receipt_projection.v1''), (''receipt_id'', getp receipt ''receipt_id''),
         (''receipt_hash'', JStr hash), (''event_hash'', getp receipt ''event_hash''),
         (''operation'', getp receipt ''operation''), (''tenant_id'', getp receipt ''tenant_id''),
         (''subject_id'', getp receipt ''subject_id''), (''memory_addr'', getp receipt ''memory_addr''),
         (''source_addr'', getp receipt ''source_addr''), (''policy_id'', getp receipt ''policy_id''),
         (''sequence'', getp receipt ''sequence''), (''previous_receipt_hash'', getp receipt ''previous_receipt_hash''),
         (''active_set_root'', getp receipt ''active_set_root''), (''receipt_log_root'', getp receipt ''receipt_log_root''),
         (''timestamp'', getp receipt ''timestamp''), (''signer'', signerRef (getp receipt ''signer'')),
         (''signature'', signatureRef (getp receipt ''signature''))])) (hashReceipt V receipt))"

definition lifecycleStateForReceipt :: "jsval \<Rightarrow> string" where
  "lifecycleStateForReceipt receipt =
     (if getp receipt ''operation'' = JStr ''delete'' then ''tombstone''
      else if getp receipt ''operation'' = JStr ''quarantine'' then ''quarantine''
      else ''active'')"

definition projectLifecycleReceiptRef :: "vnode \<Rightarrow> jsval \<Rightarrow> jsval res" where
  "projectLifecycleReceiptRef V receipt =
     (if \<not> isObject receipt then Inr JUndef
      else emap (\<lambda>receiptHash. pruneUndefined (JObj
        [(''sequence'', getp receipt ''sequence''), (''receipt_ref'', coals receipt [''receipt_id''] (JStr receiptHash)),
         (''receipt_hash'', JStr receiptHash), (''previous_receipt_hash'', getp receipt ''previous_receipt_hash''),
         (''lifecycle_state'', JStr (lifecycleStateForReceipt receipt))])) (hashReceipt V receipt))"

definition refHash :: "vnode \<Rightarrow> jsval \<Rightarrow> string res" where
  "refHash V value =
     (if value = JUndef then Inl (TypeError ''The data argument must be of type string'')
      else emap (sha_root (vn_node V)) (canonical value))"

definition lifecycleLogId :: "vnode \<Rightarrow> vault \<Rightarrow> roots \<Rightarrow> jsval \<Rightarrow> string res" where
  "lifecycleLogId V v r issuedAt =
     emap (\<lambda>c. ''log_'' @ take 32 (sha256Str (vn_node V) c))
       (canonical (JObj [(''schema'', JStr ''enigma.lifecycle_receipt_log.id.v1''), (''vault_id'', vt_vault_id v),
          (''receipt_log_root'', JStr (rt_receipt_log r)), (''lifecycle_root'', JStr (rt_lifecycle r)),
          (''issued_at'', issuedAt)]))"

definition buildLifecycleRootSummary :: "vnode \<Rightarrow> vault \<Rightarrow> jsval res" where
  "buildLifecycleRootSummary V v =
     ebind (lifecycleRoots V v) (\<lambda>r.
     ebind (tombstoneRootItems V v) (\<lambda>tombstones.
     Inr (pruneUndefined (JObj
       [(''schema'', JStr ''enigma.lifecycle_root_summary.v1''), (''vault_id'', vt_vault_id v),
        (''tenant_id'', vt_tenant_id v), (''subject_id'', vt_subject_id v), (''policy_id'', vt_policy_id v),
        (''sequence'', JInt (vt_sequence v)),
        (''active_count'', JInt (int (length (sortedStrings (vt_active v))))),
        (''quarantine_count'', JInt (int (length (quarantineAddresses v)))),
        (''tombstone_count'', JInt (int (length tombstones))), (''receipt_count'', JInt (int (length (vt_receipts v)))),
        (''active_set_root'', JStr (rt_active r)), (''quarantine_set_root'', JStr (rt_quarantine r)),
        (''tombstone_set_root'', JStr (rt_tombstone r)), (''active_root'', JStr (rt_active r)),
        (''quarantine_root'', JStr (rt_quarantine r)), (''tombstone_root'', JStr (rt_tombstone r)),
        (''receipt_log_root'', JStr (rt_receipt_log r)), (''lifecycle_root'', JStr (rt_lifecycle r)),
        (''updated_at'', vt_updated_at v), (''signer'', signerRef (vt_signer v))]))))"

definition last_receipt :: "vault \<Rightarrow> jsval" where
  "last_receipt v = (if vt_receipts v = [] then JUndef else last (vt_receipts v))"

definition buildMemoryBoundaryTransactionSummary :: "vnode \<Rightarrow> vault \<Rightarrow> jsval \<Rightarrow> jsval res" where
  "buildMemoryBoundaryTransactionSummary V v args =
     ebind (projectLifecycleReceipt V (coals args [''receipt'', ''transaction''] (last_receipt v))) (\<lambda>projection.
     if \<not> truthy projection then Inl (Error ''buildMemoryBoundaryTransactionSummary requires at least one receipt'')
     else
     ebind (buildLifecycleRootSummary V v) (\<lambda>summary.
     Inr (pruneUndefined (JObj
       [(''schema'', JStr ''enigma.memory_boundary_transaction_summary.v1''), (''vault_id'', vt_vault_id v),
        (''tenant_id'', vt_tenant_id v), (''subject_id'', vt_subject_id v),
        (''operation'', getp projection ''operation''), (''sequence'', getp projection ''sequence''),
        (''timestamp'', getp projection ''timestamp''), (''memory_addr'', getp projection ''memory_addr''),
        (''source_addr'', getp projection ''source_addr''), (''policy_id'', getp projection ''policy_id''),
        (''event_hash'', getp projection ''event_hash''), (''receipt_hash'', getp projection ''receipt_hash''),
        (''previous_receipt_hash'', getp projection ''previous_receipt_hash''),
        (''active_set_root'', getp projection ''active_set_root''),
        (''receipt_log_root'', getp projection ''receipt_log_root''),
        (''lifecycle_root'', getp summary ''lifecycle_root''), (''signer'', getp projection ''signer''),
        (''signature'', getp projection ''signature''), (''public_safe'', JBool True)]))))"

definition buildPublicLifecycleReceiptLog :: "vnode \<Rightarrow> vault \<Rightarrow> jsval \<Rightarrow> jsval res" where
  "buildPublicLifecycleReceiptLog V v args =
     ebind (mapE (projectLifecycleReceiptRef V) (vt_receipts v)) (\<lambda>refs.
     let receiptRefs = filter truthy refs
     in if receiptRefs = [] then Inl (Error ''buildPublicLifecycleReceiptLog requires at least one receipt'')
        else
        ebind (buildLifecycleRootSummary V v) (\<lambda>_.
        ebind (lifecycleRoots V v) (\<lambda>r.
        ebind (if truthy (getp args ''now'') then emap JStr (vn_iso V (getp args ''now'')) else Inr (vt_updated_at v)) (\<lambda>issuedAt.
        ebind (lifecycleLogId V v r issuedAt) (\<lambda>logId.
        ebind (refHash V (JObj [(''schema'', JStr ''enigma.lifecycle_receipt_log.ref.v1''), (''log_id'', JStr logId),
                 (''receipt_log_root'', JStr (rt_receipt_log r))])) (\<lambda>log_ref.
        ebind (refHash V (JObj [(''schema'', JStr ''enigma.subject_ref.v1''), (''subject_id'', vt_subject_id v)])) (\<lambda>subject_ref.
        ebind (refHash V (JObj [(''schema'', JStr ''enigma.tenant_ref.v1''), (''tenant_id'', vt_tenant_id v)])) (\<lambda>tenant_ref.
        ebind (refHash V (coal (signerRef (vt_signer v)) (JObj [(''key_id'', coals (vt_signer v) [''key_id''] JNull)]))) (\<lambda>signer_ref.
        ebind (if truthy (getp (last_receipt v) ''signature'')
               then emap JStr (refHash V (signatureRef (getp (last_receipt v) ''signature''))) else Inr JUndef) (\<lambda>signature_ref.
        Inr (pruneUndefined (JObj
          [(''schema'', JStr ''enigma.lifecycle_receipt_log.v1''), (''log_id'', JStr logId), (''log_ref'', JStr log_ref),
           (''subject_ref'', JStr subject_ref), (''tenant_ref'', JStr tenant_ref), (''epoch'', JInt (vt_sequence v)),
           (''previous_log_root'', coals (last_receipt v) [''receipt_log_root''] (JStr (ZERO_ROOT V))),
           (''receipt_refs'', JArr receiptRefs), (''active_root'', JStr (rt_active r)),
           (''quarantine_root'', JStr (rt_quarantine r)), (''tombstone_root'', JStr (rt_tombstone r)),
           (''receipt_log_root'', JStr (rt_receipt_log r)), (''issued_at'', issuedAt), (''signer_ref'', JStr signer_ref),
           (''signature_ref'', signature_ref)]))))))))))))"

section \<open>Keyring\<close>

definition exported_key :: "vnode \<Rightarrow> string \<Rightarrow> jsval \<Rightarrow> jsval" where
  "exported_key V format key =
     (case key of
        JStr s \<Rightarrow> JStr s
      | JInst c ps \<Rightarrow> vn_exportKey V format key
      | _ \<Rightarrow> JUndef)"

definition exportPublicKey :: "vnode \<Rightarrow> jsval \<Rightarrow> jsval" where
  "exportPublicKey V pair = exported_key V ''spki'' (getp pair ''publicKey'')"

definition exportPrivateKey :: "vnode \<Rightarrow> jsval \<Rightarrow> jsval" where
  "exportPrivateKey V pair = exported_key V ''pkcs8'' (getp pair ''privateKey'')"

definition ENCRYPTED_KEYRING_WARNING :: string where
  "ENCRYPTED_KEYRING_WARNING = ''Keyring is encrypted with AES-256-GCM; passphrase required on import.''"

definition PLAINTEXT_KEYRING_WARNING :: string where
  "PLAINTEXT_KEYRING_WARNING = ''WARNING: This bundle stores vault keys in plaintext. Anyone with file access can decrypt memory contents. Use --passphrase to encrypt the keyring.''"

definition DEPRECATION_PLAINTEXT_KEYRING :: string where
  "DEPRECATION_PLAINTEXT_KEYRING = ''Plaintext keyrings are deprecated; use --passphrase to encrypt new bundles.''"

text \<open>
  No additional data is authenticated here, unlike in \<open>encryptContent\<close>.  The keyring that is printed has
  string fields, and a missing private key is left out by \<open>JSON.stringify\<close>.
\<close>

definition encryptKeyring :: "vnode \<Rightarrow> fresh \<Rightarrow> jsval \<Rightarrow> string \<Rightarrow> jsval" where
  "encryptKeyring V fr plaintextKeyring kek =
     (let (ciphertext, tag) = vn_encrypt V kek (fr_iv fr) [] (json_stringify (pruneUndefined plaintextKeyring))
      in JObj [(''iv'', JStr (vn_b64 V (fr_iv fr))), (''tag'', JStr (vn_b64 V tag)), (''ciphertext'', JStr (vn_b64 V ciphertext))])"

definition decryptKeyring :: "vnode \<Rightarrow> jsval \<Rightarrow> jsval \<Rightarrow> jsval res" where
  "decryptKeyring V keyring passphrase =
     (if getp keyring ''type'' \<noteq> JStr KEYRING_ENCRYPTED_TYPE then Inl (Error ''Keyring is not encrypted'')
      else if \<not> has_passphrase passphrase then Inl (Error ''Encrypted keyring requires passphrase'')
      else
       ebind (deriveKeysFromPassphrase V passphrase (getp keyring ''salt'')) (\<lambda>d.
       ebind (base64_bytes V (getp keyring ''iv'')) (\<lambda>iv.
       ebind (base64_bytes V (getp keyring ''tag'')) (\<lambda>tag.
       ebind (base64_bytes V (getp keyring ''ciphertext'')) (\<lambda>ciphertext.
       ebind (vn_decrypt V (dk_kek d) iv [] ciphertext tag) (vn_json V))))))"

definition buildKeyring :: "vnode \<Rightarrow> fresh \<Rightarrow> vault \<Rightarrow> jsval \<Rightarrow> jsval res" where
  "buildKeyring V fr v passphrase =
     (let b64 = (\<lambda>key. JStr (vn_b64 V key));
          pub = exportPublicKey V (vt_signingKeyPair v);
          priv = exportPrivateKey V (vt_signingKeyPair v)
      in if has_passphrase passphrase then
           emap (\<lambda>d.
             let encrypted = encryptKeyring V fr (JObj [(''vault_key_b64'', b64 (vt_vaultKey v)),
                   (''address_key_b64'', b64 (vt_addressKey v)), (''privateKey'', priv)]) (dk_kek d)
             in JObj [(''type'', JStr KEYRING_ENCRYPTED_TYPE), (''warning'', JStr ENCRYPTED_KEYRING_WARNING),
                  (''salt'', JStr (fr_salt fr)), (''iv'', getp encrypted ''iv''), (''tag'', getp encrypted ''tag''),
                  (''ciphertext'', getp encrypted ''ciphertext''), (''signer'', vt_signer v), (''publicKey'', pub)])
             (deriveKeysFromPassphrase V passphrase (JStr (fr_salt fr)))
         else Inr (JObj [(''type'', JStr KEYRING_PLAINTEXT_TYPE), (''unencrypted'', JBool True),
                (''warning'', JStr PLAINTEXT_KEYRING_WARNING), (''vault_key_b64'', b64 (vt_vaultKey v)),
                (''address_key_b64'', b64 (vt_addressKey v)), (''signer'', vt_signer v), (''publicKey'', pub),
                (''privateKey'', priv)]))"

section \<open>Export\<close>

text \<open>\<open>a.memory_addr.localeCompare\<close> needs strings; a single tombstone is not compared.\<close>

definition sorted_tombstones :: "vnode \<Rightarrow> jsval list \<Rightarrow> jsval list res" where
  "sorted_tombstones V ts =
     (if length ts \<le> 1 \<or> list_all (\<lambda>t. isString (getp t ''memory_addr'')) ts
      then Inr (sort_key (\<lambda>t. vn_collate V (js_String (getp t ''memory_addr''))) ts)
      else Inl (TypeError ''a.memory_addr.localeCompare is not a function''))"

definition bundle_of :: "vnode \<Rightarrow> vault \<Rightarrow> roots \<Rightarrow> string \<Rightarrow> jsval \<Rightarrow> jsval list \<Rightarrow> jsval list \<Rightarrow> jsval \<Rightarrow> jsval" where
  "bundle_of V v r exportedAt keyring records tombstones exportReceipt = JObj
     [(''schema'', JStr ''enigma.vault_bundle.v1''), (''exported_at'', JStr exportedAt),
      (''vault'', JObj
        [(''schema'', JStr VAULT_SCHEMA), (''vault_id'', vt_vault_id v), (''tenant_id'', vt_tenant_id v),
         (''subject_id'', vt_subject_id v), (''actor_id'', vt_actor_id v), (''policy_id'', vt_policy_id v),
         (''created_at'', vt_created_at v), (''updated_at'', vt_updated_at v), (''encryption'', JStr ''local_aead''),
         (''key_id'', vt_key_id v), (''active_set_root'', JStr (rt_active r)),
         (''receipt_log_root'', JStr (rt_receipt_log r)), (''sequence'', JInt (vt_sequence v))]),
      (''keyring'', keyring), (''memory_objects'', JArr records),
      (''active_memory_addresses'', JArr (sort_key js_String (vt_active v))), (''tombstones'', JArr tombstones),
      (''events'', JArr (vt_events v)), (''receipts'', JArr (vt_receipts v)), (''export_receipt'', exportReceipt)]"

definition exportBundle :: "vnode \<Rightarrow> fresh \<Rightarrow> jsval \<Rightarrow> jsval vm" where
  "exportBundle V fr args =
     sbind sget (\<lambda>v0.
     sbind (appendEvent V fr (JObj
       ([(''operation'', JStr ''export''),
         (''metadata'', JObj [(''memory_count'', JInt (int (length (vt_memories v0)))),
            (''active_count'', JInt (int (length (vt_active v0)))),
            (''tombstone_count'', JInt (int (length (vt_tombstones v0))))])] @ actor_policy_now args))) (\<lambda>(event, exportReceipt).
     sbind sget (\<lambda>v.
     slift (
       ebind (lifecycleRoots V v) (\<lambda>r.
       ebind (vn_iso V (getp args ''now'')) (\<lambda>exportedAt.
       ebind (buildKeyring V fr v (getp args ''passphrase'')) (\<lambda>keyring.
       ebind (mapE (publicRecord V) (map snd (vt_memories v))) (\<lambda>records.
       ebind (sorted_tombstones V (map snd (vt_tombstones v))) (\<lambda>tombstones.
       let bundle = bundle_of V v r exportedAt keyring records tombstones exportReceipt
       in emap (\<lambda>_. bundle) (canonical bundle))))))))))"

section \<open>The lifecycle derived from receipts\<close>

type_synonym lifecycle = "jsval list \<times> (jsval, jsval) jmap"

definition receiptEvent :: "jsval \<Rightarrow> jsval" where
  "receiptEvent receipt =
     (if \<not> isObject receipt then JUndef
      else if isObject (getp receipt ''event'') then getp receipt ''event'' else receipt)"

definition derived_update_tombstone :: "jsval \<Rightarrow> jsval" where
  "derived_update_tombstone event = JObj
     [(''schema'', JStr ''enigma.deletion_tombstone.v1''), (''memory_addr'', getp event ''source_addr''),
      (''operation'', JStr ''update''), (''successor_addr'', getp event ''memory_addr''),
      (''tombstoned_at'', getp event ''timestamp''), (''reason'', JStr ''updated'')]"

definition derived_delete_tombstone :: "jsval \<Rightarrow> jsval" where
  "derived_delete_tombstone event = JObj
     [(''schema'', JStr ''enigma.deletion_tombstone.v1''), (''memory_addr'', getp event ''memory_addr''),
      (''operation'', JStr ''delete''), (''tombstoned_at'', getp event ''timestamp''), (''reason'', JStr ''deleted'')]"

definition apply_event :: "jsval \<Rightarrow> lifecycle \<Rightarrow> lifecycle" where
  "apply_event event = (\<lambda>(active, tombstones).
     (let addr = getp event ''memory_addr''; source = getp event ''source_addr''
      in if \<not> truthy addr then (active, tombstones)
         else if getp event ''operation'' = JStr ''create'' then (set_add addr active, jm_delete addr tombstones)
         else if getp event ''operation'' = JStr ''update'' then
           (let (active1, tombstones1) =
              (if truthy source then (set_remove source active, jm_set source (derived_update_tombstone event) tombstones)
               else (active, tombstones))
            in (set_add addr active1, jm_delete addr tombstones1))
         else if getp event ''operation'' = JStr ''delete'' then
           (set_remove addr active, jm_set addr (derived_delete_tombstone event) tombstones)
         else (active, tombstones)))"

definition derive_step :: "vnode \<Rightarrow> lifecycle \<Rightarrow> jsval \<Rightarrow> lifecycle res" where
  "derive_step V s receipt =
     (let event = receiptEvent receipt
      in if \<not> truthy event then Inr s
         else
          (let (active, tombstones) = apply_event event s
           in case getp receipt ''active_set_root'' of
                JStr root \<Rightarrow> ebind (computeSetRoot V active) (\<lambda>r.
                  if root \<noteq> r then Inl (Error ''importBundle receipt active_set_root mismatch'') else Inr (active, tombstones))
              | _ \<Rightarrow> Inr (active, tombstones)))"

definition deriveReceiptLifecycle :: "vnode \<Rightarrow> jsval list \<Rightarrow> lifecycle res" where
  "deriveReceiptLifecycle V receipts = foldE (derive_step V) ([], []) receipts"

section \<open>Import\<close>

definition asSha256_value :: "vnode \<Rightarrow> jsval \<Rightarrow> string res" where
  "asSha256_value V value = ecatch (prefixedSha256 (vn_node V) value) (Inl (TypeError ''The data argument must be of type string''))"

definition sanitizeImportedEventEntry :: "vnode \<Rightarrow> jsval \<Rightarrow> jsval res" where
  "sanitizeImportedEventEntry V entry =
     (if \<not> isObject entry then Inr JUndef
      else
       ebind (sanitizePublicValue (vn_node V) (coals entry [''event''] (JObj []))) (\<lambda>event.
       ebind (case getp entry ''hash'' of
                JStr h \<Rightarrow> if rx_full SOURCE_REF_ROOT_RE h then Inr h else asSha256_value V event
              | _ \<Rightarrow> asSha256_value V event) (\<lambda>hash.
       emap (\<lambda>c. JObj [(''event'', event), (''canonical'', JStr c), (''hash'', JStr hash)]) (canonical event))))"

definition sameStringSet :: "jsval list \<Rightarrow> jsval list \<Rightarrow> bool" where
  "sameStringSet left right = (sortedStrings left = sortedStrings right)"

definition importedTombstonesByAddress :: "vnode \<Rightarrow> jsval \<Rightarrow> (jsval, jsval) jmap res" where
  "importedTombstonesByAddress V tombstones =
     foldE (\<lambda>out t.
        if truthy (getp t ''memory_addr'')
        then emap (\<lambda>s. jm_set (getp t ''memory_addr'') (spread2 s []) out) (sanitizePublicValue (vn_node V) t)
        else Inr out) [] (map element (elems tombstones))"

text \<open>The tombstones derived from receipts, completed by the imported ones.\<close>

definition merge_tombstone :: "(jsval, jsval) jmap \<Rightarrow> jsval \<times> jsval \<Rightarrow> (jsval \<times> jsval) res" where
  "merge_tombstone imported = (\<lambda>(addr, t).
     (let i = (case jm_get imported addr of Some i \<Rightarrow> i | None \<Rightarrow> JUndef)
      in if truthy (getp i ''operation'') \<and> \<not> js_eq (getp i ''operation'') (getp t ''operation'')
         then Inl (Error ''importBundle tombstone operation does not match receipt-derived state'')
         else Inr (addr, spread2 (spread2 t (props_of i)) [(''memory_addr'', addr), (''operation'', getp t ''operation'')])))"

definition reconcile_record :: "lifecycle \<Rightarrow> jsval \<times> memory \<Rightarrow> (jsval \<times> memory) res" where
  "reconcile_record derived = (\<lambda>(addr, m).
     if addr \<in> set (fst derived) then Inr (addr, set_fields [(''state'', JStr ''active'')] m)
     else case jm_get (snd derived) addr of
            Some t \<Rightarrow> Inr (addr, set_fields [(''state'',
              JStr (if getp t ''operation'' = JStr ''update'' then ''superseded'' else ''tombstoned''))] m)
          | None \<Rightarrow> if getp (mr_obj m) ''state'' = JStr ''active''
                    then Inl (Error ''importBundle memory object active state is not receipt-derived'') else Inr (addr, m))"

definition reconcileImportedLifecycle ::
  "vnode \<Rightarrow> jsval \<Rightarrow> (jsval, memory) jmap \<Rightarrow> jsval list \<Rightarrow> (lifecycle \<times> (jsval, memory) jmap) res" where
  "reconcileImportedLifecycle V bundle records receipts =
     ebind (deriveReceiptLifecycle V receipts) (\<lambda>(active, tombstones).
     let declaredActive = set_of (map (\<lambda>a. JStr (js_String a)) (map element (elems (getp bundle ''active_memory_addresses''))))
     in if \<not> sameStringSet declaredActive active
        then Inl (Error ''importBundle active_memory_addresses do not match receipt-derived state'')
        else
        ebind (let root = getp (getp bundle ''vault'') ''active_set_root''
               in if truthy root then ebind (computeSetRoot V active) (\<lambda>r.
                    if \<not> js_eq root (JStr r) then Inl (Error ''importBundle vault active_set_root does not match receipt-derived state'')
                    else Inr ()) else Inr ()) (\<lambda>_.
        ebind (importedTombstonesByAddress V (getp bundle ''tombstones'')) (\<lambda>imported.
        if \<not> sameStringSet (jm_keys imported) (jm_keys tombstones)
        then Inl (Error ''importBundle tombstones do not match receipt-derived state'')
        else
        ebind (mapE (merge_tombstone imported) tombstones) (\<lambda>merged.
        emap (\<lambda>rs. ((active, merged), rs)) (mapE (reconcile_record (active, merged)) records)))))"

definition import_receipt :: "vnode \<Rightarrow> jsval \<Rightarrow> jsval res" where
  "import_receipt V receipt =
     ebind (sanitizePublicValue (vn_node V) receipt) (\<lambda>public.
     ebind (getE receipt ''signer'') (\<lambda>signer.
     ebind (if truthy signer then emap (\<lambda>s. spread2 s []) (sanitizePublicValue (vn_node V) signer) else Inr signer) (\<lambda>signer'.
     ebind (if truthy (getp receipt ''signature'')
            then emap (\<lambda>s. spread2 s []) (sanitizePublicValue (vn_node V) (getp receipt ''signature''))
            else Inr (getp receipt ''signature'')) (\<lambda>signature'.
     Inr (spread2 public [(''signer'', signer'), (''signature'', signature')])))))"

text \<open>\<open>for (const x of v ?? [])\<close>.\<close>

definition iterate_or_empty :: "jsval \<Rightarrow> jsval list res" where
  "iterate_or_empty v =
     (case v of
        JArr xs \<Rightarrow> Inr (map element xs)
      | JStr s \<Rightarrow> Inr (map (\<lambda>c. JStr [c]) s)
      | JUndef \<Rightarrow> Inr []
      | JNull \<Rightarrow> Inr []
      | _ \<Rightarrow> Inl (TypeError ''object is not iterable''))"

definition import_records :: "vnode \<Rightarrow> jsval \<Rightarrow> (jsval, memory) jmap res" where
  "import_records V objects =
     ebind (iterate_or_empty objects) (foldE (\<lambda>out record.
       ebind (getE record ''memory_addr'') (\<lambda>addr.
       emap (\<lambda>p. jm_set addr \<lparr>mr_obj = p, mr_plaintext = None\<rparr> out)
         (publicRecord V \<lparr>mr_obj = record, mr_plaintext = None\<rparr>))) [])"

text \<open>The keys of the bundle: from an encrypted keyring, or given in the clear, with a warning.\<close>

definition import_keys :: "vnode \<Rightarrow> jsval \<Rightarrow> jsval \<Rightarrow> (jsval \<times> jsval \<times> jsval \<times> string list) res" where
  "import_keys V keyring passphrase =
     (if getp keyring ''type'' = JStr KEYRING_ENCRYPTED_TYPE then
        if \<not> has_passphrase passphrase then Inl (Error ''Encrypted keyring requires passphrase'')
        else ebind (decryptKeyring V keyring passphrase) (\<lambda>d.
             ebind (getE d ''vault_key_b64'') (\<lambda>vaultKey.
             Inr (vaultKey, getp d ''address_key_b64'', getp d ''privateKey'', [])))
      else Inr (getp keyring ''vault_key_b64'', getp keyring ''address_key_b64'', getp keyring ''privateKey'',
             push_if (getp keyring ''type'' = JStr KEYRING_PLAINTEXT_TYPE) DEPRECATION_PLAINTEXT_KEYRING))"

definition restored_pair :: "jsval \<Rightarrow> jsval \<Rightarrow> jsval" where
  "restored_pair keyring privateKey =
     (if truthy privateKey
      then JObj [(''key_id'', getp (getp keyring ''signer'') ''key_id''), (''signer'', getp keyring ''signer''),
             (''publicKey'', getp keyring ''publicKey''), (''privateKey'', privateKey)]
      else JUndef)"

definition import_source :: "vnode \<Rightarrow> jsval \<Rightarrow> jsval res" where
  "import_source V args =
     (let source = (if getp args ''schema'' = JStr ''enigma.vault_bundle.v1'' then args
                    else coal (getp (getp args ''bundle'') ''bundle'') (coal (getp args ''bundle'') args))
      in ebind (case source of JStr text \<Rightarrow> vn_json V text | _ \<Rightarrow> Inr source) (\<lambda>bundle.
         if getp bundle ''schema'' \<noteq> JStr ''enigma.vault_bundle.v1''
         then Inl (Error ''importBundle requires an enigma.vault_bundle.v1 bundle'') else Inr bundle))"

definition import_state :: "vnode \<Rightarrow> fresh \<Rightarrow> jsval \<Rightarrow> jsval \<Rightarrow> (vault \<times> string list) res" where
  "import_state V fr args bundle =
     (let keyring = getp bundle ''keyring''; bv = getp bundle ''vault''
      in ebind (import_keys V keyring (getp args ''passphrase'')) (\<lambda>(vaultKey, addressKey, privateKey, warnings).
         ebind (createVault V fr (JObj
           [(''vault_id'', getp bv ''vault_id''), (''tenant_id'', getp bv ''tenant_id''),
            (''subject_id'', getp bv ''subject_id''),
            (''actor_id'', coals args [''actor_id'', ''actorId''] (getp bv ''actor_id'')),
            (''policy_id'', getp bv ''policy_id''), (''vault_key'', vaultKey), (''address_key'', addressKey),
            (''signingKeyPair'', restored_pair keyring privateKey), (''signer'', getp keyring ''signer''),
            (''now'', getp bv ''created_at'')])) (\<lambda>v.
         ebind (emap (filter truthy) (mapE (sanitizeImportedEventEntry V) (map element (elems (getp bundle ''events''))))) (\<lambda>events.
         ebind (mapE (import_receipt V) (map element (elems (getp bundle ''receipts'')))) (\<lambda>receipts.
         ebind (import_records V (getp bundle ''memory_objects'')) (\<lambda>records.
         ebind (reconcileImportedLifecycle V bundle records receipts) (\<lambda>((active, tombstones), records').
         Inr (v\<lparr>vt_created_at := coals bv [''created_at''] (vt_created_at v),
                vt_updated_at := coals bv [''updated_at''] (vt_updated_at v),
                vt_sequence := (case as_int (getp bv ''sequence'') of Some n \<Rightarrow> n | None \<Rightarrow> 0),
                vt_events := events, vt_receipts := receipts, vt_memories := records',
                vt_active := active, vt_tombstones := tombstones\<rparr>, warnings))))))))"

record imported =
  im_vault :: vault
  im_active :: "jsval list"
  im_tombstones :: "jsval list"
  im_warnings :: "string list"

definition importBundle :: "vnode \<Rightarrow> fresh \<Rightarrow> jsval \<Rightarrow> imported res" where
  "importBundle V fr args =
     ebind (import_source V args) (\<lambda>bundle.
     ebind (import_state V fr args bundle) (\<lambda>(v, warnings).
     case sbind (applyLifecycleRoots V) (\<lambda>_. appendEvent V fr (JObj
            ([(''operation'', JStr ''import''),
              (''metadata'', JObj [(''imported_memory_count'', JInt (int (length (vt_memories v)))),
                 (''imported_active_count'', JInt (int (length (vt_active v)))),
                 (''imported_tombstone_count'', JInt (int (length (vt_tombstones v))))])] @ actor_policy_now args))) v of
       (Inl e, w) \<Rightarrow> Inl e
     | (Inr _, w) \<Rightarrow> Inr \<lparr>im_vault = w, im_active = sort_key js_String (vt_active w),
         im_tombstones = map snd (vt_tombstones w), im_warnings = warnings\<rparr>))"

end
