(* ===== verification/SafeText.thy ===== *)
theory SafeText
  imports PublicSafe
begin

text \<open>
  Texts that the public-safe scan accepts: a text that starts like no path, has no white space and
  none of four markers holds no secret, no local path and no forbidden claim.
\<close>

lemma str_includes_iff: "str_includes s t \<longleftrightarrow> (\<exists>u v. s = u @ t @ v)"
proof -
  have "str_includes s t \<longleftrightarrow> (\<exists>i. i \<le> length s \<and> take (length t) (drop i s) = t)"
    by (auto simp: str_includes_def list_ex_iff less_Suc_eq_le simp del: upt_Suc)
  also have "\<dots> \<longleftrightarrow> (\<exists>u v. s = u @ t @ v)"
  proof
    assume "\<exists>i. i \<le> length s \<and> take (length t) (drop i s) = t"
    then obtain i where "take (length t) (drop i s) = t" by blast
    then have "s = take i s @ t @ drop (length t) (drop i s)" by (metis append_take_drop_id)
    then show "\<exists>u v. s = u @ t @ v" by blast
  next
    assume "\<exists>u v. s = u @ t @ v"
    then obtain u v where "s = u @ t @ v" by blast
    then show "\<exists>i. i \<le> length s \<and> take (length t) (drop i s) = t" by (intro exI [of _ "length u"]) simp
  qed
  finally show ?thesis .
qed

lemma str_includes_split:
  assumes "c \<notin> set t"
  shows "str_includes (u @ c # v) t \<longleftrightarrow> str_includes u t \<or> str_includes v t"
proof
  assume "str_includes (u @ c # v) t"
  then obtain a b where ab: "u @ c # v = a @ t @ b" by (auto simp: str_includes_iff)
  show "str_includes u t \<or> str_includes v t"
  proof (cases "length a + length t \<le> length u")
    case True
    from ab have "take (length u) (u @ c # v) = take (length u) (a @ t @ b)" by simp
    with True have "u = a @ t @ take (length u - length a - length t) b" by simp
    then show ?thesis by (auto simp: str_includes_iff)
  next
    case False
    have "(a @ t @ b) ! length u = c" unfolding ab [symmetric] by simp
    with False assms have "length a > length u"
      by (cases "length u < length a") (auto simp: nth_append set_conv_nth split: if_splits)
    from ab have "drop (Suc (length u)) (u @ c # v) = drop (Suc (length u)) (a @ t @ b)" by simp
    with \<open>length a > length u\<close> have "v = drop (Suc (length u)) a @ t @ b" by simp
    then show ?thesis by (auto simp: str_includes_iff)
  qed
next
  assume "str_includes u t \<or> str_includes v t"
  then show "str_includes (u @ c # v) t"
    by (auto simp: str_includes_iff) (metis append.assoc append_Cons)+
qed

lemma str_includes_replicate:
  assumes "c \<notin> set t" "t \<noteq> []"
  shows "str_includes (u @ replicate n c) t \<longleftrightarrow> str_includes u t"
proof (cases n)
  case (Suc m)
  have "\<not> str_includes (replicate m c) t"
  proof
    assume "str_includes (replicate m c) t"
    then obtain a b where "replicate m c = a @ t @ b" by (auto simp: str_includes_iff)
    then have "set t \<subseteq> {c}" by (metis Un_subset_iff order_refl set_append set_replicate_conv_if subset_trans empty_subsetI)
    with assms show False by (auto simp: subset_singleton_iff)
  qed
  with Suc str_includes_split [OF assms(1), of u "replicate m c"] show ?thesis by simp
qed simp

definition marked :: "string \<Rightarrow> bool" where
  "marked s \<longleftrightarrow> list_ex ch_space s \<or> str_includes s ''k_'' \<or> str_includes s ''gh'' \<or> str_includes s ''xox'' \<or> str_includes s ''patent''"

lemma str_includes_middle: "str_includes v t \<Longrightarrow> str_includes (u @ v @ w) t"
  unfolding str_includes_iff by (metis append.assoc)

lemma marked_middle: "marked v \<Longrightarrow> marked (u @ v @ w)"
  using str_includes_middle [of v _ u w] by (auto simp: marked_def)

lemma marked_append: "marked u \<or> marked v \<Longrightarrow> marked (u @ v)"
  using marked_middle [of u "[]" v] marked_middle [of v u "[]"] by auto

text \<open>Expressions all of whose words are marked.\<close>

definition marks :: "rx \<Rightarrow> bool" where
  "marks r \<longleftrightarrow> (\<forall>s \<in> lang r. marked s)"

lemma marks_seqs_hd: "marks r \<Longrightarrow> marks (rx_seqs (r # rs))"
  by (auto simp: marks_def rx_lang conc_def intro: marked_append)

lemma marks_seqs_tl: "marks (rx_seqs rs) \<Longrightarrow> marks (rx_seqs (r # rs))"
  by (auto simp: marks_def rx_lang conc_def intro: marked_append)

lemma marks_alts: "list_all marks rs \<Longrightarrow> marks (rx_alts rs)"
  by (auto simp: marks_def rx_lang list_all_iff)

lemma marks_lit: "marked s \<Longrightarrow> marks (rx_lit s)"
  by (simp add: marks_def rx_lang)

lemma marks_ws: "marks ws_plus"
proof -
  have "lang ws_plus = {s. 1 \<le> length s \<and> list_all ch_space s}"
    by (auto simp: ws_plus_def rx_plus_def in_bounds_def pow_cls)
  moreover have "marked s" if "1 \<le> length s" "list_all ch_space s" for s
    using that by (cases s) (auto simp: marked_def)
  ultimately show ?thesis by (simp add: marks_def)
qed

lemmas marks_intros = marks_ws marks_seqs_hd marks_seqs_tl

lemma marks_claim: "marks FORBIDDEN_PUBLIC_CLAIM_RE"
  unfolding FORBIDDEN_PUBLIC_CLAIM_RE_def
proof (rule marks_alts, simp only: list.pred_inject, intro conjI TrueI)
  have p: "marks (rx_lit ''patent'')" by (rule marks_lit) (simp add: marked_def str_includes_iff, metis append_Nil append_Nil2)
  show "marks (rx_seqs [rx_lit ''patent'', rx_alts [rx_lit ''ability'', rx_lit ''able'']])" by (rule marks_seqs_hd [OF p])
qed (blast intro: marks_intros)+

lemma marks_secret: "marks SECRET_VALUE_RE"
  unfolding SECRET_VALUE_RE_def
proof (rule marks_alts, simp only: list.pred_inject, intro conjI TrueI)
  have k: "marked (a @ ''_'' @ v)" if "a \<in> {''sk'', ''pk'', ''rk''}" for a v
  proof -
    from that have "str_includes (a @ ''_'' @ v) ''k_''" by (auto simp: str_includes_iff) (metis append_Cons append_Nil)+
    then show ?thesis by (simp add: marked_def)
  qed
  show "marks (rx_seqs [rx_alts [rx_lit ''sk'', rx_lit ''pk'', rx_lit ''rk''], rx_lit ''_'',
               rx_alts [rx_lit ''live'', rx_lit ''test'', rx_lit ''proj''], rx_lit ''_'', at_least 12 (lower_alnum_or ''_-'')])"
    using k by (fastforce simp: marks_def rx_lang conc_def)
  show "marks (rx_seqs [rx_lit ''-----begin '', rx_star (RCls (\<lambda>c. ch_lower c \<or> c = CHR '' '')), rx_lit ''private key-----''])"
    by (rule marks_seqs_hd, rule marks_lit) (simp add: marked_def ch_space_def)
  show "marks (rx_seqs [rx_lit ''gh'', rx_cls ''pousr'', rx_lit ''_'', at_least 20 (lower_alnum_or ''_'')])"
    by (rule marks_seqs_hd, rule marks_lit) (simp add: marked_def str_includes_iff, metis append_Nil append_Nil2)
  show "marks (rx_seqs [rx_lit ''xox'', rx_cls ''baprs'', rx_lit ''-'', at_least 20 (lower_alnum_or ''-'')])"
    by (rule marks_seqs_hd, rule marks_lit) (simp add: marked_def str_includes_iff, metis append_Nil append_Nil2)
qed (blast intro: marks_intros)

lemma rx_word_search_infix: "rx_word_search r s \<Longrightarrow> \<exists>u v w. s = u @ v @ w \<and> v \<in> lang r"
proof -
  assume "rx_word_search r s"
  then obtain i j where "rx_full r (take (j - i) (drop i s))" by (auto simp: rx_word_search_def list_ex_iff simp del: upt_Suc)
  moreover have "s = take i s @ take (j - i) (drop i s) @ drop (j - i) (drop i s)" by (metis append_take_drop_id)
  ultimately show ?thesis by (auto simp: rx_full_iff_lang)
qed

definition path_like :: "string \<Rightarrow> bool" where
  "path_like s = (case s of [] \<Rightarrow> False | c # t \<Rightarrow> c = CHR ''/'' \<or> c = CHR 0x5C \<or> (case t of d # _ \<Rightarrow> d = CHR '':'' | [] \<Rightarrow> False))"

lemma local_path_like: "local_path s \<Longrightarrow> path_like s"
  by (auto simp: local_path_def rx_prefix_def rx_full_iff_lang LOCAL_PATH_RE_def rx_lang conc_def path_like_def)

lemma safe_text:
  assumes "\<not> marked (toLowerCase s)" and "\<not> path_like s"
  shows "safe_string False s"
proof -
  have "\<not> secret_value s"
    using assms(1) marks_secret marked_middle by (auto simp: secret_value_def rx_search_iff marks_def)
  moreover have "\<not> forbidden_claim s"
    using assms(1) marks_claim marked_middle by (auto simp: forbidden_claim_def marks_def dest!: rx_word_search_infix)
  ultimately show ?thesis using local_path_like assms(2) by (auto simp: safe_string_def)
qed

section \<open>Evaluation on plain texts\<close>

lemma startsWith_append [simp]: "startsWith (t @ v) t"
  by (simp add: startsWith_def)

lemma startsWith_simps [simp]: "startsWith s []" "startsWith [] (c # t) = False" "startsWith (c # s) (d # t) \<longleftrightarrow> c = d \<and> startsWith s t"
  by (auto simp: startsWith_def)

lemma str_includes_rec:
  "str_includes [] (d # t) = False" "str_includes (c # s) (d # t) \<longleftrightarrow> startsWith (c # s) (d # t) \<or> str_includes s (d # t)"
proof -
  show "str_includes [] (d # t) = False" by (simp add: str_includes_iff)
  show "str_includes (c # s) (d # t) \<longleftrightarrow> startsWith (c # s) (d # t) \<or> str_includes s (d # t)"
  proof
    assume "str_includes (c # s) (d # t)"
    then obtain u v where "c # s = u @ (d # t) @ v" unfolding str_includes_iff by blast
    then show "startsWith (c # s) (d # t) \<or> str_includes s (d # t)"
      by (cases u) (auto simp: startsWith_def str_includes_iff)
  next
    assume "startsWith (c # s) (d # t) \<or> str_includes s (d # t)"
    then show "str_includes (c # s) (d # t)"
    proof
      assume "startsWith (c # s) (d # t)"
      then have "c # s = [] @ (d # t) @ drop (length (d # t)) (c # s)"
        unfolding startsWith_def by (metis append_Nil append_take_drop_id)
      then show ?thesis unfolding str_includes_iff by blast
    next
      assume "str_includes s (d # t)"
      then show ?thesis unfolding str_includes_iff by (metis append_Cons)
    qed
  qed
qed

text \<open>Characters that lower-casing keeps and that are no white space.\<close>

definition plain_char :: "char \<Rightarrow> bool" where
  "plain_char c = (ch_lower c \<or> ch_digit c \<or> c \<in> {CHR '':'', CHR ''_'', CHR ''-'', CHR ''.''})"

lemma plain_char: "plain_char c \<Longrightarrow> lower_char c = c \<and> \<not> ch_space c"
  unfolding plain_char_def
  by (elim disjE) (auto simp: lower_char_def ch_lower_iff ch_digit_iff ch_space_def Let_def)

lemma plain_text:
  assumes "list_all plain_char s"
  shows "marked (toLowerCase s) \<longleftrightarrow> list_ex (str_includes s) [''k_'', ''gh'', ''xox'', ''patent'']"
proof -
  have "map lower_char s = s" "\<not> list_ex ch_space s"
    using assms by (auto simp: list_all_iff list_ex_iff plain_char map_idI)
  then show ?thesis by (simp add: toLowerCase_def marked_def)
qed

lemma safe_plain: "list_all plain_char s \<Longrightarrow> \<not> list_ex (str_includes s) [''k_'', ''gh'', ''xox'', ''patent''] \<Longrightarrow> \<not> path_like s \<Longrightarrow> safe_string False s"
  using plain_text safe_text by blast

lemmas plain_eval = plain_char_def ch_lower_iff ch_digit_iff str_includes_rec path_like_def

end
