(* ===== verification/Sample_Run.thy ===== *)
theory Sample_Run
  imports VaultLifecycle SafeText
begin

text \<open>
  A successful run on the sample vault, for the witnesses: the first \<open>remember\<close> of a new vault returns.
\<close>

section \<open>The marker check, field by field\<close>

lemma str_includes_Nil: "str_includes [] t \<longleftrightarrow> t = []"
  by (simp add: str_includes_iff)

lemma str_includes_short: "length s < length t \<Longrightarrow> \<not> str_includes s t"
  by (auto simp: str_includes_iff)

lemma str_includes_missing: "c \<in> set t \<Longrightarrow> c \<notin> set s \<Longrightarrow> \<not> str_includes s t"
  by (auto simp: str_includes_iff)

lemma str_includes_join:
  assumes "CHR '','' \<notin> set t" "t \<noteq> []"
  shows "str_includes (join '','' xs) t \<longleftrightarrow> (\<exists>x \<in> set xs. str_includes x t)"
  using assms by (induction "'',''" xs rule: join.induct) (auto simp: str_includes_Nil str_includes_split)

lemma lower_join: "toLowerCase (join '','' xs) = join '','' (map toLowerCase xs)"
  by (induction "'',''" xs rule: join.induct) (auto simp: toLowerCase_def lower_char_def)

definition field_text :: "string \<times> jsval \<Rightarrow> string" where
  "field_text p = toLowerCase (json_string (fst p) @ '':'' @ json_stringify (snd p))"

lemma str_includes_object:
  assumes "CHR '','' \<notin> set t" "t \<noteq> []" "CHR ''{'' \<notin> set t" "CHR ''}'' \<notin> set t"
  shows "str_includes (toLowerCase (json_stringify (JObj ps))) t \<longleftrightarrow> (\<exists>p \<in> set ps. str_includes (field_text p) t)"
proof -
  let ?j = "join '','' (map field_text ps)"
  have "toLowerCase (json_stringify (JObj ps)) = [] @ CHR ''{'' # (?j @ CHR ''}'' # [])"
    using lower_join [of "map (\<lambda>(k, v). json_string k @ '':'' @ json_stringify v) ps"]
    by (simp add: toLowerCase_def lower_char_def field_text_def [abs_def] comp_def case_prod_unfold)
  moreover have "str_includes ([] @ CHR ''{'' # (?j @ CHR ''}'' # [])) t \<longleftrightarrow> str_includes ?j t"
    by (simp only: str_includes_split [OF assms(3)] str_includes_split [OF assms(4)] str_includes_Nil) (use assms(2) in simp)
  ultimately show ?thesis using assms by (simp add: str_includes_join)
qed

text \<open>
  A sufficient check of one field: the letter x occurs in two of the markers, and the third ends in a
  quoted \<open>nt\<close>.
\<close>

fun has_nt_quote :: "string \<Rightarrow> bool" where
  "has_nt_quote (a # b # c # s) = (a = CHR ''n'' \<and> b = CHR ''t'' \<and> c = CHR 0x22 \<or> has_nt_quote (b # c # s))"
| "has_nt_quote _ = False"

lemma has_nt_quote_append: "has_nt_quote (u @ CHR ''n'' # CHR ''t'' # CHR 0x22 # v)"
proof (induction u)
  case (Cons a u)
  then show ?case by (cases u; cases "tl u") auto
qed simp

definition clean_field :: "string \<times> jsval \<Rightarrow> bool" where
  "clean_field p = (list_all (\<lambda>c. c \<noteq> CHR ''x'') (field_text p) \<and> \<not> has_nt_quote (field_text p))"

lemma no_marker_object:
  assumes "list_all clean_field ps"
  shows "\<not> containsPlaintextMarker (JObj ps)"
proof -
  have clean: "CHR ''x'' \<notin> set (field_text p) \<and> \<not> has_nt_quote (field_text p)" if "p \<in> set ps" for p
    using assms that by (auto simp: list_all_iff clean_field_def)
  have "str_includes (toLowerCase (json_stringify (JObj ps))) t \<longleftrightarrow> (\<exists>p \<in> set ps. str_includes (field_text p) t)"
    if "t \<in> {''plaintext'', ''content'' @ [CHR 0x22, CHR '':''], ''text'' @ [CHR 0x22, CHR '':'']}" for t
    using that by (intro str_includes_object) auto
  moreover have "\<not> str_includes (field_text p) ''plaintext''" "\<not> str_includes (field_text p) (''text'' @ [CHR 0x22, CHR '':''])"
    "\<not> str_includes (field_text p) (''content'' @ [CHR 0x22, CHR '':''])" if "p \<in> set ps" for p
  proof -
    show "\<not> str_includes (field_text p) ''plaintext''" "\<not> str_includes (field_text p) (''text'' @ [CHR 0x22, CHR '':''])"
      by (rule str_includes_missing [of "CHR ''x''"]; use clean [OF that] in simp)+
    show "\<not> str_includes (field_text p) (''content'' @ [CHR 0x22, CHR '':''])"
    proof
      assume "str_includes (field_text p) (''content'' @ [CHR 0x22, CHR '':''])"
      then obtain u v where "field_text p = (u @ ''conte'') @ CHR ''n'' # CHR ''t'' # CHR 0x22 # CHR '':'' # v"
        by (auto simp: str_includes_iff)
      with has_nt_quote_append [of "u @ ''conte''" "CHR '':'' # v"] clean [OF that] show False by metis
    qed
  qed
  ultimately show ?thesis by (auto simp: containsPlaintextMarker_def Let_def simp del: json_stringify.simps)
qed

section \<open>The first receipt\<close>

lemma replicate_64: "replicate 64 x = replicate 8 x @ replicate 8 x @ replicate 8 x @ replicate 8 x @ replicate 8 x @ replicate 8 x @ replicate 8 x @ replicate 8 x"
  by (simp add: numeral_eq_Suc)

lemma zeros_root [simp]: "rx_full ROOT_RE (SHA256_PREFIX @ zeros)"
  unfolding ROOT_RE_iff by (auto simp: zeros_def ch_hex_def ch_digit_def ch_range_def list_all_iff)

lemma zeros_normal [simp]: "normalizeSha256Root (JStr (SHA256_PREFIX @ zeros)) f = Inr (SHA256_PREFIX @ zeros)"
  by (simp add: normalizeSha256Root_idem)

definition receipt0 :: jsval where
  "receipt0 = JObj [(''schema'', JStr RECEIPT_SCHEMA), (''receipt_id'', JStr (''rcpt_'' @ take 32 zeros)), (''event_hash'', JStr (SHA256_PREFIX @ zeros)),
          (''operation'', JStr ''create''), (''tenant_id'', JStr ''local''),
          (''subject_id'', JStr ''local-subject''), (''memory_addr'', JStr addr0), (''policy_id'', JStr ''local-default''),
          (''sequence'', JInt 0), (''previous_receipt_hash'', JStr GENESIS),
          (''active_set_root'', JStr (SHA256_PREFIX @ zeros)), (''receipt_log_root'', JStr (SHA256_PREFIX @ zeros)),
          (''timestamp'', JStr ''2026-01-01''),
          (''signer'', JObj [(''key_id'', JStr ''local-ed25519-u''), (''alg'', JStr ED25519)]),
          (''signature'', JObj [(''alg'', JStr ED25519), (''value'', JStr ''_s'')])]"

lemma take_zeros: "take 32 zeros = replicate 8 (CHR ''0'') @ replicate 8 (CHR ''0'') @ replicate 8 (CHR ''0'') @ replicate 8 (CHR ''0'')"
  by (simp add: zeros_def replicate_64 replicate_8)

lemmas clean_eval = clean_field_def field_text_def json_string_def json_escape_def toLowerCase_def lower_char_def Let_def
   char_eq_iff int_to_string_def nat_to_string.simps is_finite_def

lemma clean_root:
  "clean_field (''event_hash'', JStr (SHA256_PREFIX @ zeros))" "clean_field (''active_set_root'', JStr (SHA256_PREFIX @ zeros))"
  "clean_field (''receipt_log_root'', JStr (SHA256_PREFIX @ zeros))"
  by (simp_all add: clean_eval SHA256_PREFIX_def zeros_def replicate_64 replicate_8)

lemma clean_addr: "clean_field (''memory_addr'', JStr addr0)"
  by (simp add: clean_eval addr0_def zeros_def replicate_64 replicate_8)

lemma clean_id: "clean_field (''receipt_id'', JStr (''rcpt_'' @ take 32 zeros))"
  by (simp add: clean_eval take_zeros replicate_8)

lemma clean_text:
  "clean_field (''schema'', JStr RECEIPT_SCHEMA)" "clean_field (''operation'', JStr ''create'')"
  "clean_field (''tenant_id'', JStr ''local'')" "clean_field (''subject_id'', JStr ''local-subject'')"
  "clean_field (''policy_id'', JStr ''local-default'')" "clean_field (''sequence'', JInt 0)"
  "clean_field (''previous_receipt_hash'', JStr GENESIS)" "clean_field (''timestamp'', JStr ''2026-01-01'')"
  "clean_field (''signer'', JObj [(''key_id'', JStr ''local-ed25519-u''), (''alg'', JStr ED25519)])"
  "clean_field (''signature'', JObj [(''alg'', JStr ED25519), (''value'', JStr ''_s'')])"
  by (simp_all add: clean_eval RECEIPT_SCHEMA_def GENESIS_def ED25519_def)

lemma receipt0_clean: "\<not> containsPlaintextMarker receipt0"
  unfolding receipt0_def
  by (rule no_marker_object) (simp only: list.pred_inject clean_root clean_addr clean_id clean_text simp_thms)

lemma receipt0_options:
  assumes "getp o0 ''sequence'' = JInt 0" "getp o0 ''previous_receipt_hash'' = JStr GENESIS" "getp o0 ''event_hash'' = JStr (SHA256_PREFIX @ zeros)"
    "getp o0 ''active_set_root'' = JStr (SHA256_PREFIX @ zeros)" "getp o0 ''receipt_log_root'' = JStr (SHA256_PREFIX @ zeros)"
    "getp o0 ''operation'' = JStr ''create''" "getp o0 ''timestamp'' = JStr ''2026-01-01''"
    "getp o0 ''signer'' = JObj [(''key_id'', JStr ''local-ed25519-u''), (''alg'', JStr ED25519)]"
    "getp o0 ''tenant_id'' = JStr ''local''" "getp o0 ''subject_id'' = JStr ''local-subject''"
    "getp o0 ''memory_addr'' = JStr addr0" "getp o0 ''source_addr'' = JUndef" "getp o0 ''provider'' = JUndef"
    "getp o0 ''model'' = JUndef" "getp o0 ''policy_id'' = JStr ''local-default''" "getp o0 ''sourceAddr'' = JUndef"
    and src: "getp src ''source_addr'' = JUndef" "getp src ''sourceAddr'' = JUndef" "getp src ''provider'' = JUndef" "getp src ''model'' = JUndef"
  shows "receipt_body (vn_node vsample) o0 src = Inr (JObj [(''schema'', JStr RECEIPT_SCHEMA), (''event_hash'', JStr (SHA256_PREFIX @ zeros)),
          (''operation'', JStr ''create''), (''tenant_id'', JStr ''local''),
          (''subject_id'', JStr ''local-subject''), (''sequence'', JInt 0), (''previous_receipt_hash'', JStr GENESIS),
          (''active_set_root'', JStr (SHA256_PREFIX @ zeros)), (''receipt_log_root'', JStr (SHA256_PREFIX @ zeros)),
          (''timestamp'', JStr ''2026-01-01''),
          (''signer'', JObj [(''key_id'', JStr ''local-ed25519-u''), (''alg'', JStr ED25519)]),
          (''memory_addr'', JStr addr0), (''policy_id'', JStr ''local-default'')])"
proof -
  have "normalizePreviousHash (JStr GENESIS) = Inr GENESIS" by (simp add: normalizePreviousHash_def)
  moreover have "normalizeSigner (vn_node vsample) (JObj [(''key_id'', JStr ''local-ed25519-u''), (''alg'', JStr ED25519)]) a b
     = Inr (JObj [(''key_id'', JStr ''local-ed25519-u''), (''alg'', JStr ED25519)])" for a b
     by (simp add: normalizeSigner_def isPlainRecord_def requiredString_def obj_get_Cons)
  ultimately show ?thesis
    by (simp add: receipt_body_def assms requiredInteger_def requiredString_def copyOptional_def Let_def
      obj_put_def has_key_def is_array_index_def ch_digit_def ch_range_def)
qed

lemma receipt0_created:
  assumes "normalizeCreateReceiptArgs o0 (JObj []) = o0" "getp o0 ''receipt_id'' = JUndef" "getp o0 ''receiptId'' = JUndef"
    "getp o0 ''signature'' = JUndef" "getp o0 ''privateKey'' = JStr ''k''"
    and b: "receipt_body (vn_node vsample) o0 (coal (getp o0 ''event'') o0) = Inr (JObj [(''schema'', JStr RECEIPT_SCHEMA), (''event_hash'', JStr (SHA256_PREFIX @ zeros)),
          (''operation'', JStr ''create''), (''tenant_id'', JStr ''local''),
          (''subject_id'', JStr ''local-subject''), (''sequence'', JInt 0), (''previous_receipt_hash'', JStr GENESIS),
          (''active_set_root'', JStr (SHA256_PREFIX @ zeros)), (''receipt_log_root'', JStr (SHA256_PREFIX @ zeros)),
          (''timestamp'', JStr ''2026-01-01''),
          (''signer'', JObj [(''key_id'', JStr ''local-ed25519-u''), (''alg'', JStr ED25519)]),
          (''memory_addr'', JStr addr0), (''policy_id'', JStr ''local-default'')])" (is "_ = Inr ?b")
  shows "createReceipt (vn_node vsample) o0 (JObj []) = Inr receipt0"
proof -
  have j: "jsonable ?b" "plain_obj ?b" by simp_all
  from createReceipt_total [OF assms(1) [symmetric] b j(1), of "JStr ''p''"] key_pair_ok_vsample assms
  obtain r where r: "createReceipt (vn_node vsample) o0 (JObj []) = Inr r" by auto
  then obtain i s where i: "receipt_id_of (vn_node vsample) ?b = Inr i"
    and s: "sign_bytes (vn_node vsample) (orderReceiptFields (spread2 ?b [(''receipt_id'', JStr i)])) (getp o0 ''privateKey'') = Inr s"
    and r': "r = signed_receipt ?b (JStr i) (JObj [(''alg'', JStr ED25519), (''value'', JStr s)])"
    using createReceipt_Inr [OF r assms(1) [symmetric]] b assms(2-4) by auto
  obtain c where "canonicalize (orderReceiptFields (spread2 ?b [(''receipt_id'', JStr [])])) = Inr c"
    using canonicalize_jsonable [OF jsonable_unsigned_body [OF j, of "JStr []"]] by auto
  with i have i: "i = ''rcpt_'' @ take 32 zeros" by (simp add: receipt_id_of_def)
  have s: "s = ''_s''" using s assms(5) by (auto simp: sign_bytes_def res_simps)
  let ?u = "orderReceiptFields (spread2 ?b [(''receipt_id'', JStr i)])" and ?sg = "JObj [(''alg'', JStr ED25519), (''value'', JStr s)]"
  have w: "getp (spread2 ?u [(''signature'', ?sg)]) f = (if f = ''signature'' then ?sg else getp ?u f)" for f
    by (simp add: getp_spread2 obj_get_Cons del: getp_orderReceiptFields)
  have "signed_receipt ?b (JStr i) ?sg = receipt0"
    unfolding signed_receipt_def orderReceiptFields_def [of "spread2 ?u _"] ordered_fields_def w getp_unsigned_body [OF j(2)]
    by (simp add: receipt_fields_def obj_get_Cons receipt0_def i s)
  with r r' show ?thesis by simp
qed

section \<open>The first operation\<close>

definition event0 :: "jsval \<Rightarrow> jsval" where
  "event0 meta = JObj
       [(''schema'', JStr EVENT_SCHEMA), (''event_id'', JStr ''evt_e''), (''operation'', JStr ''create''),
        (''tenant_id'', JStr ''local''), (''subject_id'', JStr ''local-subject''), (''actor_id'', JStr ''local-user''),
        (''memory_addr'', JStr addr0), (''timestamp'', JStr ''2026-01-01''), (''sequence'', JInt 0),
        (''policy_id'', JStr ''local-default''), (''metadata'', meta)]"

lemma event0_made:
  assumes "getp fs ''operation'' = JStr ''create''" "getp fs ''memory_addr'' = JStr addr0" "getp fs ''subject_id'' = JStr ''local-subject''"
    "getp fs ''tenant_id'' = JUndef" "getp fs ''actor_id'' = JUndef" "getp fs ''source_addr'' = JUndef" "getp fs ''provider'' = JUndef"
    "getp fs ''model'' = JUndef" "getp fs ''purpose'' = JUndef" "getp fs ''policy_id'' = JUndef" "getp fs ''decision'' = JUndef"
    and "metadata (vn_node vsample) (getp fs ''metadata'') = Inr (JObj qs)" "jsonable (JObj qs)"
  shows "event_of vsample sample_fresh (vault0\<lparr>vt_memories := ms, vt_active := as\<rparr>) fs = Inr (event0 (JObj qs))"
proof -
  have "pruneUndefined (JObj qs) = JObj qs"
    using canonicalize_jsonable [OF assms(13)] by (intro canonicalize_prune) (auto simp: canonicalize_def is_ok_iff)
  then show ?thesis
    by (simp add: event_of_def assms(1-12) vault0_def sample_fresh_def event0_def del: pruneUndefined.simps(2))
      (simp add: EVENT_SCHEMA_def)
qed

lemma entry0:
  assumes "event_of vsample sample_fresh v fs = Inr (event0 meta)" and "jsonable meta"
    and v: "v = vault0\<lparr>vt_memories := ms, vt_active := [JStr addr0]\<rparr>"
  shows "\<exists>entry. next_entry vsample sample_fresh v fs = Inr (entry, event0 meta, receipt0)"
proof -
  let ?z = "SHA256_PREFIX @ zeros"
  have "jsonable (event0 meta)" using assms(2) by (simp add: event0_def)
  from canonicalize_jsonable [OF this] obtain c where "canonicalize (event0 meta) = Inr c" by blast
  then have c: "canonical (event0 meta) = Inr c" by (simp add: canonical_def)
  let ?o = "receiptArgs v (event0 meta) ?z GENESIS ?z ?z"
  have n: "normalizeCreateReceiptArgs ?o (JObj []) = ?o" by (rule receiptArgs_options) (simp add: event0_def)
  have "createReceipt (vn_node vsample) ?o (JObj []) = Inr receipt0"
    by (rule receipt0_created [OF n]; (rule receipt0_options)?;
        simp add: receiptArgs_get obj_get_Cons event0_def v vault0_def ED25519_def)
  moreover have "pruneUndefined receipt0 = receipt0" by (simp add: receipt0_def)
  ultimately have "buildReceipt vsample v (event0 meta) ?z GENESIS ?z ?z = Inr receipt0"
    by (simp add: buildReceipt_def receipt0_clean)
  moreover have "computeSetRoot vsample [JStr addr0] = Inr ?z"
    using ms_new_of [of "[addr0]"] by (simp add: computeSetRoot_def)
  moreover have "sha_root (vn_node vsample) c = ?z" by (simp add: sha_root_def)
  moreover have "vt_receipts v = []" "vt_active v = [JStr addr0]" by (simp_all add: v vault0_def)
  ultimately show ?thesis
    using assms(1) c by (simp add: next_entry_def previous_hash_def computeReceiptLogRootFrom_def ZERO_ROOT_def)
qed

text \<open>Only a \<open>BigInt\<close> makes the public projection fail.\<close>

fun no_big :: "jsval \<Rightarrow> bool" where
  "no_big (JBig i) = False"
| "no_big (JArr xs) = (\<forall>x \<in> set xs. no_big x)"
| "no_big (JObj ps) = (\<forall>p \<in> set ps. no_big (snd p))"
| "no_big (JInst c ps) = (\<forall>p \<in> set ps. no_big (snd p))"
| "no_big v = True"

lemma stableStringify_total: "no_big v \<Longrightarrow> is_ok (stableStringify v)"
  by (induction v rule: stableStringify.induct) (auto simp: is_ok_mapE json_primitive_def case_prod_unfold)

lemma canonical_total: "no_big v \<Longrightarrow> is_ok (canonical v)"
  using stableStringify_total by (auto simp: canonical_def ecatch_def split: sum.split)

lemma snd_index_props: "p \<in> set (index_props i xs) \<Longrightarrow> snd p \<in> set xs"
  by (induction xs arbitrary: i) auto

lemma metadata_total: "no_big v \<Longrightarrow> is_ok (metadata N v)"
proof -
  have field: "is_ok (metadata_field N out p)" if "no_big (snd p)" for out p
    using that canonical_total [of "snd p"]
    by (auto simp: metadata_field_def commitMetadataValue_def is_ok_ebind_total case_prod_unfold)
  have "is_ok (foldE (metadata_field N) out ps)" if "\<forall>p \<in> set ps. no_big (snd p)" for out ps
    using that
  proof (induction ps arbitrary: out)
    case (Cons p ps)
    then show ?case using field [of p out] by (auto simp: is_ok_iff)
  qed simp
  moreover have "no_big (snd p)" if "no_big v" "p \<in> set (props_of v)" for p
    using that snd_index_props by (cases v) fastforce+
  ultimately show "no_big v \<Longrightarrow> is_ok (metadata N v)" by (auto simp: metadata_def)
qed

lemma sanitize_total: "no_big v \<Longrightarrow> is_ok (sanitizePublicValue N v)"
proof (induction N v rule: sanitizePublicValue.induct)
  case (2 N ps)
  then show ?case by (auto simp: is_ok_mapE public_field_def metadata_total split: if_splits)
next
  case (3 N c ps)
  then show ?case by (auto simp: is_ok_mapE public_field_def metadata_total split: if_splits)
qed (auto simp: is_ok_mapE)

definition args0 :: jsval where
  "args0 = JObj [(''content'', JStr ''hi'')]"

lemma append0:
  assumes "next_entry vsample sample_fresh v fs = Inr (entry, event, receipt0)" and "vt_receipts v = []" and "vt_tombstones v = []"
  shows "\<exists>w. appendEvent vsample sample_fresh fs v = (Inr (event, receipt0), w) \<and> vt_receipts w = [receipt0]"
proof -
  obtain c where "canonicalize receipt0 = Inr c" using canonicalize_jsonable [of receipt0] by (auto simp: receipt0_def)
  then have "hashReceipt vsample receipt0 = Inr (SHA256_PREFIX @ zeros)" by (simp add: hashReceipt_def receiptHash_def)
  then obtain r where "lifecycleRoots vsample (store_entry (entry, event, receipt0) v) = Inr r"
    using assms(2,3) by (simp add: lifecycleRoots_def tombstoneRootItems_def computeReceiptLogRootFrom_def Let_def)
  then show ?thesis using assms by (simp add: appendEvent_def applyLifecycleRoots_def)
qed

lemma remember0:
  "\<exists>res w. remember vsample sample_fresh args0 vault0 = (Inr res, w)
     \<and> vt_receipts w = [receipt0] \<and> getp res ''memory_addr'' = JStr addr0"
proof -
  let ?h = "sha_root (vn_node vsample) (js_String (content_of args0))"
  have get: "getp args0 k = (if k = ''content'' then JStr ''hi'' else JUndef)" for k by (simp add: args0_def obj_get_Cons)
  have a: "memoryAddress vsample vault0 (JStr ''local-subject'') (JStr ''mem_u'') ?h = Inr addr0"
    by (rule memoryAddress_vsample) simp_all
  let ?r = "record_of vsample sample_fresh vault0 args0 (JStr ''mem_u'') (JStr ''local-subject'') ''2026-01-01'' ?h addr0 (JObj [])"
  have r: "getp ?r ''kind'' = JStr ''fact''" "getp ?r ''sensitivity'' = JStr ''normal''" "getp ?r ''importance'' = JUndef"
    "\<exists>c. getp ?r ''content_commitment'' = JStr c"
    unfolding record_of_def by (subst obj_get_prune; simp add: obj_get_Cons get normalizeImportance_def)+
  have "no_big ?r" by (simp add: record_of_def get encryptContent_def sanitizeSourceRefs_def elems_def normalizeImportance_def)
  then obtain p where p: "publicRecord vsample \<lparr>mr_obj = ?r, mr_plaintext = None\<rparr> = Inr p"
    using sanitize_total [of ?r "vn_node vsample"] by (auto simp: publicRecord_def is_ok_iff)
  let ?v = "vault0\<lparr>vt_memories := jm_set (JStr addr0) \<lparr>mr_obj = ?r, mr_plaintext = None\<rparr> (vt_memories vault0),
     vt_active := set_add (JStr addr0) (vt_active vault0)\<rparr>"
  obtain cc where cc: "getp ?r ''content_commitment'' = JStr cc" using r(4) by blast
  define fs where "fs = JObj
                ([(''operation'', JStr ''create''), (''memory_addr'', JStr addr0), (''subject_id'', JStr ''local-subject''),
                  (''metadata'', pruneUndefined (JObj
                    [(''memory_id'', JStr ''mem_u''), (''kind'', getp ?r ''kind''), (''sensitivity'', getp ?r ''sensitivity''),
                     (''importance'', getp ?r ''importance''), (''content_commitment'', getp ?r ''content_commitment'')]))]
                 @ actor_policy_now args0)"
  obtain qs where qs: "metadata (vn_node vsample) (getp fs ''metadata'') = Inr (JObj qs)" "jsonable (JObj qs)"
    using metadata_strings [of "[(''memory_id'', JStr ''mem_u''), (''kind'', JStr ''fact''), (''sensitivity'', JStr ''normal''), (''content_commitment'', JStr cc)]" "vn_node vsample"]
    by (auto simp: fs_def r cc obj_get_Cons)
  have "event_of vsample sample_fresh ?v fs = Inr (event0 (JObj qs))"
    by (rule event0_made [OF _ _ _ _ _ _ _ _ _ _ _ qs]) (simp_all add: fs_def obj_get_Cons actor_policy_now_def get)
  from entry0 [OF this qs(2)] obtain entry where "next_entry vsample sample_fresh ?v fs = Inr (entry, event0 (JObj qs), receipt0)"
    by (auto simp: vault0_def set_add_def)
  from append0 [OF this] obtain w where w: "appendEvent vsample sample_fresh fs ?v = (Inr (event0 (JObj qs), receipt0), w)" "vt_receipts w = [receipt0]"
    by (auto simp: vault0_def)
  have "remember vsample sample_fresh args0 vault0
     = sbind (appendEvent vsample sample_fresh fs) (\<lambda>(event, receipt). sbind (slift (publicRecord vsample \<lparr>mr_obj = ?r, mr_plaintext = None\<rparr>)) (\<lambda>public.
              sret (JObj [(''memory'', public), (''memory_addr'', JStr addr0), (''event'', event), (''receipt'', receipt)]))) ?v"
  proof -
    have "coals args0 [''memory_id'', ''memoryId''] d = d" "coals args0 [''subject_id'', ''subjectId''] d = d" for d
      by (simp_all add: get)
    moreover have "''mem_'' @ fr_uuid sample_fresh = ''mem_u''" "vt_subject_id vault0 = JStr ''local-subject''"
      "\<not> jm_has (vt_tombstones vault0) x" "\<not> nullish (content_of args0)" "metadata (vn_node vsample) (getp args0 ''metadata'') = Inr (JObj [])" for x
      by (simp_all add: sample_fresh_def vault0_def jm_has_def content_of_def get metadata_def)
    ultimately show ?thesis unfolding remember_def Let_def fs_def
      by (simp only: sbind_run if_False vsample_simps a)
  qed
  also have "\<dots> = (Inr (JObj [(''memory'', p), (''memory_addr'', JStr addr0), (''event'', event0 (JObj qs)), (''receipt'', receipt0)]), w)"
    by (simp add: w p)
  finally show ?thesis using w(2) by (auto simp: obj_get_Cons)
qed

end
