(* ===== verification/VaultReplay.thy ===== *)
theory VaultReplay
  imports VaultBundle Sample_Run
begin

text \<open>
  Replaying receipts: the lifecycle that \<open>importBundle\<close> derives from the receipts of a bundle is the
  lifecycle of the vault that wrote them.
\<close>

section \<open>What the receipt of an operation says\<close>

lemma next_entry_fields:
  assumes "next_entry V fr v fs = Inr (entry, event, r)"
  shows "isObject r" "getp r ''event'' = JUndef"
    "\<exists>root. getp r ''active_set_root'' = JStr root \<and> computeSetRoot V (vt_active v) = Inr root"
    "getp fs ''operation'' = JStr op \<Longrightarrow> getp r ''operation'' = JStr op"
    "getp fs ''memory_addr'' = JStr a \<Longrightarrow> getp r ''memory_addr'' = JStr a"
    "getp fs ''source_addr'' = JStr b \<Longrightarrow> getp r ''source_addr'' = JStr b"
    "getp fs ''source_addr'' = JUndef \<Longrightarrow> getp r ''source_addr'' = JUndef"
proof -
  let ?N = "vn_node V"
  obtain h p root l where ev: "event_of V fr v fs = Inr event" and root: "computeSetRoot V (vt_active v) = Inr root"
    and br: "buildReceipt V v event h p root l = Inr r"
    using assms by (auto simp: next_entry_def ebind_Inr_iff Let_def)
  let ?o = "receiptArgs v event h p root l"
  have e: "getp event ''operation'' = pruneUndefined (getp fs ''operation'')" "getp event ''memory_addr'' = pruneUndefined (getp fs ''memory_addr'')"
     "getp event ''source_addr'' = pruneUndefined (getp fs ''source_addr'')" "getp event ''sourceAddr'' = JUndef" "event \<noteq> JUndef"
    using event_of_get [OF ev] by (auto simp: obj_get_Cons)
  have o: "normalizeCreateReceiptArgs ?o (JObj []) = ?o" by (rule receiptArgs_options) (rule e(5))
  obtain c where c: "createReceipt ?N ?o (JObj []) = Inr c" and r: "r = pruneUndefined c"
    using br by (auto simp: buildReceipt_def ebind_Inr_iff split: if_splits)
  have n: "nullish (pick ?o [''receipt_id'', ''receiptId''])" "nullish (getp ?o ''signature'')"
    by (simp_all add: receiptArgs_get obj_get_Cons)
  have r: "r = c" using r createReceipt_encodes [OF c o [symmetric] n] by (simp add: canonicalize_prune canonicalize_def)
  obtain b' i sg where b: "receipt_body ?N ?o (coal (getp ?o ''event'') ?o) = Inr b'" and c': "c = signed_receipt b' (JStr i) sg"
    using createReceipt_Inr [OF c o [symmetric] n] by auto
  have ev': "coal (getp ?o ''event'') ?o = event \<or> coal (getp ?o ''event'') ?o = ?o"
    by (auto simp: coal_def receiptArgs_get obj_get_Cons event_of_get(2) [OF ev])
  have plain: "plain_obj b'" using receipt_body_ok [OF b] by (simp add: body_ok_def)
  have fields: "''operation'' \<in> set receipt_fields" "''memory_addr'' \<in> set receipt_fields" "''source_addr'' \<in> set receipt_fields"
    "''event'' \<notin> set receipt_fields" by (simp_all add: receipt_fields_def)
  note g = getp_signed_receipt [OF plain, of "JStr i" sg]
  show "isObject r" "getp r ''event'' = JUndef"
    using isPlainRecord_signed [of b' "JStr i" sg] fields by (simp_all add: r c' g isPlainRecord_def)
  obtain root' where root': "normalizeSha256Root (coals ?o [''active_set_root'', ''activeSetRoot''] (JStr (EMPTY_MERKLE_ROOT ?N))) ''active_set_root'' = Inr root'"
     "getp b' ''active_set_root'' = JStr root'"
    and ops: "getp b' ''operation'' = coal (getp ?o ''operation'') (getp (coal (getp ?o ''event'') ?o) ''operation'')"
     "getp b' ''memory_addr'' = coal (getp ?o ''memory_addr'') (coal (getp ?o ''memoryAddr'')
        (coal (getp (coal (getp ?o ''event'') ?o) ''memory_addr'') (getp (coal (getp ?o ''event'') ?o) ''memoryAddr'')))"
     "getp b' ''source_addr'' = coal (getp ?o ''source_addr'') (coal (getp ?o ''sourceAddr'')
        (coal (getp (coal (getp ?o ''event'') ?o) ''source_addr'') (getp (coal (getp ?o ''event'') ?o) ''sourceAddr'')))"
    using receipt_body_Inr [OF b] by blast
  obtain h where h: "root = SHA256_PREFIX @ h"
    using root ms_root_prefixed by (auto simp: computeSetRoot_def emap_Inr_iff)
  then have "root' = root" using root'(1) normalize_prefixed by (simp add: receiptArgs_get obj_get_Cons)
  then show "\<exists>root. getp r ''active_set_root'' = JStr root \<and> computeSetRoot V (vt_active v) = Inr root"
    using root root'(2) by (simp add: r c' g)
  show "getp r ''operation'' = JStr op" if "getp fs ''operation'' = JStr op"
    using that by (simp add: r c' g fields ops receiptArgs_get obj_get_Cons e)
  show "getp r ''memory_addr'' = JStr a" if "getp fs ''memory_addr'' = JStr a"
    using that by (simp add: r c' g fields ops receiptArgs_get obj_get_Cons e)
  show "getp r ''source_addr'' = JStr b" if "getp fs ''source_addr'' = JStr b"
    using that by (simp add: r c' g fields ops receiptArgs_get obj_get_Cons e)
  show "getp r ''source_addr'' = JUndef" if "getp fs ''source_addr'' = JUndef"
    using that ev' by (elim disjE) (simp_all add: r c' g fields ops receiptArgs_get obj_get_Cons e)
qed

section \<open>Roots of equal sets\<close>

lemma ms_new_elems:
  "ms_new vs = Inr m \<Longrightarrow> (\<forall>x \<in> set vs. is_ok (normalizeLeafValue x)) \<and> ms_elems m = {s. \<exists>x \<in> set vs. normalizeLeafValue x = Inr s}"
proof -
  have "foldE (\<lambda>m v. ms_insert v m) m0 vs = Inr m \<Longrightarrow> (\<forall>x \<in> set vs. is_ok (normalizeLeafValue x))
      \<and> ms_elems m = ms_elems m0 \<union> {s. \<exists>x \<in> set vs. normalizeLeafValue x = Inr s}" for m0
  proof (induction vs arbitrary: m0)
    case (Cons x vs)
    then obtain s where "normalizeLeafValue x = Inr s" "foldE (\<lambda>m v. ms_insert v m) (ms_add s m0) vs = Inr m"
      by (auto simp: ms_insert_def ebind_Inr_iff emap_Inr_iff)
    with Cons.IH [of "ms_add s m0"] show ?case by (auto simp: ms_elems_def ms_add_def)
  qed simp
  from this [of "\<lparr>ms_values = []\<rparr>"] show "ms_new vs = Inr m \<Longrightarrow> (\<forall>x \<in> set vs. is_ok (normalizeLeafValue x))
      \<and> ms_elems m = {s. \<exists>x \<in> set vs. normalizeLeafValue x = Inr s}" by (simp add: ms_new_def ms_elems_def)
qed

lemma ms_new_total: "\<forall>x \<in> set vs. is_ok (normalizeLeafValue x) \<Longrightarrow> \<exists>m. ms_new vs = Inr m"
proof -
  have "\<forall>x \<in> set vs. is_ok (normalizeLeafValue x) \<Longrightarrow> \<exists>m. foldE (\<lambda>m v. ms_insert v m) m0 vs = Inr m" for m0
    by (induction vs arbitrary: m0) (auto simp: ms_insert_def is_ok_iff)
  then show "\<forall>x \<in> set vs. is_ok (normalizeLeafValue x) \<Longrightarrow> \<exists>m. ms_new vs = Inr m" by (simp add: ms_new_def)
qed

lemma computeSetRoot_set:
  assumes "computeSetRoot V xs = Inr r" "set ys = set xs"
  shows "computeSetRoot V ys = Inr r"
proof -
  from assms(1) obtain m where m: "ms_new xs = Inr m" "r = ms_root (vn_node V) m" by (auto simp: computeSetRoot_def emap_Inr_iff)
  obtain m' where m': "ms_new ys = Inr m'" using ms_new_elems [OF m(1)] assms(2) ms_new_total [of ys] by auto
  have "ms_elems m' = ms_elems m" using ms_new_elems [OF m(1)] ms_new_elems [OF m'] assms(2) by simp
  then have "sortedValues m' = sortedValues m"
    using ms_new_wf [OF m(1)] ms_new_wf [OF m'] by (simp add: sortedValues_def ms_elems_def ms_wf_def sort_eq_iff_set)
  then show ?thesis using m(2) m' by (simp add: computeSetRoot_def ms_root_def)
qed

section \<open>Operations that return\<close>

lemma appendEvent_ok:
  assumes "appendEvent V fr fs v = (Inr e, w)"
  obtains entry event r \<rho> where "next_entry V fr v fs = Inr (entry, event, r)" "w = (store_entry (entry, event, r) v)\<lparr>vt_roots := \<rho>\<rparr>"
proof (cases rule: appendEvent_state [of V fr v fs])
  case (store ent \<rho>)
  then show thesis using that assms by (cases ent) auto
qed (use assms in simp)

lemma createMemoryAddress_nonempty: "createMemoryAddress N x y z = Inr a \<Longrightarrow> a \<noteq> []"
  unfolding createMemoryAddress_def Let_def by (auto simp: emap_Inr_iff simp del: coals.simps pick.simps split: if_splits)

lemma memoryAddress_nonempty: "memoryAddress V v s m h = Inr a \<Longrightarrow> a \<noteq> []"
  unfolding memoryAddress_def Let_def ebind_Inr_iff
  by (elim exE conjE) (auto simp: ecatch_def dest: createMemoryAddress_nonempty split: sum.splits)

text \<open>
  Sequences of operations that all return, with fresh updates and reads that keep the operation name
  \<open>read\<close> (a caller of \<open>recall\<close> may pass any other name, which then stands in the receipt).
\<close>

fun plain_op :: "vault_op \<Rightarrow> bool" where
  "plain_op (Recall fr args) = nullish (getp args ''operation'')"
| "plain_op _ = True"

inductive ok_steps :: "vnode \<Rightarrow> vault \<Rightarrow> vault \<Rightarrow> bool" for V where
  ok_refl: "ok_steps V v v"
| ok_op: "ok_steps V v w \<Longrightarrow> run_op V op w = (Inr r, w') \<Longrightarrow> fresh_op V w op \<Longrightarrow> plain_op op \<Longrightarrow> ok_steps V v w'"

text \<open>The effect of an operation that returns, as the entry it appends sees it.\<close>

datatype effect = Create string | Read | Replace string string | Drop string

definition entry_for :: "effect \<Rightarrow> jsval \<Rightarrow> bool" where
  "entry_for eff fs = (case eff of
       Create a \<Rightarrow> getp fs ''operation'' = JStr ''create'' \<and> getp fs ''memory_addr'' = JStr a
     | Read \<Rightarrow> getp fs ''operation'' = JStr ''read''
     | Replace old new \<Rightarrow> getp fs ''operation'' = JStr ''update'' \<and> getp fs ''memory_addr'' = JStr new \<and> getp fs ''source_addr'' = JStr old
     | Drop a \<Rightarrow> getp fs ''operation'' = JStr ''delete'' \<and> getp fs ''memory_addr'' = JStr a)"

definition allowed :: "effect \<Rightarrow> vault \<Rightarrow> bool" where
  "allowed eff v = (case eff of
       Create a \<Rightarrow> a \<noteq> [] \<and> \<not> jm_has (vt_tombstones v) (JStr a)
     | Read \<Rightarrow> True
     | Replace old new \<Rightarrow> old \<noteq> [] \<and> new \<noteq> [] \<and> new \<noteq> old \<and> \<not> jm_has (vt_tombstones v) (JStr new)
     | Drop a \<Rightarrow> a \<noteq> [])"

text \<open>The abstract lifecycle: a set of active and a set of retired addresses.\<close>

definition abs_step :: "effect \<Rightarrow> jsval set \<times> jsval set \<Rightarrow> jsval set \<times> jsval set" where
  "abs_step eff = (\<lambda>(A, T). case eff of
       Create a \<Rightarrow> (insert (JStr a) A, T)
     | Read \<Rightarrow> (A, T)
     | Replace old new \<Rightarrow> (insert (JStr new) (A - {JStr old}), insert (JStr old) T)
     | Drop a \<Rightarrow> (A - {JStr a}, insert (JStr a) T))"

definition abs_vault :: "vault \<Rightarrow> jsval set \<times> jsval set" where
  "abs_vault v = (set (vt_active v), fst ` set (vt_tombstones v))"

definition abs_lifecycle :: "lifecycle \<Rightarrow> jsval set \<times> jsval set" where
  "abs_lifecycle s = (set (fst s), fst ` set (snd s))"

text \<open>The operation appended one entry, which tells its effect.\<close>

definition has_effect :: "vnode \<Rightarrow> effect \<Rightarrow> vault \<Rightarrow> vault \<Rightarrow> bool" where
  "has_effect V eff v w = (\<exists>fr fs v1 entry event r. entry_for eff fs \<and> next_entry V fr v1 fs = Inr (entry, event, r)
     \<and> vt_receipts w = vt_receipts v @ [r] \<and> vt_active w = vt_active v1 \<and> abs_vault w = abs_step eff (abs_vault v))"

lemma has_effectI:
  assumes "append_then V fr fs q g v1 = (Inr res, w)" and "entry_for eff fs" and "vt_receipts v1 = vt_receipts v"
    and "abs_vault v1 = abs_step eff (abs_vault v)"
  shows "has_effect V eff v w"
proof -
  obtain e where "appendEvent V fr fs v1 = (Inr e, w)" using append_then_ok [OF assms(1)] by blast
  then obtain entry event r \<rho> where "next_entry V fr v1 fs = Inr (entry, event, r)" "w = (store_entry (entry, event, r) v1)\<lparr>vt_roots := \<rho>\<rparr>"
    by (rule appendEvent_ok)
  moreover from this have "vt_receipts w = vt_receipts v @ [r]" "vt_active w = vt_active v1" "abs_vault w = abs_step eff (abs_vault v)"
    using assms(3,4) by (simp_all add: abs_vault_def)
  ultimately show ?thesis using assms(2) unfolding has_effect_def by blast
qed

lemma remember_effect:
  assumes "remember V fr args v = (Inr res, w)"
  shows "\<exists>a. allowed (Create a) v \<and> has_effect V (Create a) v w"
proof -
  let ?adr = "memoryAddress V v (coals args [''subject_id'', ''subjectId''] (vt_subject_id v))
      (coals args [''memory_id'', ''memoryId''] (JStr (''mem_'' @ fr_uuid fr))) (sha_root (vn_node V) (js_String (content_of args)))"
  have c: "\<not> nullish (content_of args)" using assms by (auto simp: remember_def sthrow_def)
  obtain at where at: "vn_iso V (getp args ''now'') = Inr at"
    using assms c unfolding remember_def Let_def by (cases "vn_iso V (getp args ''now'')") (simp_all only: sbind_run if_False, simp)
  obtain a where a: "?adr = Inr a"
    using assms c at unfolding remember_def Let_def by (cases ?adr) (simp_all only: sbind_run if_False, simp)
  have t: "\<not> jm_has (vt_tombstones v) (JStr a)"
    using assms c at a unfolding remember_def Let_def by (simp only: sbind_run if_False sthrow_def) (simp split: if_splits)
  obtain meta where meta: "metadata (vn_node V) (getp args ''metadata'') = Inr meta"
    using assms c at a t unfolding remember_def Let_def
    by (cases "metadata (vn_node V) (getp args ''metadata'')") (simp_all only: sbind_run if_False, simp)
  obtain fs q g r where run: "remember V fr args v = append_then V fr fs (q :: jsval res) g
      (v\<lparr>vt_memories := jm_set (JStr a) \<lparr>mr_obj = r, mr_plaintext = None\<rparr> (vt_memories v), vt_active := set_add (JStr a) (vt_active v)\<rparr>)"
    and fs: "getp fs ''operation'' = JStr ''create''" "getp fs ''memory_addr'' = JStr a"
    using remember_run [OF c at a t meta] by blast
  have "has_effect V (Create a) v w"
    by (rule has_effectI [OF run [symmetric, unfolded assms]]) (simp_all add: fs entry_for_def abs_vault_def abs_step_def)
  then show ?thesis using t memoryAddress_nonempty [OF a] by (auto simp: allowed_def)
qed

lemma recall_effect:
  assumes "recall V fr args v = (Inr res, w)" and "nullish (getp args ''operation'')"
  shows "has_effect V Read v w"
proof -
  from assms(1) obtain m p m' where m: "jm_get (vt_memories v) (pick args [''memory_addr'', ''memoryAddr'']) = Some m"
    and g: "truthy (pick args [''memory_addr'', ''memoryAddr''])" "\<not> jm_has (vt_tombstones v) (pick args [''memory_addr'', ''memoryAddr''])"
      "pick args [''memory_addr'', ''memoryAddr''] \<in> set (vt_active v)" "getp (mr_obj m) ''state'' = JStr ''active''"
    and d: "decryptContent V v m = Inr (p, m')"
    unfolding recall_def Let_def sthrow_def
    by (cases "decryptContent V v (the (jm_get (vt_memories v) (pick args [''memory_addr'', ''memoryAddr''])))")
      (auto simp: sbind_run simp del: sbind_simps pick.simps split: if_splits option.splits)
  have "\<exists>fs q g. recall V fr args v = append_then V fr fs (q :: jsval res) g
      (v\<lparr>vt_memories := jm_set (pick args [''memory_addr'', ''memoryAddr'']) m' (vt_memories v)\<rparr>) \<and> getp fs ''operation'' = JStr ''read''"
    unfolding recall_def Let_def append_then_def
    by (simp add: m g d sbind_run del: sbind_simps pick.simps coals.simps ex_simps)
      (rule exI, rule exI, rule exI, rule conjI, rule refl, use assms(2) in \<open>simp add: obj_get_Cons coal_def\<close>)
  then obtain fs q g where run: "recall V fr args v = append_then V fr fs (q :: jsval res) g
      (v\<lparr>vt_memories := jm_set (pick args [''memory_addr'', ''memoryAddr'']) m' (vt_memories v)\<rparr>)" "getp fs ''operation'' = JStr ''read''" by blast
  show ?thesis by (rule has_effectI [OF run(1) [symmetric, unfolded assms(1)]]) (simp_all add: run entry_for_def abs_vault_def abs_step_def)
qed

lemma delete_effect:
  assumes "deleteMemory V fr args v = (Inr res, w)" and "\<forall>x \<in> set (vt_active v). isString x"
  shows "\<exists>a. allowed (Drop a) v \<and> has_effect V (Drop a) v w"
proof -
  obtain x where x: "pick args [''memory_addr'', ''memoryAddr''] = x" by blast
  have g: "truthy x" "\<not> jm_has (vt_tombstones v) x" "x \<in> set (vt_active v)"
    using assms(1) unfolding deleteMemory_def Let_def sthrow_def x
    by (auto simp: sbind_run simp del: sbind_simps split: if_splits)
  obtain at where at: "vn_iso V (getp args ''now'') = Inr at"
    using assms(1) unfolding deleteMemory_def Let_def x
    by (cases "vn_iso V (getp args ''now'')"; cases "jm_get (vt_memories v) x")
      (simp_all add: g sbind_run sbind_assoc del: sbind_simps coals.simps)
  from assms(2) g(3) obtain a where a: "x = JStr a" by (auto simp: isString_iff)
  obtain fs q h ms t where run: "deleteMemory V fr args v = append_then V fr fs (q :: unit res) h
      (v\<lparr>vt_memories := ms, vt_active := set_remove x (vt_active v), vt_tombstones := jm_set x t (vt_tombstones v)\<rparr>)"
    and fs: "getp fs ''operation'' = JStr ''delete''" "getp fs ''memory_addr'' = x"
    using deleteMemory_run [OF g(1) x g(2,3) at] by blast
  have "has_effect V (Drop a) v w"
    by (rule has_effectI [OF run [symmetric, unfolded assms(1)]]) (simp_all add: fs a entry_for_def abs_vault_def abs_step_def jm_keys_set)
  then show ?thesis using g(1) by (auto simp: allowed_def a)
qed

lemma update_effect:
  assumes "updateMemory V fr args v = (Inr res, w)" and "\<forall>x \<in> set (vt_active v). isString x" and "fresh_op V v (Update fr args)"
  shows "\<exists>old new. allowed (Replace old new) v \<and> has_effect V (Replace old new) v w"
proof -
  obtain x where x: "pick args [''memory_addr'', ''memoryAddr''] = x" by blast
  have g: "truthy x" "\<not> nullish (content_of args)" "\<not> jm_has (vt_tombstones v) x" "x \<in> set (vt_active v)"
    using assms(1) unfolding updateMemory_def Let_def sthrow_def x
    by (auto simp: sbind_run simp del: sbind_simps split: if_splits)
  obtain m where m: "jm_get (vt_memories v) x = Some m"
    using assms(1) g unfolding updateMemory_def Let_def sthrow_def x
    by (cases "jm_get (vt_memories v) x") (simp_all add: sbind_run del: sbind_simps)
  obtain at where at: "vn_iso V (getp args ''now'') = Inr at"
    using assms(1) g unfolding updateMemory_def Let_def x
    by (cases "vn_iso V (getp args ''now'')") (simp_all add: m sbind_run del: sbind_simps coals.simps)
  obtain new where new: "update_address V v m args = Inr new"
    using assms(1) g unfolding updateMemory_def Let_def x
    by (cases "update_address V v m args") (simp_all add: update_address_def m at sbind_run del: sbind_simps coals.simps)
  obtain public where public: "publicRecord V (set_fields [(''state'', JStr ''superseded''), (''updated_at'', JStr at)] m) = Inr public"
    using assms(1) g new unfolding updateMemory_def Let_def x
    by (cases "publicRecord V (set_fields [(''state'', JStr ''superseded''), (''updated_at'', JStr at)] m)")
      (simp_all add: update_address_def m at sbind_run del: sbind_simps coals.simps)
  from assms(2) g(4) obtain old where old: "x = JStr old" by (auto simp: isString_iff)
  obtain fs q h r t where run: "updateMemory V fr args v = append_then V fr fs (q :: jsval res) h
     (v\<lparr>vt_memories := jm_set (JStr new) r (jm_set x (set_fields [(''state'', JStr ''superseded''), (''updated_at'', JStr at)] m)
          (jm_set x (set_fields [(''state'', JStr ''superseded'')] m) (vt_memories v))),
        vt_active := set_add (JStr new) (set_remove x (vt_active v)), vt_tombstones := jm_set x t (vt_tombstones v)\<rparr>)"
    and fs: "getp fs ''operation'' = JStr ''update''" "getp fs ''memory_addr'' = JStr new" "getp fs ''source_addr'' = x"
    using updateMemory_run [OF g(1) x g(2-4) m at new public] by blast
  have "has_effect V (Replace old new) v w"
    by (rule has_effectI [OF run [symmetric, unfolded assms(1)]]) (simp_all add: fs old entry_for_def abs_vault_def abs_step_def jm_keys_set)
  moreover have "JStr new \<noteq> x \<and> \<not> jm_has (vt_tombstones v) (JStr new)" using assms(3) by (simp add: x m new del: pick.simps)
  moreover have "new \<noteq> []" using new memoryAddress_nonempty by (auto simp: update_address_def)
  ultimately show ?thesis using g(1) by (auto simp: allowed_def old)
qed

lemma run_op_effect:
  assumes "run_op V op v = (Inr res, w)" and "\<forall>x \<in> set (vt_active v). isString x" and "fresh_op V v op" and "plain_op op"
  shows "\<exists>eff. allowed eff v \<and> has_effect V eff v w"
proof (cases op)
  case (Remember fr args)
  with assms(1) have "remember V fr args v = (Inr res, w)" by simp
  from remember_effect [OF this] show ?thesis by blast
next
  case (Recall fr args)
  with assms(1,4) have "recall V fr args v = (Inr res, w)" "nullish (getp args ''operation'')" by simp_all
  moreover have "allowed Read v" by (simp add: allowed_def)
  ultimately show ?thesis using recall_effect by blast
next
  case (Update fr args)
  with assms(1) have u: "updateMemory V fr args v = (Inr res, w)" by simp
  from assms(3) have "fresh_op V v (Update fr args)" by (simp only: Update)
  from update_effect [OF u assms(2) this] show ?thesis by blast
next
  case (Delete fr args)
  with assms(1) have "deleteMemory V fr args v = (Inr res, w)" by simp
  from delete_effect [OF this assms(2)] show ?thesis by blast
qed

section \<open>Replaying\<close>

lemma apply_event_abs:
  assumes "entry_for eff fs" and "next_entry V fr v1 fs = Inr (entry, event, r)" and "allowed eff v" and "abs_lifecycle s = abs_vault v"
  shows "abs_lifecycle (apply_event r s) = abs_step eff (abs_vault v)"
proof -
  obtain A T where s: "s = (A, T)" by (cases s)
  note f = next_entry_fields [OF assms(2)]
  have at: "set A = set (vt_active v)" "fst ` set T = fst ` set (vt_tombstones v)"
    using assms(4) by (simp_all add: s abs_lifecycle_def abs_vault_def)
  show ?thesis
  proof (cases eff)
    case (Create a)
    with assms(1,3) f(4,5) at show ?thesis
      by (auto simp: entry_for_def allowed_def apply_event_def Let_def s abs_lifecycle_def abs_step_def abs_vault_def jm_has_def jm_keys_delete)
  next
    case Read
    with assms(1) f(4) at show ?thesis
      by (simp add: entry_for_def apply_event_def Let_def s abs_lifecycle_def abs_step_def abs_vault_def)
  next
    case (Replace old new)
    with assms(1,3) f(4,5,6) at show ?thesis
      by (auto simp: entry_for_def allowed_def apply_event_def Let_def s abs_lifecycle_def abs_step_def abs_vault_def jm_has_def jm_keys_delete jm_keys_set)
  next
    case (Drop a)
    with assms(1,3) f(4,5) at show ?thesis
      by (auto simp: entry_for_def allowed_def apply_event_def Let_def s abs_lifecycle_def abs_step_def abs_vault_def jm_keys_set)
  qed
qed

definition replays :: "vnode \<Rightarrow> vault \<Rightarrow> bool" where
  "replays V v = ((\<forall>x \<in> set (vt_active v). isString x)
     \<and> (\<exists>s. deriveReceiptLifecycle V (vt_receipts v) = Inr s \<and> abs_lifecycle s = abs_vault v))"

lemma replays_effect:
  assumes "replays V v" and "allowed eff v" and "has_effect V eff v w"
  shows "replays V w"
proof -
  from assms(1) obtain s where s: "deriveReceiptLifecycle V (vt_receipts v) = Inr s" "abs_lifecycle s = abs_vault v"
    and str: "\<forall>x \<in> set (vt_active v). isString x" by (auto simp: replays_def)
  from assms(3) obtain fr fs v1 entry event r where e: "entry_for eff fs" "next_entry V fr v1 fs = Inr (entry, event, r)"
    and w: "vt_receipts w = vt_receipts v @ [r]" "vt_active w = vt_active v1" "abs_vault w = abs_step eff (abs_vault v)"
    unfolding has_effect_def by blast
  let ?s = "apply_event r s"
  have abs: "abs_lifecycle ?s = abs_vault w" using apply_event_abs [OF e assms(2) s(2)] w(3) by simp
  note f = next_entry_fields(1-3) [OF e(2)]
  obtain root where root: "getp r ''active_set_root'' = JStr root" "computeSetRoot V (vt_active v1) = Inr root" using f(3) by blast
  have "computeSetRoot V (fst ?s) = Inr root"
    using computeSetRoot_set [OF root(2), of "fst ?s"] abs w(2) by (simp add: abs_lifecycle_def abs_vault_def)
  moreover have "receiptEvent r = r" "truthy r" using f(1,2) by (cases r; simp add: receiptEvent_def)+
  ultimately have "derive_step V s r = Inr ?s" by (simp add: derive_step_def root(1) case_prod_unfold Let_def)
  then have "deriveReceiptLifecycle V (vt_receipts w) = Inr ?s"
    using s(1) by (simp add: deriveReceiptLifecycle_def w(1) foldE_append)
  moreover have "\<forall>x \<in> set (vt_active w). isString x"
    using str w(3) by (cases eff) (auto simp: abs_vault_def abs_step_def)
  ultimately show ?thesis using abs by (auto simp: replays_def)
qed

lemma replays_steps: "ok_steps V v w \<Longrightarrow> replays V v \<Longrightarrow> replays V w"
proof (induction rule: ok_steps.induct)
  case (ok_op v w op r w')
  then have "\<forall>x \<in> set (vt_active w). isString x" by (simp add: replays_def)
  from run_op_effect [OF ok_op.hyps(2) this ok_op.hyps(3,4)] ok_op show ?case by (blast intro: replays_effect)
qed

text \<open>
  C2. Refinement of the vault by its receipts: after any sequence of remember, recall, update and delete
  calls that all return, in which no recall names an operation of its own and every update yields an
  address that is neither the old one nor tombstoned, replaying the receipts of the vault the way
  \<open>importBundle\<close> does succeeds, every embedded active set root matches, and the replay yields the active
  addresses and the tombstoned addresses of the vault.
\<close>

theorem receipts_replay:
  assumes "createVault V fr args = Inr v" and "ok_steps V v w"
  shows "\<exists>active tombstones. deriveReceiptLifecycle V (vt_receipts w) = Inr (active, tombstones)
    \<and> set active = set (vt_active w) \<and> set (jm_keys tombstones) = set (jm_keys (vt_tombstones w))"
proof -
  have "replays V v" using createVault_fields [OF assms(1)]
    by (simp add: replays_def deriveReceiptLifecycle_def abs_lifecycle_def abs_vault_def)
  from replays_steps [OF assms(2) this] show ?thesis by (auto simp: replays_def abs_lifecycle_def abs_vault_def)
qed

theorem receipts_replay_witness:
  "\<exists>(w :: vault) active tombstones. vt_receipts w = [receipt0] \<and> deriveReceiptLifecycle vsample [receipt0] = Inr (active, tombstones)
     \<and> set active = set (vt_active w)"
proof -
  obtain res w where w: "remember vsample sample_fresh args0 vault0 = (Inr res, w)" "vt_receipts w = [receipt0]"
    using remember0 by blast
  have "ok_steps vsample vault0 w"
    by (rule ok_op [OF ok_refl, where op = "Remember sample_fresh args0"]) (simp_all add: w)
  from receipts_replay [OF vault0_created this]
  obtain A T where "deriveReceiptLifecycle vsample [receipt0] = Inr (A, T)" "set A = set (vt_active w)"
    unfolding w(2) by (elim exE conjE)
  with w(2) show ?thesis by blast
qed

end
