(* ===== verification/JsDate.thy ===== *)
theory JsDate
  imports PublicSafe
begin

text \<open>
  Dates: \<open>Date.parse\<close> and \<open>Date.prototype.toISOString\<close> of ECMA-262, with the proleptic Gregorian
  calendar written out.  A time is the number of milliseconds since 1970-01-01 UTC.  \<open>Date.parse\<close> is
  defined here on the date-time strings with time zone \<open>Z\<close> and a four-digit or signed six-digit year;
  on any other string its result depends on the engine and is the field \<open>nd_date\<close> of the runtime.
  A day above the length of its month rolls over into the next one, as V8 does.  The main facts are
  that \<open>toISOString\<close> prints a string that \<open>Date.parse\<close> reads back, and that for the years 0 to 9999 it
  has the four-digit form the sources require.
\<close>

section \<open>The calendar\<close>

definition DayFromYear :: "int \<Rightarrow> int" where
  "DayFromYear y = 365 * (y - 1970) + (y - 1969) div 4 - (y - 1901) div 100 + (y - 1601) div 400"

definition leap_year :: "int \<Rightarrow> bool" where
  "leap_year y = ((4 dvd y \<and> \<not> 100 dvd y) \<or> 400 dvd y)"

text \<open>Days of a year before the first of a month; month 13 is the length of the year.\<close>

definition month_start :: "bool \<Rightarrow> nat \<Rightarrow> int" where
  "month_start leap m =
     [0, 31, 59, 90, 120, 151, 181, 212, 243, 273, 304, 334, 365] ! (m - 1) + (if leap \<and> 2 < m then 1 else 0)"

definition MakeDay :: "int \<Rightarrow> nat \<Rightarrow> nat \<Rightarrow> int" where
  "MakeDay y m d = DayFromYear y + month_start (leap_year y) m + int d - 1"

text \<open>The year of a day: a lower estimate, then at most three steps up.\<close>

definition year_up :: "int \<Rightarrow> int \<Rightarrow> int" where
  "year_up day y = (if DayFromYear (y + 1) \<le> day then y + 1 else y)"

definition YearFromDay :: "int \<Rightarrow> int" where
  "YearFromDay day = year_up day (year_up day (year_up day (1969 + (400 * day) div 146097)))"

definition MonthFromDay :: "bool \<Rightarrow> int \<Rightarrow> nat" where
  "MonthFromDay leap yd = length (takeWhile (\<lambda>m. month_start leap m \<le> yd) [1..<13])"

section \<open>Parsing\<close>

definition EXPANDED_DATE_TIME_RE :: rx where
  "EXPANDED_DATE_TIME_RE = rx_seqs [RCls (ch_in ''+-''), rx_times 2 (RCls ch_digit), DATE_TIME_RE]"

definition field_at :: "nat \<Rightarrow> nat \<Rightarrow> string \<Rightarrow> nat" where
  "field_at i n s = digits_value 0 (take n (drop i s))"

definition time_of :: "int \<Rightarrow> string \<Rightarrow> int option" where
  "time_of y s =
     (let mo = field_at 1 2 s; d = field_at 4 2 s; h = field_at 7 2 s; mi = field_at 10 2 s; sec = field_at 13 2 s;
          ms = (if length s = 20 then field_at 16 3 s else 0)
      in if 1 \<le> mo \<and> mo \<le> 12 \<and> 1 \<le> d \<and> d \<le> 31 \<and> mi < 60 \<and> sec < 60
            \<and> (h < 24 \<or> (h = 24 \<and> mi = 0 \<and> sec = 0 \<and> ms = 0))
         then Some (86400000 * MakeDay y mo d + 3600000 * int h + 60000 * int mi + 1000 * int sec + int ms)
         else None)"

definition max_time :: int where
  "max_time = 8640000000000000"

definition in_range :: "int option \<Rightarrow> int option" where
  "in_range t = (case t of Some x \<Rightarrow> if \<bar>x\<bar> \<le> max_time then Some x else None | None \<Rightarrow> None)"

definition Date_parse :: "node \<Rightarrow> string \<Rightarrow> int option" where
  "Date_parse N s =
     (if rx_full DATE_TIME_RE s then time_of (int (field_at 0 4 s)) (drop 4 s)
      else if rx_full EXPANDED_DATE_TIME_RE s then
        (if take 7 s = ''-000000'' then None
         else in_range (time_of ((if hd s = CHR ''-'' then - 1 else 1) * int (field_at 1 6 s)) (drop 7 s)))
      else nd_date N s)"

section \<open>Printing\<close>

definition pad2 :: "nat \<Rightarrow> string" where
  "pad2 n = [digit_char (n div 10), digit_char (n mod 10)]"

definition pad3 :: "nat \<Rightarrow> string" where
  "pad3 n = digit_char (n div 100) # pad2 (n mod 100)"

definition pad4 :: "nat \<Rightarrow> string" where
  "pad4 n = pad2 (n div 100) @ pad2 (n mod 100)"

definition year_text :: "int \<Rightarrow> string" where
  "year_text y =
     (if 0 \<le> y \<and> y \<le> 9999 then pad4 (nat y)
      else (if y < 0 then ''-'' else ''+'') @ pad2 (nat \<bar>y\<bar> div 10000) @ pad4 (nat \<bar>y\<bar> mod 10000))"

definition toISOString :: "int \<Rightarrow> string res" where
  "toISOString t =
     (if \<bar>t\<bar> > max_time then Inl (RangeError ''Invalid time value'')
      else let day = t div 86400000; r = nat (t mod 86400000); y = YearFromDay day; leap = leap_year y;
               yd = day - DayFromYear y; m = MonthFromDay leap yd; d = nat (yd - month_start leap m) + 1
           in Inr (year_text y @ ''-'' @ pad2 m @ ''-'' @ pad2 d @ ''T'' @ pad2 (r div 3600000) @ '':''
                @ pad2 (r div 60000 mod 60) @ '':'' @ pad2 (r div 1000 mod 60) @ ''.'' @ pad3 (r mod 1000) @ ''Z''))"

section \<open>Calendar facts\<close>

lemma div_step:
  fixes k x :: int
  assumes "0 < k"
  shows "(x + 1) div k = x div k + (if k dvd x + 1 then 1 else 0)"
proof (cases "k dvd x + 1")
  case True
  then obtain q where q: "x + 1 = k * q" ..
  then have "x = k * (q - 1) + (k - 1)" by (simp add: algebra_simps)
  then have "x div k = q - 1" by (rule int_div_pos_eq) (use assms in simp_all)
  with q True assms show ?thesis by simp
next
  case False
  have x: "x + 1 = k * (x div k) + (x mod k + 1)" by simp
  have "x mod k + 1 \<noteq> k"
  proof
    assume "x mod k + 1 = k"
    with x have "x + 1 = k * (x div k) + k" by (simp only:)
    then have "k dvd x + 1" by (simp only: dvd_add dvd_triv_left dvd_refl)
    with False show False ..
  qed
  moreover have "0 \<le> x mod k" "x mod k < k" using assms by simp_all
  ultimately have "(x + 1) div k = x div k" by (intro int_div_pos_eq [OF x]) linarith+
  with False show ?thesis by simp
qed

lemma div_bounds:
  fixes k x :: int
  assumes "0 < k"
  shows "k * (x div k) \<le> x" "x < k * (x div k) + k"
proof -
  have "x = k * (x div k) + x mod k" "0 \<le> x mod k" "x mod k < k" using assms by simp_all
  then show "k * (x div k) \<le> x" "x < k * (x div k) + k" by linarith+
qed

lemma dvd_shift: "k dvd y - c * k \<longleftrightarrow> k dvd y" for k y c :: int
  using dvd_add_times_triv_right_iff [of k y "- c"] by simp

lemma year_length: "DayFromYear (y + 1) = DayFromYear y + month_start (leap_year y) 13"
proof -
  have "(y + 1 - 1969) div 4 = (y - 1969) div 4 + (if 4 dvd y then 1 else 0)"
    using div_step [of 4 "y - 1969"] dvd_shift [of 4 y 492] by (simp add: algebra_simps)
  moreover have "(y + 1 - 1901) div 100 = (y - 1901) div 100 + (if 100 dvd y then 1 else 0)"
    using div_step [of 100 "y - 1901"] dvd_shift [of 100 y 19] by (simp add: algebra_simps)
  moreover have "(y + 1 - 1601) div 400 = (y - 1601) div 400 + (if 400 dvd y then 1 else 0)"
    using div_step [of 400 "y - 1601"] dvd_shift [of 400 y 4] by (simp add: algebra_simps)
  moreover have "400 dvd y \<Longrightarrow> 100 dvd y" "100 dvd y \<Longrightarrow> 4 dvd y"
    using dvd_trans [of 100 400 y] dvd_trans [of 4 100 y] by simp_all
  ultimately show ?thesis unfolding DayFromYear_def leap_year_def month_start_def by auto
qed

lemma year_step: "DayFromYear y + 365 \<le> DayFromYear (y + 1)" "DayFromYear (y + 1) \<le> DayFromYear y + 366"
  by (simp_all add: year_length month_start_def)

lemma DayFromYear_bounds:
  "146097 * y - 287812290 \<le> 400 * DayFromYear y" "400 * DayFromYear y \<le> 146097 * y - 287809890"
proof -
  define a b c where abc: "a = (y - 1969) div 4" "b = (y - 1901) div 100" "c = (y - 1601) div 400"
  have "4 * a \<le> y - 1969" "y - 1969 < 4 * a + 4" "100 * b \<le> y - 1901" "y - 1901 < 100 * b + 100"
    "400 * c \<le> y - 1601" "y - 1601 < 400 * c + 400"
    unfolding abc by (rule div_bounds; simp)+
  then show "146097 * y - 287812290 \<le> 400 * DayFromYear y" "400 * DayFromYear y \<le> 146097 * y - 287809890"
    unfolding DayFromYear_def abc [symmetric] right_diff_distrib distrib_left by linarith+
qed

text \<open>The year found contains the day.\<close>

lemma DayFromYear_mono: "y \<le> z \<Longrightarrow> DayFromYear y \<le> DayFromYear z"
proof (induction rule: int_ge_induct)
  case (step z)
  with year_step(1) [of z] show ?case by linarith
qed simp

lemma YearFromDay: "DayFromYear (YearFromDay d) \<le> d" "d < DayFromYear (YearFromDay d + 1)"
proof -
  define q where q: "q = (400 * d) div 146097"
  have e: "146097 * q \<le> 400 * d" "400 * d < 146097 * q + 146097"
    unfolding q by (rule div_bounds; simp)+
  have low: "DayFromYear (1969 + q) \<le> d" using DayFromYear_bounds(2) [of "1969 + q"] e unfolding distrib_left by linarith
  have high: "d < DayFromYear (1969 + q + 1 + 1 + 1)" using DayFromYear_bounds(1) [of "1969 + q + 1 + 1 + 1"] e unfolding distrib_left by linarith
  show "DayFromYear (YearFromDay d) \<le> d" "d < DayFromYear (YearFromDay d + 1)"
    using low high unfolding YearFromDay_def year_up_def q [symmetric] by auto
qed

lemma year_unique:
  assumes "DayFromYear y \<le> d" "d < DayFromYear (y + 1)"
  shows "YearFromDay d = y"
  using assms YearFromDay [of d] DayFromYear_mono [of "y + 1" "YearFromDay d"] DayFromYear_mono [of "YearFromDay d + 1" y]
  by linarith

text \<open>The month found contains the day of the year.\<close>

lemma month_start_steps:
  "month_start l (Suc 0) = 0" "month_start l 2 = 31" "month_start l 3 = (if l then 60 else 59)" "month_start l 4 = (if l then 91 else 90)"
  "month_start l 5 = (if l then 121 else 120)" "month_start l 6 = (if l then 152 else 151)" "month_start l 7 = (if l then 182 else 181)"
  "month_start l 8 = (if l then 213 else 212)" "month_start l 9 = (if l then 244 else 243)" "month_start l 10 = (if l then 274 else 273)"
  "month_start l 11 = (if l then 305 else 304)" "month_start l 12 = (if l then 335 else 334)" "month_start l 13 = (if l then 366 else 365)"
  by (simp_all add: month_start_def)

lemma upt_months: "[1..<13] = [1, 2, 3, 4, 5, 6, 7, 8, 9, 10, 11, 12 :: nat]"
  by (simp add: upt_rec)

lemma MonthFromDay:
  assumes "0 \<le> yd" "yd < month_start l 13"
  defines "m \<equiv> MonthFromDay l yd"
  shows "1 \<le> m" "m \<le> 12" "month_start l m \<le> yd" "yd < month_start l m + 31"
proof -
  have "m \<in> {1, 2, 3, 4, 5, 6, 7, 8, 9, 10, 11, 12} \<and> month_start l m \<le> yd \<and> yd < month_start l m + 31"
    using assms(1,2) unfolding m_def MonthFromDay_def upt_months
    by (cases l; simp add: month_start_steps; simp add: month_start_def)
  then show "1 \<le> m" "m \<le> 12" "month_start l m \<le> yd" "yd < month_start l m + 31" by auto
qed

section \<open>Reading back what is printed\<close>

lemma pad_simps:
  "length (pad2 n) = 2" "length (pad3 n) = 3" "length (pad4 n) = 4"
  by (simp_all add: pad2_def pad3_def pad4_def)

lemma pad_digits:
  "n < 100 \<Longrightarrow> list_all ch_digit (pad2 n)" "n < 1000 \<Longrightarrow> list_all ch_digit (pad3 n)" "n < 10000 \<Longrightarrow> list_all ch_digit (pad4 n)"
  by (auto simp: pad2_def pad3_def pad4_def intro!: ch_digit_digit_char)

lemma digits_value_pad2: "n < 100 \<Longrightarrow> digits_value a (pad2 n @ s) = digits_value (100 * a + n) s"
  by (simp add: pad2_def add.commute)

lemma digits_value_pad:
  "n < 100 \<Longrightarrow> digits_value 0 (pad2 n) = n" "n < 1000 \<Longrightarrow> digits_value 0 (pad3 n) = n" "n < 10000 \<Longrightarrow> digits_value 0 (pad4 n) = n"
  using digits_value_pad2 [of n 0 "[]"]
  by (simp_all add: pad3_def pad4_def digits_value_pad2) (simp_all add: pad2_def)

definition iso_tail :: "nat \<Rightarrow> nat \<Rightarrow> nat \<Rightarrow> nat \<Rightarrow> nat \<Rightarrow> nat \<Rightarrow> string" where
  "iso_tail m d h mi sec ms = ''-'' @ pad2 m @ ''-'' @ pad2 d @ ''T'' @ pad2 h @ '':'' @ pad2 mi @ '':'' @ pad2 sec @ ''.'' @ pad3 ms @ ''Z''"

lemma concI: "u \<in> A \<Longrightarrow> v \<in> B \<Longrightarrow> u @ v \<in> conc A B"
  by (auto simp: conc_def)

lemma iso_format:
  assumes "y < 10000" "m < 100" "d < 100" "h < 100" "mi < 100" "sec < 100" "ms < 1000"
  shows "rx_full DATE_TIME_RE (pad4 y @ iso_tail m d h mi sec ms)"
proof -
  have opt: "''.'' @ pad3 ms @ [] \<in> insert [] (conc {''.''} (conc {s. length s = 3 \<and> list_all ch_digit s} {[]}))"
    by (rule insertI2) (rule concI | (simp add: pad_simps pad_digits assms; fail))+
  have "pad4 y @ ''-'' @ pad2 m @ ''-'' @ pad2 d @ ''T'' @ pad2 h @ '':'' @ pad2 mi @ '':'' @ pad2 sec @ (''.'' @ pad3 ms @ []) @ ''Z'' @ []
      \<in> lang DATE_TIME_RE"
    unfolding DATE_TIME_RE_def rx_lang
    by (rule concI | rule opt | (simp add: pad_simps pad_digits assms; fail))+
  then show ?thesis by (simp add: rx_full_iff_lang iso_tail_def)
qed

lemma time_of_tail:
  assumes "1 \<le> m" "m \<le> 12" "1 \<le> d" "d \<le> 31" "h < 24" "mi < 60" "sec < 60" "ms < 1000"
  shows "time_of y (iso_tail m d h mi sec ms)
    = Some (86400000 * MakeDay y m d + 3600000 * int h + 60000 * int mi + 1000 * int sec + int ms)"
proof -
  let ?s = "iso_tail m d h mi sec ms"
  have "field_at 1 2 ?s = m" "field_at 4 2 ?s = d" "field_at 7 2 ?s = h" "field_at 10 2 ?s = mi" "field_at 13 2 ?s = sec"
    using assms by (simp_all add: field_at_def iso_tail_def pad2_def)
  moreover have "field_at 16 3 ?s = ms"
    using assms digits_value_pad(2) [of ms] by (simp add: field_at_def iso_tail_def pad2_def pad3_def)
  moreover have "length ?s = 20" by (simp add: iso_tail_def pad_simps)
  ultimately show ?thesis using assms by (simp add: time_of_def)
qed

lemma Date_parse_text:
  assumes "y < 10000" "1 \<le> m" "m \<le> 12" "1 \<le> d" "d \<le> 31" "h < 24" "mi < 60" "sec < 60" "ms < 1000"
  shows "Date_parse N (pad4 y @ iso_tail m d h mi sec ms)
    = Some (86400000 * MakeDay (int y) m d + 3600000 * int h + 60000 * int mi + 1000 * int sec + int ms)"
proof -
  let ?s = "pad4 y @ iso_tail m d h mi sec ms"
  have "rx_full DATE_TIME_RE ?s" using assms by (intro iso_format) simp_all
  moreover have "field_at 0 4 ?s = y" "drop 4 ?s = iso_tail m d h mi sec ms"
    using assms(1) by (simp_all add: field_at_def pad_simps digits_value_pad)
  ultimately show ?thesis using time_of_tail [OF assms(2-9), of "int y"] by (simp add: Date_parse_def)
qed

lemma split_time:
  "int r = 3600000 * int (r div 3600000) + 60000 * int (r div 60000 mod 60) + 1000 * int (r div 1000 mod 60) + int (r mod 1000)"
proof -
  define a b c where abc: "a = r div 1000" "b = a div 60" "c = b div 60"
  have "r div 60000 = b" "r div 3600000 = c" unfolding abc by (simp_all add: div_mult2_eq [symmetric])
  moreover have "r = 1000 * a + r mod 1000" "a = 60 * b + a mod 60" "b = 60 * c + b mod 60" unfolding abc by simp_all
  moreover have "int r = 3600000 * int c + 60000 * int z + 1000 * int y + int x"
    if "r = 1000 * a + x" "a = 60 * b + y" "b = 60 * c + z" for x y z
    using that by simp
  ultimately show ?thesis unfolding abc(1) [symmetric] by metis
qed

text \<open>The parts of a time that \<open>toISOString\<close> prints.\<close>

lemma toISOString_parts:
  assumes "\<bar>t\<bar> \<le> max_time"
  obtains m d h mi sec ms where "toISOString t = Inr (year_text (YearFromDay (t div 86400000)) @ iso_tail m d h mi sec ms)"
    "1 \<le> m" "m \<le> 12" "1 \<le> d" "d \<le> 31" "h < 24" "mi < 60" "sec < 60" "ms < 1000"
    "t = 86400000 * MakeDay (YearFromDay (t div 86400000)) m d + 3600000 * int h + 60000 * int mi + 1000 * int sec + int ms"
proof -
  define day y r where "day = t div 86400000" and "y = YearFromDay day" and "r = nat (t mod 86400000)"
  define leap yd where "leap = leap_year y" and "yd = day - DayFromYear y"
  define m d where "m = MonthFromDay leap yd" and "d = Suc (nat (yd - month_start leap m))"
  have yd: "0 \<le> yd" "yd < month_start leap 13"
    using YearFromDay [of day] by (simp_all add: yd_def y_def leap_def year_length)
  note month = MonthFromDay [OF yd, folded m_def]
  have r: "r < 86400000" "t = 86400000 * day + int r"
    by (simp_all add: r_def day_def nat_less_iff)
  have "int r = 3600000 * int (r div 3600000) + 60000 * int (r div 60000 mod 60) + 1000 * int (r div 1000 mod 60) + int (r mod 1000)"
    by (rule split_time)
  moreover have "day = MakeDay y m d"
    using month by (simp add: MakeDay_def d_def leap_def [symmetric] yd_def)
  moreover have "toISOString t = Inr (year_text y @ iso_tail m d (r div 3600000) (r div 60000 mod 60) (r div 1000 mod 60) (r mod 1000))"
    using assms by (simp add: toISOString_def Let_def iso_tail_def day_def [symmetric] y_def [symmetric] r_def [symmetric]
        leap_def [symmetric] yd_def [symmetric] m_def [symmetric] d_def [symmetric])
  moreover have "r div 3600000 < 24" "1 \<le> d" "d \<le> 31" using r month by (auto simp: d_def)
  moreover have "t = 86400000 * MakeDay y m d + 3600000 * int (r div 3600000) + 60000 * int (r div 60000 mod 60)
      + 1000 * int (r div 1000 mod 60) + int (r mod 1000)"
    using calculation(1,2) r(2) by linarith
  ultimately show thesis
    using month that [of m d "r div 3600000" "r div 60000 mod 60" "r div 1000 mod 60" "r mod 1000"]
    unfolding day_def [symmetric] y_def [symmetric] by simp
qed

text \<open>\<open>Date.parse\<close> reads back a printed time of the years 0 to 9999, in the form the sources check.\<close>

definition four_digit :: "int \<Rightarrow> bool" where
  "four_digit t = (DayFromYear 0 \<le> t div 86400000 \<and> t div 86400000 < DayFromYear 10000)"

lemma four_digit_bounds: "four_digit t \<longleftrightarrow> - 62167219200000 \<le> t \<and> t < 253402300800000"
proof -
  have "DayFromYear 0 = - 719528" "DayFromYear 10000 = 2932897" by (simp_all add: DayFromYear_def)
  moreover have "- 719528 \<le> t div 86400000 \<longleftrightarrow> - 62167219200000 \<le> t"
    using div_bounds [of 86400000 t] zdiv_mono1 [of "- 62167219200000" t 86400000] by auto
  moreover have "t div 86400000 < 2932897 \<longleftrightarrow> t < 253402300800000"
    using div_bounds [of 86400000 t] zdiv_mono1 [of 253402300800000 t 86400000] by auto
  ultimately show ?thesis by (simp add: four_digit_def)
qed

lemma toISOString_four_digit:
  assumes "four_digit t"
  obtains s where "toISOString t = Inr s" "rx_full DATE_TIME_RE s" "Date_parse N s = Some t"
proof -
  let ?y = "YearFromDay (t div 86400000)"
  have range: "\<bar>t\<bar> \<le> max_time" using assms by (auto simp: four_digit_bounds max_time_def abs_le_iff)
  have "0 \<le> ?y" using assms YearFromDay(2) [of "t div 86400000"] DayFromYear_mono [of "?y + 1" 0]
    by (force simp: four_digit_def)
  moreover have "?y < 10000" using assms YearFromDay(1) [of "t div 86400000"] DayFromYear_mono [of 10000 ?y]
    by (force simp: four_digit_def)
  ultimately obtain y where y: "?y = int y" "y < 10000" by (metis nat_0_le nat_less_iff of_nat_numeral zero_le_imp_eq_int of_nat_less_iff)
  from range obtain m d h mi sec ms where p: "toISOString t = Inr (year_text ?y @ iso_tail m d h mi sec ms)"
    "1 \<le> m" "m \<le> 12" "1 \<le> d" "d \<le> 31" "h < 24" "mi < 60" "sec < 60" "ms < 1000"
    "t = 86400000 * MakeDay ?y m d + 3600000 * int h + 60000 * int mi + 1000 * int sec + int ms"
    by (rule toISOString_parts)
  let ?s = "pad4 y @ iso_tail m d h mi sec ms"
  have fmt: "rx_full DATE_TIME_RE ?s" using p y by (intro iso_format) simp_all
  have "Date_parse N ?s = Some t" using Date_parse_text [OF y(2) p(2-9), of N] p(10) by (simp add: y)
  moreover have "toISOString t = Inr ?s" using p(1) y by (simp add: year_text_def)
  ultimately show thesis using that fmt by blast
qed

text \<open>The range of a parsed date with a four-digit year; only the last midnight leaves the four digits.\<close>

lemma digits_value_bound: "list_all ch_digit s \<Longrightarrow> digits_value a s < (a + 1) * 10 ^ length s"
proof (induction s arbitrary: a)
  case (Cons c s)
  then have c: "48 \<le> (of_char c :: nat)" "of_char c \<le> (57 :: nat)" by (simp_all add: ch_digit_iff)
  have "digits_value a (c # s) < (10 * a + (of_char c - 48) + 1) * 10 ^ length s" using Cons by simp
  also have "\<dots> \<le> (10 * (a + 1)) * 10 ^ length s" using c by (intro mult_right_mono) simp_all
  finally show ?case by (simp add: algebra_simps)
qed simp

lemma date_time_parts:
  assumes "rx_full DATE_TIME_RE s"
  obtains y r where "s = y @ r" "length y = 4" "list_all ch_digit y" "length r = 20 \<Longrightarrow> list_all ch_digit (take 3 (drop 16 r))"
proof -
  from assms have "s \<in> lang DATE_TIME_RE" by (simp add: rx_full_iff_lang)
  then obtain y mo d h mi sec f where s: "s = y @ ''-'' @ mo @ ''-'' @ d @ ''T'' @ h @ '':'' @ mi @ '':'' @ sec @ f @ ''Z''"
    and len: "length y = 4" "length mo = 2" "length d = 2" "length h = 2" "length mi = 2" "length sec = 2"
    and dig: "list_all ch_digit y" and f: "f = [] \<or> (\<exists>m. f = ''.'' @ m \<and> length m = 3 \<and> list_all ch_digit m)"
    unfolding DATE_TIME_RE_def rx_lang conc_def by auto
  let ?r = "''-'' @ mo @ ''-'' @ d @ ''T'' @ h @ '':'' @ mi @ '':'' @ sec @ f @ ''Z''"
  have "list_all ch_digit (take 3 (drop 16 ?r))" if "length ?r = 20"
    using f that len by (auto simp: drop_Cons')
  with s len dig show thesis using that by blast
qed

lemma month_start_bound: "1 \<le> m \<Longrightarrow> m \<le> 12 \<Longrightarrow> 0 \<le> month_start l m \<and> month_start l m + 31 \<le> month_start l 13"
proof -
  have "m \<in> set [1..<13] \<Longrightarrow> ?thesis" unfolding upt_months by (auto simp: month_start_def)
  then show "1 \<le> m \<Longrightarrow> m \<le> 12 \<Longrightarrow> ?thesis" by auto
qed

lemma time_of_Some:
  assumes "time_of y s = Some t" and "ms = (if length s = 20 then field_at 16 3 s else 0)"
  shows "1 \<le> field_at 1 2 s \<and> field_at 1 2 s \<le> 12 \<and> 1 \<le> field_at 4 2 s \<and> field_at 4 2 s \<le> 31 \<and> field_at 10 2 s < 60 \<and> field_at 13 2 s < 60
      \<and> (field_at 7 2 s < 24 \<or> (field_at 7 2 s = 24 \<and> field_at 10 2 s = 0 \<and> field_at 13 2 s = 0 \<and> ms = 0))"
    "t = 86400000 * MakeDay y (field_at 1 2 s) (field_at 4 2 s) + 3600000 * int (field_at 7 2 s) + 60000 * int (field_at 10 2 s)
      + 1000 * int (field_at 13 2 s) + int ms"
  using assms(1) unfolding time_of_def Let_def assms(2) [symmetric] by (simp_all split: if_split_asm)

lemma Date_parse_bounds:
  assumes "rx_full DATE_TIME_RE s" "Date_parse N s = Some t"
  shows "four_digit t \<or> t = 253402300800000"
proof -
  obtain y r where s: "s = y @ r" "length y = 4" "list_all ch_digit y" "length r = 20 \<Longrightarrow> list_all ch_digit (take 3 (drop 16 r))"
    using date_time_parts [OF assms(1)] by blast
  have year: "field_at 0 4 s < 10000" using digits_value_bound [OF s(3), of 0] s by (simp add: field_at_def)
  have ms: "field_at 16 3 r < 1000" if "length r = 20"
    using digits_value_bound [OF s(4) [OF that], of 0] that by (simp add: field_at_def)
  let ?y = "int (field_at 0 4 s)"
  define mo d h mi sec where fields: "mo = field_at 1 2 r" "d = field_at 4 2 r" "h = field_at 7 2 r" "mi = field_at 10 2 r" "sec = field_at 13 2 r"
  define m where "m = (if length r = 20 then field_at 16 3 r else 0)"
  have "time_of ?y r = Some t" using assms s by (simp add: Date_parse_def)
  note t = time_of_Some [OF this m_def, folded fields]
  have b: "1 \<le> mo" "mo \<le> 12" "1 \<le> d" "d \<le> 31" "mi < 60" "sec < 60" "m < 1000" "h < 24 \<or> (h = 24 \<and> mi = 0 \<and> sec = 0 \<and> m = 0)"
    using t(1) ms by (simp_all add: m_def)
  define D where "D = MakeDay ?y mo d"
  have D: "DayFromYear ?y \<le> D" "D + 1 \<le> DayFromYear (?y + 1)"
    using month_start_bound [OF b(1,2), of "leap_year ?y"] b(3,4) by (simp_all add: D_def MakeDay_def year_length)
  define X where "X = 3600000 * int h + 60000 * int mi + 1000 * int sec + int m"
  have X: "0 \<le> X" "X \<le> 86400000" using b by (auto simp: X_def)
  have lo: "DayFromYear 0 \<le> D" using D(1) DayFromYear_mono [of 0 ?y] by simp
  have hi: "D + 1 \<le> DayFromYear 10000" using D(2) DayFromYear_mono [of "?y + 1" 10000] year by simp
  have val: "DayFromYear 0 = - 719528" "DayFromYear 10000 = 2932897" by (simp_all add: DayFromYear_def)
  have "t = 86400000 * D + X" using t(2) by (simp add: D_def X_def)
  with lo hi X show ?thesis unfolding four_digit_bounds val by linarith
qed

definition last_midnight :: string where
  "last_midnight = ''+010000-01-01T00:00:00.000Z''"

lemma toISOString_last: "toISOString 253402300800000 = Inr last_midnight"
proof -
  have "YearFromDay 2932897 = 10000" by (rule year_unique) (simp_all add: DayFromYear_def)
  moreover have "DayFromYear 10000 = 2932897" by (simp add: DayFromYear_def)
  moreover have "MonthFromDay l 0 = 1" for l unfolding MonthFromDay_def upt_months by (simp add: month_start_steps)
  ultimately show ?thesis
    by (simp add: toISOString_def max_time_def Let_def last_midnight_def year_text_def pad2_def pad3_def pad4_def month_start_steps char_eq_iff)
qed

lemma not_date_time_last: "\<not> rx_full DATE_TIME_RE last_midnight"
proof
  assume "rx_full DATE_TIME_RE last_midnight"
  then obtain y r where "last_midnight = y @ r" "length y = 4" "list_all ch_digit y" by (rule date_time_parts)
  then show False by (cases y) (auto simp: last_midnight_def ch_digit_iff)
qed

lemma Date_parse_last: "Date_parse N last_midnight = Some 253402300800000"
proof -
  have form: "last_midnight = ''+'' @ pad2 1 @ (pad4 0 @ iso_tail 1 1 0 0 0 0) @ []"
    by (simp add: last_midnight_def pad4_def pad3_def pad2_def iso_tail_def char_eq_iff)
  have d: "pad4 0 @ iso_tail 1 1 0 0 0 0 \<in> lang DATE_TIME_RE" using iso_format [of 0 1 1 0 0 0 0] by (simp add: rx_full_iff_lang)
  have "last_midnight \<in> lang EXPANDED_DATE_TIME_RE"
    unfolding EXPANDED_DATE_TIME_RE_def rx_lang form
    by (rule concI | rule d | (simp add: pad_simps pad_digits ch_in_def; fail))+
  then have full: "rx_full EXPANDED_DATE_TIME_RE last_midnight" by (simp add: rx_full_iff_lang)
  have "field_at 1 6 last_midnight = 10000" "hd last_midnight = CHR ''+''" "take 7 last_midnight \<noteq> ''-000000''"
    by (simp_all add: last_midnight_def field_at_def)
  moreover have "drop 7 last_midnight = iso_tail 1 1 0 0 0 0"
    by (simp add: last_midnight_def pad3_def pad2_def iso_tail_def char_eq_iff)
  ultimately show ?thesis
    using full not_date_time_last time_of_tail [of 1 1 0 0 0 0 10000]
    by (simp add: Date_parse_def in_range_def max_time_def MakeDay_def DayFromYear_def month_start_def)
qed

text \<open>A concrete date.\<close>

lemma sample_date_text: "''2026-01-01T00:00:00.000Z'' = pad4 2026 @ iso_tail 1 1 0 0 0 0"
  by (simp add: pad4_def pad3_def pad2_def iso_tail_def char_eq_iff)

lemma sample_date: "rx_full DATE_TIME_RE ''2026-01-01T00:00:00.000Z''" "Date_parse N ''2026-01-01T00:00:00.000Z'' = Some 1767225600000"
  unfolding sample_date_text using iso_format [of 2026 1 1 0 0 0 0] Date_parse_text [of 2026 1 1 0 0 0 0 N]
  by (simp_all add: MakeDay_def DayFromYear_def month_start_def)

end
