(* ===== verification/Boundary.thy ===== *)
theory Boundary
  imports JsDate
begin

text \<open>
  The boundary harness (\<open>packages/boundary\<close>): manifests that classify the paths along which facts can
  leave an agent, their verification, the classification of a path reference, and the simulation that
  evaluates scenarios against a manifest.  Results of the functions are records with the fields of
  the returned objects, rows of the simulation are objects.
\<close>

section \<open>Tables\<close>

definition MANIFEST_SCHEMA :: string where "MANIFEST_SCHEMA = ''enigma.boundary_manifest.v1''"
definition DEFAULT_ACTION :: string where "DEFAULT_ACTION = ''fail_unknown''"
definition DEFAULT_CREATED_AT :: string where "DEFAULT_CREATED_AT = ''1970-01-01T00:00:00.000Z''"
definition DEFAULT_HMAC_KEY :: string where "DEFAULT_HMAC_KEY = ''enigma-boundary-local-proof-key''"
definition FACT_DOMAIN :: string where "FACT_DOMAIN = ''enigma.boundary.fact.v1''"

definition SURFACES :: "string list" where
  "SURFACES =
     [''model_input'', ''model_output'', ''tool_args'', ''tool_result'', ''scratchpad'', ''clipboard'',
      ''memory_write'', ''memory_read'', ''rag_ingest'', ''rag_retrieve'', ''file_write'', ''log'', ''telemetry'',
      ''browser_dom'', ''mcp_resource'', ''network'', ''inter_agent'', ''cache'', ''human_approval'']"

definition CLASSIFICATIONS :: "string list" where
  "CLASSIFICATIONS = [''committed'', ''blocked'', ''declared_out_of_scope'', ''broken'', ''fail_closed'']"

section \<open>Manifests\<close>

definition boundary_assertPlainRecord :: "jsval \<Rightarrow> string \<Rightarrow> unit res" where
  "boundary_assertPlainRecord v name =
     (if isObject v \<and> \<not> isArray v then Inr () else Inl (TypeError (name @ '' must be an object'')))"

text \<open>A default in a parameter pattern applies to \<open>undefined\<close> only.\<close>

definition dflt :: "jsval \<Rightarrow> jsval \<Rightarrow> jsval" where
  "dflt v d = (if v = JUndef then d else v)"

definition factCommitment :: "node \<Rightarrow> jsval \<Rightarrow> jsval \<Rightarrow> string res" where
  "factCommitment N given options =
     createMemoryAddress N (JObj
       [(''secret'', dflt (getp options ''hmacKey'') (JStr DEFAULT_HMAC_KEY)),
        (''namespace'', JStr FACT_DOMAIN),
        (''subject_id'', dflt (getp options ''scenario'') (JStr ''unspecified'')),
        (''value'', JObj [(''fact'', given), (''runId'', dflt (getp options ''runId'') (JStr ''boundary-sim''))]),
        (''prefix'', JStr ''boundary'')]) JUndef JUndef"

definition committed_path :: "string \<Rightarrow> jsval" where
  "committed_path surface = JObj
     [(''path_id'', JStr (surface @ '':committed'')), (''surface'', JStr surface), (''classification'', JStr ''committed''),
      (''coverage_receipt_required'', JBool True)]"

definition other_path :: "string \<Rightarrow> string \<Rightarrow> string \<Rightarrow> string \<Rightarrow> jsval" where
  "other_path surface tag classification reason = JObj
     [(''path_id'', JStr (surface @ '':'' @ tag)), (''surface'', JStr surface), (''classification'', JStr classification),
      (''reason'', JStr reason)]"

definition defaultBoundaryPaths :: "jsval list" where
  "defaultBoundaryPaths =
     [committed_path ''model_input'',
      committed_path ''model_output'',
      committed_path ''tool_args'',
      other_path ''tool_result'' ''raw'' ''broken'' ''Uninstrumented tool result can move exact facts without an Enigma receipt.'',
      committed_path ''tool_result'',
      other_path ''scratchpad'' ''raw'' ''broken'' ''Uninstrumented scratchpad can carry exact facts outside the committed channel.'',
      committed_path ''scratchpad'',
      other_path ''clipboard'' ''raw'' ''broken'' ''Uninstrumented clipboard can carry exact facts outside the committed channel.'',
      committed_path ''clipboard'',
      committed_path ''memory_write'',
      committed_path ''memory_read'',
      other_path ''rag_ingest'' ''blocked'' ''blocked'' ''Semantic/vector ingestion is not admitted by the exact boundary harness.'',
      other_path ''rag_retrieve'' ''semantic'' ''declared_out_of_scope'' ''Semantic/RAG paraphrase equivalence is outside exact CANP claims.'',
      other_path ''file_write'' ''raw'' ''broken'' ''File artifacts can leak exact facts unless routed through committed receipts.'',
      other_path ''log'' ''raw'' ''broken'' ''Logs can leak exact facts unless blocked or committed.'',
      other_path ''telemetry'' ''blocked'' ''blocked'' ''Telemetry egress is denied for boundary canaries.'',
      other_path ''browser_dom'' ''blocked'' ''blocked'' ''Browser DOM injection is denied in the local harness.'',
      committed_path ''mcp_resource'',
      other_path ''network'' ''callback'' ''broken'' ''Network callbacks can leak exact facts unless blocked or committed.'',
      committed_path ''inter_agent'',
      other_path ''cache'' ''blocked'' ''blocked'' ''Cache side paths are denied in the local harness.'',
      committed_path ''human_approval'']"

definition normalizePath :: "jsval \<Rightarrow> jsval res" where
  "normalizePath path =
     ebind (boundary_assertPlainRecord path ''boundary path'') (\<lambda>_.
       Inr (JObj
         ([(''path_id'', JStr (js_String (coals path [''path_id''] (JStr [])))),
           (''surface'', JStr (js_String (coals path [''surface''] (JStr [])))),
           (''classification'', JStr (js_String (coals path [''classification''] (JStr []))))] @
          push_if (getp path ''adapter'' \<noteq> JUndef) (''adapter'', JStr (js_String (getp path ''adapter''))) @
          push_if (getp path ''reason'' \<noteq> JUndef) (''reason'', JStr (js_String (getp path ''reason''))) @
          push_if (getp path ''coverage_receipt_required'' \<noteq> JUndef)
            (''coverage_receipt_required'', JBool (truthy (getp path ''coverage_receipt_required''))))))"

text \<open>\<open>v.map(f)\<close>: throws unless \<open>v\<close> is an array, keeps the holes of a sparse array.\<close>

definition js_map :: "(jsval \<Rightarrow> jsval res) \<Rightarrow> jsval \<Rightarrow> jsval list res" where
  "js_map f v =
     (case v of
        JArr xs \<Rightarrow> mapE (\<lambda>x. if x = JHole then Inr JHole else f x) xs
      | _ \<Rightarrow> Inl (TypeError ''map is not a function''))"

definition manifest_obj :: "string \<Rightarrow> string \<Rightarrow> string \<Rightarrow> jsval list \<Rightarrow> jsval" where
  "manifest_obj manifestId systemId createdAt paths = JObj
     [(''schema'', JStr MANIFEST_SCHEMA), (''manifest_id'', JStr manifestId), (''system_id'', JStr systemId),
      (''created_at'', JStr createdAt), (''paths'', JArr paths), (''default_action'', JStr DEFAULT_ACTION)]"

definition createBoundaryManifest :: "node \<Rightarrow> jsval \<Rightarrow> jsval res" where
  "createBoundaryManifest N options =
     ebind (boundary_assertPlainRecord options ''options'') (\<lambda>_.
     ebind (js_map normalizePath (coals options [''paths''] (JArr defaultBoundaryPaths))) (\<lambda>paths.
     let systemId = js_String (coals options [''systemId'', ''system_id''] (JStr ''local-boundary-sim''));
         createdAt = js_String (coals options [''createdAt'', ''created_at''] (JStr DEFAULT_CREATED_AT));
         given = pick options [''manifestId'', ''manifest_id'']
     in ebind (if nullish given
               then ebind (canonicalize (manifest_obj [] systemId createdAt paths)) (\<lambda>text.
                      emap (take 24) (sha256Hex N (JStr text)))
               else Inr (js_String given)) (\<lambda>manifestId.
        Inr (manifest_obj manifestId systemId createdAt paths))))"

section \<open>Verification\<close>

record manifest_check =
  mc_ok :: bool
  mc_status :: string
  mc_errors :: "string list"
  mc_warnings :: "string list"
  mc_hash :: jsval

record path_scan =
  ps_errors :: "string list"
  ps_seen :: "string list"
  ps_covered :: "string list"
  ps_broken :: bool
  ps_out_of_scope :: bool

text \<open>\<open>${v}\<close> throws on a symbol.\<close>

definition template :: "jsval \<Rightarrow> string res" where
  "template v = (if v = JSym then Inl (TypeError ''Cannot convert a Symbol value to a string'') else Inr (js_String v))"

definition allowed_root :: "string list" where
  "allowed_root = [''schema'', ''manifest_id'', ''system_id'', ''created_at'', ''paths'', ''default_action'']"

definition allowed_path :: "string list" where
  "allowed_path = [''path_id'', ''surface'', ''classification'', ''adapter'', ''reason'', ''coverage_receipt_required'']"

definition str_in :: "string list \<Rightarrow> jsval \<Rightarrow> bool" where
  "str_in xs v = (\<exists>s \<in> set xs. v = JStr s)"

definition tagged :: "bool \<Rightarrow> string \<Rightarrow> jsval \<Rightarrow> string list res" where
  "tagged b code who = (if b then emap (\<lambda>s. [code @ s]) (template who) else Inr [])"

definition scan_path :: "path_scan \<Rightarrow> nat \<times> jsval \<Rightarrow> path_scan res" where
  "scan_path st entry =
     (let i = fst entry; path = snd entry; idx = nat_to_string i
      in if \<not> isObject path \<or> isArray path then Inr (st\<lparr>ps_errors := ps_errors st @ [''PATH_NOT_OBJECT:'' @ idx]\<rparr>)
         else
          (let who = coal (getp path ''path_id'') (JInt (int i));
               unknown = map (\<lambda>k. ''UNKNOWN_PATH_PROPERTY:'' @ idx @ '':'' @ k) (filter (\<lambda>k. k \<notin> set allowed_path) (keys_of path));
               cls = getp path ''classification'';
               surface_ok = str_in SURFACES (getp path ''surface'');
               receipt = getp path ''coverage_receipt_required'';
               (id_errors, seen) =
                 (case getp path ''path_id'' of
                    JStr s \<Rightarrow> (if s = [] then ([''BAD_PATH_ID:'' @ idx], ps_seen st)
                             else if s \<in> set (ps_seen st) then ([''DUPLICATE_PATH_ID:'' @ s], ps_seen st)
                             else ([], set_add s (ps_seen st)))
                  | _ \<Rightarrow> ([''BAD_PATH_ID:'' @ idx], ps_seen st))
           in ebind (tagged (\<not> surface_ok) ''UNKNOWN_SURFACE:'' who) (\<lambda>e1.
              ebind (tagged (\<not> str_in CLASSIFICATIONS cls) ''UNKNOWN_CLASSIFICATION:'' who) (\<lambda>e2.
              ebind (tagged (receipt \<noteq> JUndef \<and> js_typeof receipt \<noteq> ''boolean'') ''BAD_COVERAGE_RECEIPT_REQUIRED:'' who) (\<lambda>e3.
              Inr \<lparr>ps_errors = ps_errors st @ unknown @ id_errors @ e1 @ e2 @ e3,
                   ps_seen = seen,
                   ps_covered = (if surface_ok then set_add (js_String (getp path ''surface'')) (ps_covered st) else ps_covered st),
                   ps_broken = (ps_broken st \<or> str_in [''broken'', ''fail_closed''] cls),
                   ps_out_of_scope = (ps_out_of_scope st \<or> cls = JStr ''declared_out_of_scope'')\<rparr>)))))"

definition root_errors :: "node \<Rightarrow> jsval \<Rightarrow> string list" where
  "root_errors N manifest =
     map (\<lambda>k. ''UNKNOWN_ROOT_PROPERTY:'' @ k) (filter (\<lambda>k. k \<notin> set allowed_root) (keys_of manifest)) @
     push_if (getp manifest ''schema'' \<noteq> JStr MANIFEST_SCHEMA) ''BAD_SCHEMA'' @
     push_if (case getp manifest ''manifest_id'' of JStr s \<Rightarrow> length s < 8 | _ \<Rightarrow> True) ''BAD_MANIFEST_ID'' @
     push_if (case getp manifest ''system_id'' of JStr s \<Rightarrow> length s < 1 | _ \<Rightarrow> True) ''BAD_SYSTEM_ID'' @
     push_if (case getp manifest ''created_at'' of JStr s \<Rightarrow> Date_parse N s = None | _ \<Rightarrow> True) ''BAD_CREATED_AT'' @
     push_if (getp manifest ''default_action'' \<noteq> JStr DEFAULT_ACTION) ''DEFAULT_ACTION_MUST_FAIL_UNKNOWN'' @
     push_if (case getp manifest ''paths'' of JArr xs \<Rightarrow> xs = [] | _ \<Rightarrow> True) ''PATHS_REQUIRED''"

definition scan_start :: "string list \<Rightarrow> path_scan" where
  "scan_start errors = \<lparr>ps_errors = errors, ps_seen = [], ps_covered = [], ps_broken = False, ps_out_of_scope = False\<rparr>"

definition check_of :: "path_scan \<Rightarrow> jsval \<Rightarrow> string list \<Rightarrow> manifest_check" where
  "check_of st hash errors = \<lparr>mc_ok = (errors = []),
     mc_status = (if errors \<noteq> [] \<or> ps_broken st then ''FAIL'' else if ps_out_of_scope st then ''NARROW_GO'' else ''PASS''),
     mc_errors = errors,
     mc_warnings = push_if (ps_broken st) ''BROKEN_PATH_DECLARED'' @ push_if (ps_out_of_scope st) ''OUT_OF_SCOPE_PATH_DECLARED'',
     mc_hash = hash\<rparr>"

definition verifyBoundaryManifest :: "node \<Rightarrow> jsval \<Rightarrow> manifest_check res" where
  "verifyBoundaryManifest N manifest =
     (if \<not> isObject manifest \<or> isArray manifest
      then Inr \<lparr>mc_ok = False, mc_status = ''FAIL'', mc_errors = [''MANIFEST_NOT_OBJECT''], mc_warnings = [], mc_hash = JNull\<rparr>
      else ebind (foldE scan_path (scan_start (root_errors N manifest))
                   (enumerate 0 (map element (elems (getp manifest ''paths''))))) (\<lambda>st.
           let errors = ps_errors st @ map (\<lambda>s. ''MISSING_SURFACE:'' @ s) (filter (\<lambda>s. s \<notin> set (ps_covered st)) SURFACES)
           in if errors = []
              then ebind (canonicalize manifest) (\<lambda>text. emap (\<lambda>h. check_of st (JStr h) errors) (sha256Hex N (JStr text)))
              else Inr (check_of st JNull errors)))"

section \<open>Classification of a path reference\<close>

record path_class =
  pc_known :: bool
  pc_classification :: jsval
  pc_fail_closed :: bool
  pc_canp :: jsval
  pc_verdict :: jsval
  pc_reason :: jsval
  pc_path :: "jsval option"
  pc_manifestErrors :: "string list option"

definition fail_closed :: "string \<Rightarrow> string list option \<Rightarrow> path_class" where
  "fail_closed reason errors =
     \<lparr>pc_known = False, pc_classification = JStr ''fail_closed'', pc_fail_closed = True, pc_canp = JStr ''UNKNOWN_BOUNDARY'',
      pc_verdict = JStr ''FAIL'', pc_reason = JStr reason, pc_path = None, pc_manifestErrors = errors\<rparr>"

definition canpByClassification :: props where
  "canpByClassification =
     [(''committed'', JStr ''COMMITTED_PATH''), (''blocked'', JStr ''BLOCKED_PATH''), (''declared_out_of_scope'', JStr ''OUT_OF_SCOPE''),
      (''broken'', JStr ''BROKEN_PATH''), (''fail_closed'', JStr ''UNKNOWN_BOUNDARY'')]"

definition verdictByClassification :: props where
  "verdictByClassification =
     [(''committed'', JStr ''PASS''), (''blocked'', JStr ''PASS''), (''declared_out_of_scope'', JStr ''NARROW_GO''),
      (''broken'', JStr ''FAIL''), (''fail_closed'', JStr ''FAIL'')]"

definition class_of :: "jsval \<Rightarrow> path_class" where
  "class_of path =
     (let cls = getp path ''classification''
      in \<lparr>pc_known = True, pc_classification = cls, pc_fail_closed = str_in [''broken'', ''fail_closed''] cls,
          pc_canp = obj_get canpByClassification (js_String cls), pc_verdict = obj_get verdictByClassification (js_String cls),
          pc_reason = coals path [''reason''] JNull, pc_path = Some path, pc_manifestErrors = None\<rparr>)"

definition non_empty :: "jsval \<Rightarrow> bool" where
  "non_empty v = (case v of JStr s \<Rightarrow> s \<noteq> [] | _ \<Rightarrow> False)"

definition classify_ref :: "jsval list \<Rightarrow> jsval \<Rightarrow> path_class" where
  "classify_ref paths ref =
     (if non_empty (getp ref ''path_id'') then
        (case filter (\<lambda>p. js_eq (getp p ''path_id'') (getp ref ''path_id'')) paths of
           [path] \<Rightarrow> if non_empty (getp ref ''surface'') \<and> \<not> js_eq (getp path ''surface'') (getp ref ''surface'')
                     then fail_closed ''AMBIGUOUS_PATH'' None else class_of path
         | matches \<Rightarrow> fail_closed (if matches = [] then ''UNCLASSIFIED_PATH'' else ''AMBIGUOUS_PATH'') None)
      else if non_empty (getp ref ''surface'') then
        (case filter (\<lambda>p. js_eq (getp p ''surface'') (getp ref ''surface'')) paths of
           [path] \<Rightarrow> class_of path
         | matches \<Rightarrow> fail_closed (if matches = [] then ''UNCLASSIFIED_PATH'' else ''AMBIGUOUS_PATH'') None)
      else fail_closed ''BAD_PATH_REF'' None)"

definition classifyBoundaryPath :: "node \<Rightarrow> jsval \<Rightarrow> jsval \<Rightarrow> path_class res" where
  "classifyBoundaryPath N manifest pathRef =
     ebind (verifyBoundaryManifest N manifest) (\<lambda>verification.
       if \<not> mc_ok verification
       then Inr (fail_closed (if ''MANIFEST_NOT_OBJECT'' \<in> set (mc_errors verification) then ''MISSING_OR_INVALID_MANIFEST''
                              else ''INVALID_MANIFEST'') (Some (mc_errors verification)))
       else let ref = (case pathRef of JStr s \<Rightarrow> JObj [(''path_id'', pathRef)] | _ \<Rightarrow> pathRef)
            in if \<not> isObject ref \<or> isArray ref then Inr (fail_closed ''BAD_PATH_REF'' None)
               else Inr (classify_ref (map element (elems (getp manifest ''paths''))) ref))"

section \<open>Simulation\<close>

definition scenario_obj :: "string \<Rightarrow> string \<Rightarrow> string \<Rightarrow> string \<Rightarrow> bool \<Rightarrow> props \<Rightarrow> jsval" where
  "scenario_obj scenario pathId canary bGotVia committed extra = JObj
     ([(''scenario'', JStr scenario), (''pathId'', JStr pathId), (''fact'', JStr canary), (''bGotVia'', JStr bGotVia),
       (''committed'', JBool committed)] @ extra)"

definition scenarioDefinitions :: "jsval list" where
  "scenarioDefinitions =
     [scenario_obj ''control never sent'' ''model_input:committed'' ''control-boundary-canary'' ''none'' False [],
      scenario_obj ''honest committed crossing'' ''model_input:committed'' ''honest-committed-canary'' ''committed_channel'' True [],
      scenario_obj ''scratchpad leak'' ''scratchpad:raw'' ''scratchpad-leak-canary'' ''scratchpad'' False [],
      scenario_obj ''tool-output leak'' ''tool_result:raw'' ''tool-output-leak-canary'' ''tool_result'' False [],
      scenario_obj ''clipboard leak'' ''clipboard:raw'' ''clipboard-leak-canary'' ''clipboard'' False [],
      scenario_obj ''log leak'' ''log:raw'' ''log-leak-canary'' ''log'' False [],
      scenario_obj ''file artifact leak'' ''file_write:raw'' ''file-artifact-leak-canary'' ''file_artifact'' False [],
      scenario_obj ''network callback leak'' ''network:callback'' ''network-callback-leak-canary'' ''network_callback'' False [],
      scenario_obj ''mitigated scratchpad route-through-channel'' ''scratchpad:committed'' ''mitigated-scratchpad-canary'' ''scratchpad_via_committed_channel'' True [],
      scenario_obj ''mitigated clipboard route-through-channel'' ''clipboard:committed'' ''mitigated-clipboard-canary'' ''clipboard_via_committed_channel'' True [],
      scenario_obj ''mitigated tool route-through-channel'' ''tool_result:committed'' ''mitigated-tool-canary'' ''tool_result_via_committed_channel'' True [],
      scenario_obj ''unknown provider route'' ''provider_native:tool_result'' ''unknown-provider-route-canary'' ''provider_native_tool'' False [],
      scenario_obj ''ambiguous tool surface route'' ''tool_result:*'' ''ambiguous-tool-surface-canary'' ''tool_surface'' False
        [(''pathRef'', JObj [(''surface'', JStr ''tool_result'')])],
      scenario_obj ''semantic/RAG paraphrase declared out-of-scope'' ''rag_retrieve:semantic'' ''semantic-rag-paraphrase-canary'' ''rag_paraphrase'' False
        [(''semantic'', JBool True)]]"

text \<open>The decision of a scenario: what the receiver got, whether the fact was committed, the class of the path.\<close>

definition decide :: "path_class \<Rightarrow> bool \<Rightarrow> bool \<Rightarrow> string \<times> string" where
  "decide c crossed bHasFact =
     (if \<not> pc_known c then (''UNKNOWN_BOUNDARY'', ''FAIL'')
      else if pc_classification c = JStr ''declared_out_of_scope'' then (''OUT_OF_SCOPE'', ''NARROW_GO'')
      else if pc_classification c = JStr ''blocked'' then
        (if bHasFact then (''FALSE_ASSURANCE'', ''FAIL'') else (''BLOCKED'', ''PASS''))
      else if crossed then (''CROSSED'', ''PASS'')
      else if bHasFact then (''FALSE_ASSURANCE'', ''FAIL'')
      else (''NEVER_CROSSED_COMMITTED_CHANNEL'', ''PASS''))"

definition evaluateScenario :: "node \<Rightarrow> jsval \<Rightarrow> jsval \<Rightarrow> jsval \<Rightarrow> (jsval \<times> jsval) res" where
  "evaluateScenario N manifest scenario options =
     ebind (getE scenario ''pathRef'') (\<lambda>pathRef.
     ebind (classifyBoundaryPath N manifest (coals scenario [''pathRef''] (getp scenario ''pathId''))) (\<lambda>c.
     ebind (factCommitment N (getp scenario ''fact'') (JObj
       [(''hmacKey'', getp options ''hmacKey''), (''runId'', getp options ''runId''), (''scenario'', getp scenario ''scenario'')])) (\<lambda>address.
     let bHasFact = (getp scenario ''bGotVia'' \<noteq> JStr ''none'');
         committedSet = (if truthy (getp scenario ''committed'') then [address] else []);
         (canp, verdict) = decide c (address \<in> set committedSet) bHasFact
     in Inr
       (JObj [(''scenario'', getp scenario ''scenario''), (''pathId'', getp scenario ''pathId''), (''bGotVia'', getp scenario ''bGotVia''),
              (''classification'', pc_classification c), (''failClosed'', JBool (verdict = ''FAIL'' \<or> pc_fail_closed c)),
              (''canp'', JStr canp), (''verdict'', JStr verdict), (''reason'', pc_reason c)],
        JObj [(''scenario'', getp scenario ''scenario''), (''fact_address'', JStr address), (''path_id'', getp scenario ''pathId'')]))))"

definition js_map_pair :: "(jsval \<Rightarrow> (jsval \<times> jsval) res) \<Rightarrow> jsval \<Rightarrow> (jsval \<times> jsval) list res" where
  "js_map_pair f v =
     (case v of
        JArr xs \<Rightarrow> mapE (\<lambda>x. if x = JHole then Inr (JHole, JHole) else f x) xs
      | _ \<Rightarrow> Inl (TypeError ''map is not a function''))"

definition simulation_status :: "manifest_check \<Rightarrow> jsval list \<Rightarrow> string" where
  "simulation_status v rows =
     (if \<not> mc_ok v \<or> list_ex (\<lambda>row. getp row ''verdict'' = JStr ''FAIL'') rows then ''FAIL''
      else if list_ex (\<lambda>row. getp row ''verdict'' = JStr ''NARROW_GO'') rows \<or> mc_status v = ''NARROW_GO'' then ''NARROW_GO''
      else ''PASS'')"

definition honesty_text :: string where
  "honesty_text = ''This report proves exact facts about declared Enigma-instrumented paths. It does not prove provider deletion, model forgetting, semantic forgetting, model-weight deletion, or absence of uninstrumented provider-internal side channels.''"

definition runBoundarySimulation :: "node \<Rightarrow> jsval \<Rightarrow> jsval res" where
  "runBoundarySimulation N options =
     ebind (boundary_assertPlainRecord options ''options'') (\<lambda>_.
     let runId = js_String (coals options [''runId'', ''run_id''] (JStr ''boundary-sim-local''));
         hmacKey = js_String (coals options [''hmacKey'', ''hmac_key''] (JStr DEFAULT_HMAC_KEY))
     in ebind (if hasOwn options ''manifest'' then Inr (getp options ''manifest'')
               else createBoundaryManifest N (JObj [(''systemId'', getp options ''systemId''), (''createdAt'', getp options ''createdAt'')])) (\<lambda>manifest.
        ebind (verifyBoundaryManifest N manifest) (\<lambda>v.
        ebind (js_map_pair (\<lambda>scenario. evaluateScenario N manifest scenario (JObj [(''hmacKey'', JStr hmacKey), (''runId'', JStr runId)]))
                 (coals options [''scenarios''] (JArr scenarioDefinitions))) (\<lambda>evaluated.
        let rows = map fst evaluated; status = simulation_status v rows
        in Inr (JObj
             [(''schema'', JStr ''enigma.boundary_simulation.v1''), (''run_id'', JStr runId), (''manifest_hash'', mc_hash v),
              (''manifest_status'', JStr (mc_status v)), (''rows'', JArr rows), (''status'', JStr status),
              (''finalStatus'', JStr status), (''commitments'', JArr (map snd evaluated)), (''honesty_text'', JStr honesty_text)])))))"

section \<open>Well-formed manifests\<close>

definition path_ok :: "jsval \<Rightarrow> bool" where
  "path_ok p \<longleftrightarrow> isObject p \<and> \<not> isArray p \<and> set (keys_of p) \<subseteq> set allowed_path \<and> non_empty (getp p ''path_id'')
     \<and> str_in SURFACES (getp p ''surface'') \<and> str_in CLASSIFICATIONS (getp p ''classification'')
     \<and> (getp p ''coverage_receipt_required'' = JUndef \<or> js_typeof (getp p ''coverage_receipt_required'') = ''boolean'')"

definition pid :: "jsval \<Rightarrow> string" where
  "pid p = js_String (getp p ''path_id'')"

definition surface_of :: "jsval \<Rightarrow> string" where
  "surface_of p = js_String (getp p ''surface'')"

definition broken_path :: "jsval \<Rightarrow> bool" where
  "broken_path p = str_in [''broken'', ''fail_closed''] (getp p ''classification'')"

definition manifest_wf :: "node \<Rightarrow> jsval \<Rightarrow> jsval list \<Rightarrow> bool" where
  "manifest_wf N m paths \<longleftrightarrow> isObject m \<and> \<not> isArray m \<and> set (keys_of m) \<subseteq> set allowed_root
     \<and> getp m ''schema'' = JStr MANIFEST_SCHEMA
     \<and> (\<exists>s. getp m ''manifest_id'' = JStr s \<and> 8 \<le> length s) \<and> (\<exists>s. getp m ''system_id'' = JStr s \<and> s \<noteq> [])
     \<and> (\<exists>s. getp m ''created_at'' = JStr s \<and> Date_parse N s \<noteq> None) \<and> getp m ''default_action'' = JStr DEFAULT_ACTION
     \<and> getp m ''paths'' = JArr paths \<and> paths \<noteq> [] \<and> (\<forall>p \<in> set paths. path_ok p) \<and> distinct (map pid paths)
     \<and> set SURFACES \<subseteq> surface_of ` set paths"

lemma tagged_Inr: "tagged b code who = Inr e \<Longrightarrow> e = [] \<longleftrightarrow> \<not> b"
  by (auto simp: tagged_def emap_Inr_iff split: if_splits)

lemma tagged_Nil [simp]: "tagged False code who = Inr []"
  by (simp add: tagged_def)

definition scan_next :: "jsval \<Rightarrow> path_scan \<Rightarrow> path_scan" where
  "scan_next x st = st\<lparr>ps_seen := set_add (pid x) (ps_seen st), ps_covered := set_add (surface_of x) (ps_covered st),
     ps_broken := (ps_broken st \<or> broken_path x),
     ps_out_of_scope := (ps_out_of_scope st \<or> getp x ''classification'' = JStr ''declared_out_of_scope'')\<rparr>"

lemma scan_path_iff:
  "scan_path st (i, x) = Inr st1 \<and> ps_errors st1 = []
     \<longleftrightarrow> ps_errors st = [] \<and> path_ok x \<and> pid x \<notin> set (ps_seen st) \<and> st1 = scan_next x st"
proof (cases "isObject x \<and> \<not> isArray x")
  case True
  show ?thesis
  proof (cases "getp x ''path_id''")
    case (JStr s)
    show ?thesis
      using True JStr
      by (auto simp: scan_path_def Let_def ebind_Inr_iff path_ok_def pid_def non_empty_def scan_next_def surface_of_def broken_path_def
          filter_empty_conv tagged_Inr subset_iff split: if_splits)
  qed (use True in \<open>auto simp: scan_path_def Let_def ebind_Inr_iff path_ok_def non_empty_def\<close>)
qed (auto simp: scan_path_def path_ok_def)

lemma scan_paths_iff:
  "foldE scan_path st (enumerate n xs) = Inr st1 \<and> ps_errors st1 = []
     \<longleftrightarrow> ps_errors st = [] \<and> (\<forall>x \<in> set xs. path_ok x) \<and> distinct (map pid xs) \<and> pid ` set xs \<inter> set (ps_seen st) = {}
       \<and> st1 = fold scan_next xs st"
proof (induction xs arbitrary: st n)
  case (Cons x xs)
  let ?R = "\<lambda>s. (\<forall>x \<in> set xs. path_ok x) \<and> distinct (map pid xs) \<and> pid ` set xs \<inter> set (ps_seen s) = {} \<and> st1 = fold scan_next xs s"
  have "foldE scan_path st (enumerate n (x # xs)) = Inr st1 \<and> ps_errors st1 = []
     \<longleftrightarrow> (\<exists>s. scan_path st (n, x) = Inr s \<and> (foldE scan_path s (enumerate (Suc n) xs) = Inr st1 \<and> ps_errors st1 = []))"
    by (auto simp: ebind_Inr_iff)
  also have "\<dots> \<longleftrightarrow> (\<exists>s. (scan_path st (n, x) = Inr s \<and> ps_errors s = []) \<and> ?R s)"
    by (simp only: Cons.IH conj_assoc)
  also have "\<dots> \<longleftrightarrow> (ps_errors st = [] \<and> path_ok x \<and> pid x \<notin> set (ps_seen st)) \<and> ?R (scan_next x st)"
    by (simp only: scan_path_iff conj_assoc ex_simps simp_thms)
  also have "set (ps_seen (scan_next x st)) = insert (pid x) (set (ps_seen st))" by (simp add: scan_next_def)
  finally show ?case by auto
qed auto

lemma fold_scan_next:
  "set (ps_covered (fold scan_next xs st)) = surface_of ` set xs \<union> set (ps_covered st)"
  "ps_broken (fold scan_next xs st) \<longleftrightarrow> ps_broken st \<or> (\<exists>x \<in> set xs. broken_path x)"
  "ps_out_of_scope (fold scan_next xs st) \<longleftrightarrow> ps_out_of_scope st \<or> (\<exists>x \<in> set xs. getp x ''classification'' = JStr ''declared_out_of_scope'')"
  "ps_errors (fold scan_next xs st) = ps_errors st"
  by (induction xs arbitrary: st) (auto simp: scan_next_def)

lemma not_case_str: "\<not> (case v of JStr s \<Rightarrow> P s | _ \<Rightarrow> True) \<longleftrightarrow> (\<exists>s. v = JStr s \<and> \<not> P s)"
  by (cases v) simp_all

lemma not_case_arr: "\<not> (case v of JArr s \<Rightarrow> P s | _ \<Rightarrow> True) \<longleftrightarrow> (\<exists>s. v = JArr s \<and> \<not> P s)"
  by (cases v) simp_all

lemma root_errors_Nil:
  "root_errors N m = [] \<longleftrightarrow> set (keys_of m) \<subseteq> set allowed_root
     \<and> getp m ''schema'' = JStr MANIFEST_SCHEMA
     \<and> (\<exists>s. getp m ''manifest_id'' = JStr s \<and> 8 \<le> length s) \<and> (\<exists>s. getp m ''system_id'' = JStr s \<and> s \<noteq> [])
     \<and> (\<exists>s. getp m ''created_at'' = JStr s \<and> Date_parse N s \<noteq> None) \<and> getp m ''default_action'' = JStr DEFAULT_ACTION
     \<and> (\<exists>xs. getp m ''paths'' = JArr xs \<and> xs \<noteq> [])"
  unfolding root_errors_def append_is_Nil_conv push_if_Nil map_is_Nil_conv filter_empty_conv not_case_str not_case_arr
  by (simp add: not_less subset_iff Ball_def)

lemma path_ok_element [simp]: "path_ok (element x) \<longleftrightarrow> path_ok x" and element_path: "path_ok x \<Longrightarrow> element x = x"
  by (auto simp: element_def path_ok_def)

lemma mc_ok_check_of [simp]: "mc_ok (check_of st h e) \<longleftrightarrow> e = []"
  by (simp add: check_of_def)

lemma verify_accepts:
  assumes "isObject m" "\<not> isArray m"
  shows "verifyBoundaryManifest N m = Inr v \<and> mc_ok v
    \<longleftrightarrow> (\<exists>st c. (foldE scan_path (scan_start (root_errors N m)) (enumerate 0 (map element (elems (getp m ''paths'')))) = Inr st \<and> ps_errors st = [])
      \<and> set SURFACES \<subseteq> set (ps_covered st) \<and> canonicalize m = Inr c \<and> v = check_of st (JStr (sha256Str N c)) [])"
proof (cases "foldE scan_path (scan_start (root_errors N m)) (enumerate 0 (map element (elems (getp m ''paths''))))")
  case (Inr st)
  let ?e = "ps_errors st @ map (\<lambda>s. ''MISSING_SURFACE:'' @ s) (filter (\<lambda>s. s \<notin> set (ps_covered st)) SURFACES)"
  have e: "?e = [] \<longleftrightarrow> ps_errors st = [] \<and> set SURFACES \<subseteq> set (ps_covered st)" by (auto simp: filter_empty_conv)
  show ?thesis
  proof (cases "?e = []")
    case True
    with assms Inr e show ?thesis
      by (cases "canonicalize m") (auto simp: verifyBoundaryManifest_def Let_def)
  next
    case False
    with assms Inr have "verifyBoundaryManifest N m = Inr (check_of st JNull ?e)"
      by (simp only: verifyBoundaryManifest_def Let_def ebind_simps simp_thms if_False)
    with False e Inr show ?thesis by auto
  qed
qed (use assms in \<open>simp add: verifyBoundaryManifest_def\<close>)

lemma scan_wf:
  assumes "isObject m" "\<not> isArray m"
  shows "(\<exists>st. (foldE scan_path (scan_start (root_errors N m)) (enumerate 0 (map element (elems (getp m ''paths'')))) = Inr st \<and> ps_errors st = [])
      \<and> set SURFACES \<subseteq> set (ps_covered st)) \<longleftrightarrow> (\<exists>paths. manifest_wf N m paths)"
proof (cases "root_errors N m = []")
  case errs: True
  then obtain xs where xs: "getp m ''paths'' = JArr xs" "xs \<noteq> []" unfolding root_errors_Nil by blast
  have wf: "manifest_wf N m paths \<longleftrightarrow> paths = xs \<and> (\<forall>x \<in> set xs. path_ok x) \<and> distinct (map pid xs) \<and> set SURFACES \<subseteq> surface_of ` set xs" for paths
    using errs [unfolded root_errors_Nil] assms xs unfolding manifest_wf_def by auto
  show ?thesis
  proof (cases "\<forall>x \<in> set xs. path_ok x")
    case ok: True
    then have "map element (elems (getp m ''paths'')) = xs" by (simp add: xs elems_def map_idI element_path)
    then show ?thesis unfolding scan_paths_iff wf using errs ok by (auto simp: fold_scan_next scan_start_def)
  qed (auto simp: scan_paths_iff wf xs elems_def)
next
  case False
  then have "\<not> manifest_wf N m paths" for paths unfolding root_errors_Nil manifest_wf_def by blast
  with False show ?thesis unfolding scan_paths_iff by (simp add: scan_start_def)
qed

lemma verify_wf:
  assumes "verifyBoundaryManifest N m = Inr v"
  shows "mc_ok v \<longleftrightarrow> (\<exists>paths. manifest_wf N m paths)"
proof (cases "isObject m \<and> \<not> isArray m")
  case True
  then have obj: "isObject m" "\<not> isArray m" by simp_all
  show ?thesis
  proof
    assume "mc_ok v"
    with assms verify_accepts [OF obj, of N v] scan_wf [OF obj, of N] show "\<exists>paths. manifest_wf N m paths" by blast
  next
    assume "\<exists>paths. manifest_wf N m paths"
    then obtain st where st: "foldE scan_path (scan_start (root_errors N m)) (enumerate 0 (map element (elems (getp m ''paths'')))) = Inr st"
      "ps_errors st = []" "set SURFACES \<subseteq> set (ps_covered st)" using scan_wf [OF obj, of N] by blast
    then have "filter (\<lambda>s. s \<notin> set (ps_covered st)) SURFACES = []" by (auto simp: filter_empty_conv)
    with st assms obj show "mc_ok v" by (auto simp: verifyBoundaryManifest_def Let_def ebind_Inr_iff emap_Inr_iff)
  qed
qed (use assms in \<open>auto simp: verifyBoundaryManifest_def manifest_wf_def\<close>)

interpretation bm: verifier "\<lambda>_. verifyBoundaryManifest N" mc_ok "\<lambda>_ m. \<exists>paths. manifest_wf N m paths" for N
  by unfold_locales (simp add: verify_wf)

lemma verify_ok_iff:
  "(\<exists>v. verifyBoundaryManifest N m = Inr v \<and> mc_ok v) \<longleftrightarrow> (\<exists>paths. manifest_wf N m paths) \<and> is_ok (canonicalize m)"
proof (cases "isObject m \<and> \<not> isArray m")
  case True
  then have obj: "isObject m" "\<not> isArray m" by simp_all
  show ?thesis unfolding verify_accepts [OF obj] scan_wf [OF obj, symmetric] is_ok_iff by blast
qed (auto simp: verifyBoundaryManifest_def manifest_wf_def)

text \<open>
  C10. \<open>verifyBoundaryManifest\<close> accepts exactly the well-formed manifests that have a canonical text: the
  six known properties with valid values, a non-empty list of known paths with distinct identifiers,
  every surface covered.
\<close>

theorem verifyBoundaryManifest_ok_iff:
  "(\<exists>v. verifyBoundaryManifest N m = Inr v \<and> mc_ok v) \<longleftrightarrow> (\<exists>paths. manifest_wf N m paths) \<and> is_ok (canonicalize m)"
  by (rule verify_ok_iff)

section \<open>Fail-closed classification\<close>

text \<open>The reference names a path: by identifier (and surface, when given), or by surface alone.\<close>

definition refers :: "jsval \<Rightarrow> jsval \<Rightarrow> bool" where
  "refers ref p \<longleftrightarrow>
     (if non_empty (getp ref ''path_id'') then getp p ''path_id'' = getp ref ''path_id''
        \<and> (non_empty (getp ref ''surface'') \<longrightarrow> getp p ''surface'' = getp ref ''surface'')
      else non_empty (getp ref ''surface'') \<and> getp p ''surface'' = getp ref ''surface'')"

lemma js_eq_non_empty: "non_empty w \<Longrightarrow> js_eq v w \<longleftrightarrow> v = w"
  by (cases w) (auto simp: non_empty_def)

lemma filter_unique:
  assumes "distinct xs"
  shows "filter P xs = [p] \<longleftrightarrow> {x \<in> set xs. P x} = {p}"
proof
  assume "filter P xs = [p]"
  then have "set (filter P xs) = {p}" by simp
  then show "{x \<in> set xs. P x} = {p}" by simp
next
  assume "{x \<in> set xs. P x} = {p}"
  then have p: "set (filter P xs) = {p}" by simp
  then have "length (filter P xs) = 1" using assms distinct_card [of "filter P xs"] by simp
  with p show "filter P xs = [p]" by (cases "filter P xs") auto
qed

lemma manifest_wf_distinct: "manifest_wf N m paths \<Longrightarrow> distinct paths"
  by (simp add: manifest_wf_def distinct_map)

lemma class_of_simps [simp]: "pc_known (class_of p)" "pc_classification (class_of p) = getp p ''classification''"
  by (simp_all add: class_of_def Let_def)

lemma fail_closed_simps [simp]: "\<not> pc_known (fail_closed r e)" "pc_fail_closed (fail_closed r e)" "pc_verdict (fail_closed r e) = JStr ''FAIL''"
  by (simp_all add: fail_closed_def)

lemma class_of_verdict:
  assumes "path_ok p"
  shows "pc_verdict (class_of p) = JStr ''PASS'' \<longleftrightarrow> str_in [''committed'', ''blocked''] (getp p ''classification'')"
    "pc_fail_closed (class_of p) \<longleftrightarrow> pc_verdict (class_of p) = JStr ''FAIL''"
  using assms by (auto simp: path_ok_def str_in_def CLASSIFICATIONS_def class_of_def Let_def verdictByClassification_def obj_get_Cons)

lemma classify_ref_cases:
  assumes "distinct paths" and inj: "inj_on pid (set paths)"
  shows "(\<exists>p. {q \<in> set paths. refers ref q} = {p} \<and> classify_ref paths ref = class_of p)
    \<or> (\<nexists>p. {q \<in> set paths. refers ref q} = {p}) \<and> (\<exists>r. classify_ref paths ref = fail_closed r None)"
proof (cases "non_empty (getp ref ''path_id'')")
  case True
  note id = js_eq_non_empty [OF True]
  show ?thesis
  proof (cases "\<exists>p. filter (\<lambda>p. getp p ''path_id'' = getp ref ''path_id'') paths = [p]")
    case one: True
    then obtain p where p: "filter (\<lambda>p. getp p ''path_id'' = getp ref ''path_id'') paths = [p]" ..
    then have "{q \<in> set paths. getp q ''path_id'' = getp ref ''path_id''} = {p}" by (simp only: filter_unique [OF assms(1)])
    then have "{q \<in> set paths. refers ref q} = {q. q = p \<and> (non_empty (getp ref ''surface'') \<longrightarrow> getp p ''surface'' = getp ref ''surface'')}"
      using True by (auto simp: refers_def)
    then show ?thesis using True p
      by (cases "non_empty (getp ref ''surface'') \<and> getp p ''surface'' \<noteq> getp ref ''surface''")
        (auto simp: classify_ref_def id js_eq_non_empty)
  next
    case False
    have "getp q ''path_id'' \<noteq> getp ref ''path_id''" if "q \<in> set paths" for q
    proof
      assume q: "getp q ''path_id'' = getp ref ''path_id''"
      then have "{p \<in> set paths. getp p ''path_id'' = getp ref ''path_id''} = {q}"
        using that inj_onD [OF inj, of _ q] by (auto simp: pid_def simp del: js_String.simps)
      then have "filter (\<lambda>p. getp p ''path_id'' = getp ref ''path_id'') paths = [q]" by (simp only: filter_unique [OF assms(1)])
      with False show False by blast
    qed
    then have none: "filter (\<lambda>p. getp p ''path_id'' = getp ref ''path_id'') paths = []" "{q \<in> set paths. refers ref q} = {}"
      using True by (auto simp: refers_def filter_empty_conv)
    then show ?thesis using True by (auto simp: classify_ref_def id)
  qed
next
  case False
  show ?thesis
  proof (cases "non_empty (getp ref ''surface'')")
    case True
    let ?f = "filter (\<lambda>p. getp p ''surface'' = getp ref ''surface'') paths"
    have "{q \<in> set paths. refers ref q} = {p} \<longleftrightarrow> ?f = [p]" for p
      using False True by (simp add: refers_def filter_unique [OF assms(1)])
    with False True show ?thesis
      by (cases ?f; cases "tl ?f") (auto simp: classify_ref_def js_eq_non_empty)
  qed (use False in \<open>auto simp: classify_ref_def refers_def\<close>)
qed

text \<open>
  C28. Classification is fail-closed: a path passes exactly when the manifest is well formed and the
  reference names one of its paths and no other, and that path is committed or blocked.  Whatever
  else is asked is not passed, and a result is marked fail-closed exactly when its verdict is FAIL.
\<close>

theorem classifyBoundaryPath_fail_closed:
  assumes "classifyBoundaryPath N m pathRef = Inr c" and "ref = (case pathRef of JStr s \<Rightarrow> JObj [(''path_id'', pathRef)] | _ \<Rightarrow> pathRef)"
  shows "(pc_verdict c = JStr ''PASS'' \<longleftrightarrow> (\<exists>paths p. manifest_wf N m paths \<and> {q \<in> set paths. refers ref q} = {p}
            \<and> str_in [''committed'', ''blocked''] (getp p ''classification'')))
       \<and> (pc_fail_closed c \<longleftrightarrow> pc_verdict c = JStr ''FAIL'')"
proof -
  obtain v where v: "verifyBoundaryManifest N m = Inr v" using assms(1) by (auto simp: classifyBoundaryPath_def ebind_Inr_iff)
  show ?thesis
  proof (cases "\<exists>paths. manifest_wf N m paths")
    case False
    then show ?thesis using assms(1) v bm.verdict [OF v] by (auto simp: classifyBoundaryPath_def)
  next
    case True
    then obtain paths where wf: "manifest_wf N m paths" ..
    have only: "manifest_wf N m ps \<longleftrightarrow> ps = paths" for ps using wf by (auto simp: manifest_wf_def)
    have "map element (elems (getp m ''paths'')) = paths" using wf by (simp add: manifest_wf_def elems_def map_idI element_path)
    then have c: "c = (if \<not> isObject ref \<or> isArray ref then fail_closed ''BAD_PATH_REF'' None else classify_ref paths ref)"
      using assms(1) v bm.verdict [OF v] True by (auto simp: classifyBoundaryPath_def Let_def assms(2) [symmetric] split: if_splits)
    have inj: "inj_on pid (set paths)" "\<forall>p \<in> set paths. path_ok p" using wf by (simp_all add: manifest_wf_def distinct_map)
    show ?thesis
    proof (cases "\<not> isObject ref \<or> isArray ref")
      case True
      then have "{q \<in> set paths. refers ref q} = {}" by (cases ref) (auto simp: refers_def non_empty_def)
      with True show ?thesis by (auto simp: c only)
    next
      case False
      with c have c: "c = classify_ref paths ref" by simp
      from classify_ref_cases [OF manifest_wf_distinct [OF wf] inj(1), of ref] show ?thesis
      proof (elim disjE exE conjE)
        fix p
        assume p: "{q \<in> set paths. refers ref q} = {p}" "classify_ref paths ref = class_of p"
        then have "path_ok p" using inj(2) by blast
        with p show ?thesis by (simp add: c only class_of_verdict)
      next
        fix r
        assume "\<nexists>p. {q \<in> set paths. refers ref q} = {p}" "classify_ref paths ref = fail_closed r None"
        then show ?thesis by (simp add: c only)
      qed
    qed
  qed
qed

section \<open>The default manifest\<close>

lemma props_simps [simp]: "keys_of (JObj ps) = map fst ps"
  by (simp add: keys_of_def)

lemma committed_path_ok: "s \<in> set SURFACES \<Longrightarrow> path_ok (committed_path s)"
  by (auto simp: path_ok_def committed_path_def allowed_path_def obj_get_Cons non_empty_def str_in_def CLASSIFICATIONS_def)

lemma other_path_ok: "s \<in> set SURFACES \<Longrightarrow> c \<in> set CLASSIFICATIONS \<Longrightarrow> path_ok (other_path s t c r)"
  by (auto simp: path_ok_def other_path_def allowed_path_def obj_get_Cons non_empty_def str_in_def)

lemma path_fields [simp]:
  "pid (committed_path s) = s @ '':committed''" "surface_of (committed_path s) = s"
  "pid (other_path s t c r) = s @ '':'' @ t" "surface_of (other_path s t c r) = s"
  by (simp_all add: pid_def surface_of_def committed_path_def other_path_def obj_get_Cons)

lemma default_paths_ok: "\<forall>p \<in> set defaultBoundaryPaths. path_ok p"
  unfolding defaultBoundaryPaths_def
  by (simp only: list.set ball_simps simp_thms)
    (intro conjI; (rule committed_path_ok | rule other_path_ok); simp add: SURFACES_def CLASSIFICATIONS_def)

lemma default_paths_distinct: "distinct (map pid defaultBoundaryPaths)"
  by (simp add: defaultBoundaryPaths_def)

lemma default_paths_cover: "set SURFACES \<subseteq> surface_of ` set defaultBoundaryPaths"
  by (simp add: defaultBoundaryPaths_def SURFACES_def)

lemma normalizePath_default: "normalizePath (committed_path s) = Inr (committed_path s)" "normalizePath (other_path s t c r) = Inr (other_path s t c r)"
  by (simp_all add: normalizePath_def committed_path_def other_path_def boundary_assertPlainRecord_def obj_get_Cons)

lemma default_paths_normal: "js_map normalizePath (JArr defaultBoundaryPaths) = Inr defaultBoundaryPaths"
proof -
  have "\<forall>x \<in> set defaultBoundaryPaths. x \<noteq> JHole \<and> normalizePath x = Inr x"
    unfolding defaultBoundaryPaths_def by (simp add: normalizePath_default) (simp add: committed_path_def other_path_def)
  then have "mapE (\<lambda>x. if x = JHole then Inr JHole else normalizePath x) defaultBoundaryPaths = mapE (\<lambda>x. Inr x) defaultBoundaryPaths"
    by (intro mapE_cong) auto
  then show ?thesis by (simp add: js_map_def)
qed

lemma default_paths_nonempty: "defaultBoundaryPaths \<noteq> []"
  by (simp add: defaultBoundaryPaths_def)

lemma manifest_obj_get [simp]:
  "getp (manifest_obj i sys at ps) ''schema'' = JStr MANIFEST_SCHEMA" "getp (manifest_obj i sys at ps) ''manifest_id'' = JStr i"
  "getp (manifest_obj i sys at ps) ''system_id'' = JStr sys" "getp (manifest_obj i sys at ps) ''created_at'' = JStr at"
  "getp (manifest_obj i sys at ps) ''paths'' = JArr ps" "getp (manifest_obj i sys at ps) ''default_action'' = JStr DEFAULT_ACTION"
  "isObject (manifest_obj i sys at ps)" "\<not> isArray (manifest_obj i sys at ps)" "set (keys_of (manifest_obj i sys at ps)) \<subseteq> set allowed_root"
  by (simp_all add: manifest_obj_def obj_get_Cons allowed_root_def)

lemma manifest_obj_wf:
  assumes "8 \<le> length i" "sys \<noteq> []" "Date_parse N at \<noteq> None"
  shows "manifest_wf N (manifest_obj i sys at defaultBoundaryPaths) defaultBoundaryPaths"
  unfolding manifest_wf_def
  using assms by (simp add: default_paths_ok default_paths_distinct default_paths_cover default_paths_nonempty)

text \<open>The canonical text of a manifest whose paths have one.\<close>

lemma default_path_jsonable: "jsonable (committed_path s)" "jsonable (other_path s t c r)"
  by (simp_all add: committed_path_def other_path_def)

lemma manifest_obj_jsonable: "jsonable (manifest_obj i sys at defaultBoundaryPaths)"
  by (simp add: manifest_obj_def defaultBoundaryPaths_def default_path_jsonable)

lemma default_date: "Date_parse N DEFAULT_CREATED_AT \<noteq> None"
proof -
  have "DEFAULT_CREATED_AT = pad4 1970 @ iso_tail 1 1 0 0 0 0"
    by (simp add: DEFAULT_CREATED_AT_def pad4_def pad3_def pad2_def iso_tail_def char_eq_iff)
  then show ?thesis using Date_parse_text [of 1970 1 1 0 0 0 0 N] by simp
qed

lemma default_manifest:
  assumes "hash_hex N" and "isObject options" "\<not> isArray options" "nullish (getp options ''paths'')"
    "nullish (pick options [''manifestId'', ''manifest_id''])"
    and sys: "sys = js_String (coals options [''systemId'', ''system_id''] (JStr ''local-boundary-sim''))" "sys \<noteq> []"
    and at: "at = js_String (coals options [''createdAt'', ''created_at''] (JStr DEFAULT_CREATED_AT))" "Date_parse N at \<noteq> None"
  shows "\<exists>m v. createBoundaryManifest N options = Inr m
     \<and> manifest_wf N m defaultBoundaryPaths \<and> verifyBoundaryManifest N m = Inr v \<and> mc_ok v \<and> mc_status v = ''FAIL''"
proof -
  let ?m = "\<lambda>i. manifest_obj i sys at defaultBoundaryPaths"
  obtain t where t: "canonicalize (?m []) = Inr t" using canonicalize_pr [OF manifest_obj_jsonable] by (auto simp: canonicalize_def)
  let ?i = "take 24 (sha256Str N t)"
  have len: "8 \<le> length ?i" using hash_hexD [OF assms(1), of t] by simp
  have "coals options [''paths''] (JArr defaultBoundaryPaths) = JArr defaultBoundaryPaths" using assms(4) by (simp add: coal_def)
  then have m: "createBoundaryManifest N options = Inr (?m ?i)"
    using t assms(2-5) by (simp add: createBoundaryManifest_def boundary_assertPlainRecord_def default_paths_normal sys(1) [symmetric] at(1) [symmetric]
        del: coals.simps pick.simps)
  have wf: "manifest_wf N (?m ?i) defaultBoundaryPaths" by (rule manifest_obj_wf [OF len sys(2) at(2)])
  moreover have "is_ok (canonicalize (?m ?i))" using canonicalize_pr [OF manifest_obj_jsonable] by (simp add: canonicalize_def)
  ultimately obtain v where v: "verifyBoundaryManifest N (?m ?i) = Inr v \<and> mc_ok v" using verify_ok_iff by blast
  then obtain st c where st: "foldE scan_path (scan_start (root_errors N (?m ?i))) (enumerate 0 (map element (elems (JArr defaultBoundaryPaths)))) = Inr st \<and> ps_errors st = []"
    and vst: "v = check_of st (JStr (sha256Str N c)) []" by (auto simp: verify_accepts)
  have "map element (elems (JArr defaultBoundaryPaths)) = defaultBoundaryPaths"
    using default_paths_ok by (simp add: elems_def map_idI element_path)
  with st have "ps_broken st \<longleftrightarrow> (\<exists>x \<in> set defaultBoundaryPaths. broken_path x)"
    unfolding scan_paths_iff by (simp add: fold_scan_next scan_start_def)
  also have "\<dots>"
    by (rule bexI [of _ "other_path ''log'' ''raw'' ''broken'' ''Logs can leak exact facts unless blocked or committed.''"])
      (simp_all add: broken_path_def other_path_def [of "''log''"] obj_get_Cons str_in_def defaultBoundaryPaths_def)
  finally have "mc_status v = ''FAIL''" by (simp add: vst check_of_def)
  with m wf v show ?thesis by blast
qed

text \<open>
  C29. Default manifests: called with options that give neither paths nor an identifier, a system name that
  is not empty (or none) and a creation date that parses (or none), \<open>createBoundaryManifest\<close> returns a manifest with
  the default paths that is well formed and that \<open>verifyBoundaryManifest\<close> accepts with the status
  FAIL, because the default paths declare broken ones.
\<close>

theorem createBoundaryManifest_default:
  assumes "hash_hex N" and "isObject options" and "\<not> isArray options" and "nullish (getp options ''paths'')"
    and "nullish (pick options [''manifestId'', ''manifest_id''])"
    and "js_String (coals options [''systemId'', ''system_id''] (JStr ''local-boundary-sim'')) \<noteq> []"
    and "Date_parse N (js_String (coals options [''createdAt'', ''created_at''] (JStr DEFAULT_CREATED_AT))) \<noteq> None"
  shows "\<exists>m v. createBoundaryManifest N options = Inr m
     \<and> manifest_wf N m defaultBoundaryPaths \<and> verifyBoundaryManifest N m = Inr v \<and> mc_ok v \<and> mc_status v = ''FAIL''"
  by (rule default_manifest [OF assms(1-5) refl assms(6) refl assms(7)])

theorem createBoundaryManifest_default_witness:
  "\<exists>m v. createBoundaryManifest sample (JObj []) = Inr m
     \<and> manifest_wf sample m defaultBoundaryPaths \<and> verifyBoundaryManifest sample m = Inr v \<and> mc_ok v \<and> mc_status v = ''FAIL''"
  by (rule createBoundaryManifest_default [OF hash_hex_sample])
    (simp_all add: default_date)

lemma default_manifest_input:
  assumes "manifest_wf N m defaultBoundaryPaths" "verifyBoundaryManifest N m = Inr v" "mc_ok v"
  shows "classifyBoundaryPath N m (JStr ''model_input:committed'') = Inr (class_of (committed_path ''model_input''))"
    "{q \<in> set defaultBoundaryPaths. refers (JObj [(''path_id'', JStr ''model_input:committed'')]) q} = {committed_path ''model_input''}"
proof -
  let ?ref = "JObj [(''path_id'', JStr ''model_input:committed'')]" and ?p = "committed_path ''model_input''"
  have p: "?p \<in> set defaultBoundaryPaths" "refers ?ref ?p"
    by (simp_all add: defaultBoundaryPaths_def refers_def non_empty_def committed_path_def [of "''model_input''"] obj_get_Cons)
  moreover have "q = ?p" if "q \<in> set defaultBoundaryPaths" "refers ?ref q" for q
  proof -
    have "pid q = pid ?p" using that(2) by (simp add: refers_def non_empty_def obj_get_Cons pid_def [of q])
    then show ?thesis using default_paths_distinct that(1) p(1) by (auto simp: distinct_map inj_on_def)
  qed
  ultimately show one: "{q \<in> set defaultBoundaryPaths. refers ?ref q} = {?p}" by blast
  have "classify_ref defaultBoundaryPaths ?ref = class_of ?p"
    using classify_ref_cases [of defaultBoundaryPaths ?ref] one default_paths_distinct by (auto simp: distinct_map)
  moreover have "map element (elems (getp m ''paths'')) = defaultBoundaryPaths"
    using assms(1) by (simp add: manifest_wf_def elems_def map_idI element_path)
  ultimately show "classifyBoundaryPath N m (JStr ''model_input:committed'') = Inr (class_of ?p)"
    using assms(2,3) by (simp add: classifyBoundaryPath_def Let_def)
qed

lemma sample_manifest:
  obtains m v where "manifest_wf sample m defaultBoundaryPaths" "verifyBoundaryManifest sample m = Inr v" "mc_ok v" "mc_status v = ''FAIL''"
  using default_manifest [OF hash_hex_sample, of "JObj [(''createdAt'', JStr ''2026-01-01T00:00:00.000Z'')]" "''local-boundary-sim''" "''2026-01-01T00:00:00.000Z''"]
  by (auto simp: sample_date obj_get_Cons)

theorem classifyBoundaryPath_fail_closed_witness:
  "\<exists>m c. classifyBoundaryPath sample m (JStr ''model_input:committed'') = Inr c \<and> pc_verdict c = JStr ''PASS''"
proof -
  obtain m v where m: "manifest_wf sample m defaultBoundaryPaths" "verifyBoundaryManifest sample m = Inr v" "mc_ok v"
    by (rule sample_manifest)
  note c = default_manifest_input [OF m]
  have "str_in [''committed'', ''blocked''] (getp (committed_path ''model_input'') ''classification'')"
    by (simp add: str_in_def committed_path_def obj_get_Cons)
  then have "pc_verdict (class_of (committed_path ''model_input'')) = JStr ''PASS''"
    using classifyBoundaryPath_fail_closed [OF c(1) refl] c(2) m(1) by auto
  with c(1) show ?thesis by blast
qed

section \<open>Simulation\<close>

lemma decide_PASS:
  "snd (decide c crossed got) = ''PASS'' \<longleftrightarrow> pc_known c \<and> pc_classification c \<noteq> JStr ''declared_out_of_scope''
     \<and> (if pc_classification c = JStr ''blocked'' then \<not> got else crossed \<or> \<not> got)"
  by (simp add: decide_def)

lemma decide_verdicts: "snd (decide c crossed got) \<in> {''PASS'', ''FAIL'', ''NARROW_GO''}"
  by (simp add: decide_def)

lemma evaluateScenario_row:
  assumes "evaluateScenario N m sc options = Inr (row, com)"
  shows "\<exists>c. classifyBoundaryPath N m (coals sc [''pathRef''] (getp sc ''pathId'')) = Inr c
     \<and> getp row ''verdict'' = JStr (snd (decide c (truthy (getp sc ''committed'')) (getp sc ''bGotVia'' \<noteq> JStr ''none'')))"
  using assms
  by (auto simp: evaluateScenario_def ebind_Inr_iff Let_def obj_get_Cons case_prod_unfold)

text \<open>
  C30. A simulation that passes shows no silent leak: its manifest is well formed, and every scenario in
  which the receiver got the fact sent it through the committed channel, along a path that the manifest
  classifies and that is neither blocked nor out of scope.
\<close>

theorem runBoundarySimulation_pass_sound:
  assumes "runBoundarySimulation N options = Inr r" and "getp r ''status'' = JStr ''PASS''"
    and "hasOwn options ''manifest''" and "getp options ''scenarios'' = JArr scs" and "sc \<in> set scs" and "sc \<noteq> JHole"
    and "getp sc ''bGotVia'' \<noteq> JStr ''none''"
  shows "(\<exists>paths. manifest_wf N (getp options ''manifest'') paths) \<and> truthy (getp sc ''committed'')
     \<and> (\<exists>c. classifyBoundaryPath N (getp options ''manifest'') (coals sc [''pathRef''] (getp sc ''pathId'')) = Inr c \<and> pc_known c
          \<and> \<not> str_in [''blocked'', ''declared_out_of_scope''] (pc_classification c))"
proof -
  let ?m = "getp options ''manifest''"
  obtain v evaluated o' where v: "verifyBoundaryManifest N ?m = Inr v"
    and ev: "mapE (\<lambda>x. if x = JHole then Inr (JHole, JHole) else evaluateScenario N ?m x o') scs = Inr evaluated"
    and st: "simulation_status v (map fst evaluated) = ''PASS''"
    using assms(1-4) by (auto simp: runBoundarySimulation_def ebind_Inr_iff Let_def js_map_pair_def obj_get_Cons)
  obtain row com where rc: "evaluateScenario N ?m sc o' = Inr (row, com)" "(row, com) \<in> set evaluated"
    using mapE_image [OF ev assms(5)] assms(6) by auto
  obtain c where c: "classifyBoundaryPath N ?m (coals sc [''pathRef''] (getp sc ''pathId'')) = Inr c"
    and d: "getp row ''verdict'' = JStr (snd (decide c (truthy (getp sc ''committed'')) True))"
    using evaluateScenario_row [OF rc(1)] assms(7) by auto
  have "mc_ok v" "getp row ''verdict'' \<notin> {JStr ''FAIL'', JStr ''NARROW_GO''}"
    using st rc(2) by (auto simp: simulation_status_def list_ex_iff split: if_splits)
  then have "snd (decide c (truthy (getp sc ''committed'')) True) = ''PASS''"
    using d decide_verdicts [of c "truthy (getp sc ''committed'')" True] by auto
  then show ?thesis using c bm.verdict [OF v] \<open>mc_ok v\<close> by (auto simp: decide_PASS str_in_def split: if_splits)
qed

lemma factCommitment_ok: "jsonable given \<Longrightarrow> \<exists>a. factCommitment N given (JObj [(''hmacKey'', JStr k), (''runId'', JStr r), (''scenario'', JStr s)]) = Inr a"
  by (simp add: factCommitment_def createMemoryAddress_def keyed_options_def isPlainRecord_def hasOwn_def keys_of_def Let_def obj_get_Cons dflt_def
      hmacSha256Hex_def bytesForKey_def bytesForHash_def canonicalize_def canonicalize_pr)

theorem runBoundarySimulation_pass_sound_witness:
  "\<exists>m r sc. runBoundarySimulation sample (JObj [(''manifest'', m), (''scenarios'', JArr [sc])]) = Inr r
     \<and> getp r ''status'' = JStr ''PASS'' \<and> getp sc ''bGotVia'' \<noteq> JStr ''none'' \<and> truthy (getp sc ''committed'')"
proof -
  let ?sc = "scenario_obj ''honest'' ''model_input:committed'' ''canary'' ''committed_channel'' True []"
  obtain m v where m: "manifest_wf sample m defaultBoundaryPaths" "verifyBoundaryManifest sample m = Inr v" "mc_ok v" "mc_status v = ''FAIL''"
    by (rule sample_manifest)
  let ?o = "JObj [(''manifest'', m), (''scenarios'', JArr [?sc])]"
  obtain a where "factCommitment sample (JStr ''canary'') (JObj [(''hmacKey'', JStr DEFAULT_HMAC_KEY), (''runId'', JStr ''boundary-sim-local''), (''scenario'', JStr ''honest'')]) = Inr a"
    using factCommitment_ok [of "JStr ''canary''" sample DEFAULT_HMAC_KEY "''boundary-sim-local''" "''honest''"] by auto
  then obtain r where r: "runBoundarySimulation sample ?o = Inr r" "getp r ''status'' = JStr ''PASS''"
    using m default_manifest_input(1) [OF m(1-3)]
    by (simp add: runBoundarySimulation_def boundary_assertPlainRecord_def hasOwn_def keys_of_def obj_get_Cons js_map_pair_def
        evaluateScenario_def scenario_obj_def getE_def Let_def simulation_status_def decide_def committed_path_def)
  have "truthy (getp ?sc ''committed'')"
    using runBoundarySimulation_pass_sound [OF r, of "[?sc]" ?sc] by (simp add: hasOwn_def keys_of_def obj_get_Cons scenario_obj_def)
  with r show ?thesis by (intro exI [of _ m] exI [of _ r] exI [of _ ?sc]) (simp add: scenario_obj_def obj_get_Cons)
qed

text \<open>
  The status of a simulation ignores the status of its manifest: with no scenarios, the default
  manifest, which declares broken paths and has status FAIL, yields the final status PASS.
\<close>

theorem runBoundarySimulation_passes_broken_manifest:
  assumes "hash_hex N"
  shows "\<exists>r. runBoundarySimulation N (JObj [(''scenarios'', JArr [])]) = Inr r \<and> getp r ''manifest_status'' = JStr ''FAIL''
     \<and> getp r ''finalStatus'' = JStr ''PASS''"
proof -
  note date = default_date [of N]
  obtain m v where m: "createBoundaryManifest N (JObj [(''systemId'', JUndef), (''createdAt'', JUndef)]) = Inr m"
      "verifyBoundaryManifest N m = Inr v" "mc_ok v" "mc_status v = ''FAIL''"
    using default_manifest [OF assms, of "JObj [(''systemId'', JUndef), (''createdAt'', JUndef)]" "''local-boundary-sim''" DEFAULT_CREATED_AT] date
    by (auto simp: obj_get_Cons)
  then show ?thesis
    by (simp add: runBoundarySimulation_def boundary_assertPlainRecord_def hasOwn_def keys_of_def obj_get_Cons js_map_pair_def Let_def simulation_status_def)
qed

theorem runBoundarySimulation_passes_broken_manifest_witness:
  "\<exists>r. runBoundarySimulation sample (JObj [(''scenarios'', JArr [])]) = Inr r \<and> getp r ''finalStatus'' = JStr ''PASS''"
  using runBoundarySimulation_passes_broken_manifest [OF hash_hex_sample] by blast

end
