(* ===== verification/Controller.thy ===== *)
theory Controller
  imports JsDate JsNumber Merkle
begin

text \<open>
  The memory controller (\<open>packages/controller\<close>): consent grants and their verification, recall
  decisions, private memory bubbles and weather reports.  Every function builds a public object from
  untrusted options; objects are JavaScript objects with the fields of the code, the result of a
  verification is a record.
\<close>

section \<open>Tables\<close>

definition CONSENT_GRANT_SCHEMA :: string where "CONSENT_GRANT_SCHEMA = ''enigma.memory_controller_grant.v1''"
definition RECALL_VETO_DECISION_SCHEMA :: string where "RECALL_VETO_DECISION_SCHEMA = ''enigma.recall_veto_decision.v1''"
definition PRIVATE_MEMORY_BUBBLE_SCHEMA :: string where "PRIVATE_MEMORY_BUBBLE_SCHEMA = ''enigma.private_memory_bubble.v1''"
definition MEMORY_WEATHER_REPORT_SCHEMA :: string where "MEMORY_WEATHER_REPORT_SCHEMA = ''enigma.memory_weather_report.v1''"
definition DEFAULT_NOW :: string where "DEFAULT_NOW = ''1970-01-01T00:00:00.000Z''"
definition DEFAULT_GRANT_TTL_SECONDS :: int where "DEFAULT_GRANT_TTL_SECONDS = 300"
definition ID_HASH_LENGTH :: nat where "ID_HASH_LENGTH = 32"

definition PUBLIC_REF_RE :: rx where
  "PUBLIC_REF_RE = rx_seqs
     [rx_lit ''ref:'', RCls ch_alnum, RRep (RCls (alnum_or ''._~:@#?=&%+-'')) 0 (Some 255)]"

definition GRANT_OPERATIONS :: "string list" where
  "GRANT_OPERATIONS =
     [''read_local'', ''write_local'', ''recall_context'', ''withhold_context'', ''share_context'', ''open_private_bubble'',
      ''close_private_bubble'', ''delete_local'', ''connector_access'']"

definition GRANT_STATUSES :: "string list" where "GRANT_STATUSES = [''active'', ''expired'', ''revoked'']"

definition RECALL_REASON_CODES :: "string list" where
  "RECALL_REASON_CODES =
     [''grant_missing'', ''grant_expired'', ''purpose_mismatch'', ''zone_not_allowed'', ''sensitivity_blocked'',
      ''tombstone_present'', ''private_bubble_open'', ''policy_requires_ask'', ''policy_denies_recall'',
      ''candidate_limit_exceeded'']"

definition BUBBLE_CLOSE_OUTCOMES :: "string list" where "BUBBLE_CLOSE_OUTCOMES = [''keep'', ''discard'']"

definition WEATHER_STATUSES :: "string list" where "WEATHER_STATUSES = [''sunny'', ''needs_attention'', ''storm_warning'']"

definition WEATHER_METRICS :: "string list" where
  "WEATHER_METRICS =
     [''active_grants'', ''expiring_grants'', ''recent_vetoes'', ''open_private_bubbles'', ''tombstone_pressure'',
      ''sensitive_candidates'', ''receipt_coverage'']"

definition WEATHER_ISSUE_CODES :: "string list" where
  "WEATHER_ISSUE_CODES =
     [''grant_expiring'', ''grant_missing'', ''policy_attention_needed'', ''veto_rate_elevated'', ''private_bubble_open'',
      ''receipt_gap'', ''tombstone_pressure'', ''sensitive_candidate_pressure'']"

definition WEATHER_NEXT_ACTIONS :: "string list" where
  "WEATHER_NEXT_ACTIONS =
     [''none'', ''review_grants'', ''review_policy'', ''ask_for_consent'', ''close_private_bubbles'', ''inspect_receipts'']"

definition STORM_TILE_STATUSES :: "string list" where
  "STORM_TILE_STATUSES =
     [''storm_warning'', ''blocked'', ''fail'', ''revoked'', ''expired'', ''unsafe_export'', ''unsafe'', ''tombstone'', ''sensitive'']"

definition ATTENTION_TILE_STATUSES :: "string list" where
  "ATTENTION_TILE_STATUSES =
     [''needs_attention'', ''warning'', ''needs_review'', ''offline'', ''pending'', ''missing'', ''ask'']"

definition EXTRA_FORBIDDEN_KEY_RE :: rx where
  "EXTRA_FORBIDDEN_KEY_RE = RSeq (RAlt REps (RSeq rx_any (rx_lit ''_'')))
     (rx_alts (map rx_lit [''account'', ''account_id'', ''customer'', ''customer_id'', ''customer_identifier'',
        ''provider_response'', ''signing_secret'', ''private_data'', ''memory_payload'', ''local_absolute_path'']))"

definition BOUNDARY_FIELDS :: props where
  "BOUNDARY_FIELDS =
     [(''public_payload_only'', JBool True), (''memory_payload_absent'', JBool True), (''prompt_payload_absent'', JBool True),
      (''transcript_payload_absent'', JBool True), (''embedding_payload_absent'', JBool True),
      (''provider_output_absent'', JBool True), (''secret_material_absent'', JBool True), (''device_path_absent'', JBool True),
      (''account_identifier_absent'', JBool True), (''customer_identifier_absent'', JBool True),
      (''evidence_refs_only'', JBool True), (''provider_deletion_claim'', JBool False), (''model_forgetting_claim'', JBool False),
      (''provider_native_memory_control_claim'', JBool False), (''compliance_certification_claim'', JBool False)]"

definition CONSENT_GRANT_FIELDS :: "string list" where
  "CONSENT_GRANT_FIELDS =
     [''schema'', ''app_ref'', ''purpose_ref'', ''operations'', ''memory_zone_refs'', ''issued_at'', ''expires_at'', ''status'',
      ''grant_ref'', ''policy_ref'', ''proof_refs'', ''receipt_refs''] @ map fst BOUNDARY_FIELDS"

section \<open>Scalars and arrays\<close>

text \<open>Objects whose prototype is \<open>Object.prototype\<close> or null.\<close>

definition controller_isPlainRecord :: "jsval \<Rightarrow> bool" where
  "controller_isPlainRecord v = (case v of JObj _ \<Rightarrow> True | _ \<Rightarrow> False)"

definition controller_assertPlainRecord :: "jsval \<Rightarrow> string \<Rightarrow> unit res" where
  "controller_assertPlainRecord v name =
     (if \<not> controller_isPlainRecord v then Inl (TypeError (name @ '' must be an object'')) else Inr ())"

definition normalizeRequiredString :: "jsval \<Rightarrow> string \<Rightarrow> string res" where
  "normalizeRequiredString v field =
     (case v of JStr s \<Rightarrow> if s = [] then Inl (TypeError (field @ '' must be a non-empty string'')) else Inr s
      | _ \<Rightarrow> Inl (TypeError (field @ '' must be a non-empty string'')))"

definition normalizePublicRef :: "jsval \<Rightarrow> string \<Rightarrow> string res" where
  "normalizePublicRef v field =
     ebind (normalizeRequiredString v field) (\<lambda>ref.
       if \<not> rx_full PUBLIC_REF_RE ref then Inl (TypeError (field @ '' must be a public ref'')) else Inr ref)"

text \<open>\<open>normalizeRequiredString\<close> followed by a look-up in a table.\<close>

definition member_string :: "string list \<Rightarrow> string \<Rightarrow> jsval \<Rightarrow> string \<Rightarrow> string res" where
  "member_string table msg v field =
     ebind (normalizeRequiredString v field) (\<lambda>s. if s \<notin> set table then Inl (TypeError msg) else Inr s)"

definition normalizeOperation :: "jsval \<Rightarrow> string res" where
  "normalizeOperation v = member_string GRANT_OPERATIONS ''operation is not supported'' v ''operation''"

definition normalizeGrantStatus :: "jsval \<Rightarrow> string res" where
  "normalizeGrantStatus v = member_string GRANT_STATUSES ''status is not supported'' v ''status''"

definition uniqueSorted :: "string list \<Rightarrow> string list" where
  "uniqueSorted xs = sort (set_of xs)"

text \<open>
  \<open>xs.map(f)\<close> over an array: holes are skipped.  \<open>unique_strings\<close> is \<open>uniqueSorted\<close> of the result: a hole
  reads as \<open>undefined\<close>, which sorts last.
\<close>

definition map_strings :: "(nat \<Rightarrow> jsval \<Rightarrow> string res) \<Rightarrow> jsval list \<Rightarrow> string list res" where
  "map_strings f xs = emap (map (\<lambda>x. the x) \<circ> filter (\<lambda>x. x \<noteq> None))
     (mapiE 0 (\<lambda>i x. if x = JHole then Inr None else emap Some (f i x)) xs)"

definition unique_strings :: "(nat \<Rightarrow> jsval \<Rightarrow> string res) \<Rightarrow> jsval list \<Rightarrow> jsval list res" where
  "unique_strings f xs =
     emap (\<lambda>ss. map JStr (uniqueSorted ss) @ push_if (JHole \<in> set xs) JUndef) (map_strings f xs)"

definition indexed :: "string \<Rightarrow> nat \<Rightarrow> string" where
  "indexed field i = field @ ''['' @ nat_to_string i @ '']''"

definition normalizeOperations :: "jsval \<Rightarrow> jsval list res" where
  "normalizeOperations v =
     (case v of
        JArr xs \<Rightarrow> ebind (unique_strings (\<lambda>_. normalizeOperation) xs) (\<lambda>operations.
                   if operations = [] then Inl (TypeError ''operations must not be empty'') else Inr operations)
      | _ \<Rightarrow> Inl (TypeError ''operations must be an array''))"

definition normalizePublicRefArray :: "jsval \<Rightarrow> string \<Rightarrow> jsval list res" where
  "normalizePublicRefArray v field =
     (case v of
        JArr xs \<Rightarrow> unique_strings (\<lambda>i x. normalizePublicRef x (indexed field i)) xs
      | _ \<Rightarrow> Inl (TypeError (field @ '' must be an array'')))"

definition normalizeNonEmptyPublicRefArray :: "jsval \<Rightarrow> string \<Rightarrow> jsval list res" where
  "normalizeNonEmptyPublicRefArray v field =
     ebind (normalizePublicRefArray v field) (\<lambda>refs.
       if refs = [] then Inl (TypeError (field @ '' must not be empty'')) else Inr refs)"

definition normalizeCount :: "jsval \<Rightarrow> string \<Rightarrow> jsval res" where
  "normalizeCount v field =
     (if as_count v = None then Inl (TypeError (field @ '' must be a non-negative integer'')) else Inr v)"

definition normalizeTtl :: "jsval \<Rightarrow> string \<Rightarrow> int res" where
  "normalizeTtl v field =
     (case as_int v of
        Some i \<Rightarrow> if i \<le> 0 then Inl (TypeError (field @ '' must be a positive integer'')) else Inr i
      | None \<Rightarrow> Inl (TypeError (field @ '' must be a positive integer'')))"

definition isDateTime :: "node \<Rightarrow> jsval \<Rightarrow> bool" where
  "isDateTime N v = (case v of JStr s \<Rightarrow> rx_full DATE_TIME_RE s \<and> Date_parse N s \<noteq> None | _ \<Rightarrow> False)"

definition normalizeDateTime :: "node \<Rightarrow> jsval \<Rightarrow> string \<Rightarrow> string res" where
  "normalizeDateTime N v field =
     (if \<not> isDateTime N v then Inl (TypeError (field @ '' must be an ISO date-time string''))
      else toISOString (the (Date_parse N (js_String v))))"

definition addSeconds :: "node \<Rightarrow> string \<Rightarrow> int \<Rightarrow> string res" where
  "addSeconds N dateTime seconds =
     (case Date_parse N dateTime of
        Some t \<Rightarrow> toISOString (t + seconds * 1000)
      | None \<Rightarrow> Inl (RangeError ''Invalid time value''))"

definition isPublicRef :: "jsval \<Rightarrow> bool" where
  "isPublicRef v = (case v of JStr s \<Rightarrow> rx_full PUBLIC_REF_RE s | _ \<Rightarrow> False)"

text \<open>
  \<open>new Set(xs).size === xs.length\<close>: no element occurs twice.  Only arrays of strings pass the checks
  below, so the identity of objects does not matter.
\<close>

definition isPublicRefArray :: "jsval \<Rightarrow> bool \<Rightarrow> bool" where
  "isPublicRefArray v minOne =
     (case v of
        JArr xs \<Rightarrow> (\<not> minOne \<or> xs \<noteq> []) \<and> distinct (map element xs) \<and> list_all (\<lambda>x. x = JHole \<or> isPublicRef x) xs
      | _ \<Rightarrow> False)"

definition isOperationArray :: "jsval \<Rightarrow> bool" where
  "isOperationArray v =
     (case v of
        JArr xs \<Rightarrow> xs \<noteq> [] \<and> distinct (map element xs) \<and> list_all (\<lambda>x. x = JHole \<or> (\<exists>s \<in> set GRANT_OPERATIONS. x = JStr s)) xs
      | _ \<Rightarrow> False)"

definition containsRef :: "node \<Rightarrow> jsval \<Rightarrow> jsval \<Rightarrow> bool" where
  "containsRef N vals ref =
     (if nullish vals \<or> ref = JUndef then False
      else case nd_set N vals of
             Some xs \<Rightarrow> js_includes xs ref
           | None \<Rightarrow> (case vals of JArr xs \<Rightarrow> js_includes xs ref | _ \<Rightarrow> False))"

section \<open>Derived references\<close>

definition controller_merkleRootFor :: "node \<Rightarrow> string \<Rightarrow> props \<Rightarrow> string list \<Rightarrow> string res" where
  "controller_merkleRootFor N tag ps omitted =
     ebind (mapE (\<lambda>(k, v). canonicalize (JObj [(''kind'', JStr tag), (''key'', JStr k), (''value'', v)]))
              (sort_key fst (filter (\<lambda>(k, _). k \<notin> set omitted) ps))) (\<lambda>leaves.
       emap (ms_root N) (ms_new (map JStr leaves)))"

definition makePublicRef :: "node \<Rightarrow> string \<Rightarrow> props \<Rightarrow> string list \<Rightarrow> string res" where
  "makePublicRef N tag ps omitted =
     ebind (canonicalize (JObj (sort_key fst (filter (\<lambda>(k, _). k \<notin> set omitted) ps)))) (\<lambda>text.
       emap (\<lambda>h. ''ref:'' @ tag @ '':'' @ take ID_HASH_LENGTH h) (sha256Hex N (JStr text)))"

text \<open>\<open>options.a ?? options.b ?? [makePublicRef(...)]\<close>, the reference computed only when needed.\<close>

definition refs_or_made :: "jsval \<Rightarrow> string list \<Rightarrow> string res \<Rightarrow> jsval res" where
  "refs_or_made options names made =
     (if nullish (pick options names) then emap (\<lambda>r. JArr [JStr r]) made else Inr (pick options names))"

definition ref_or_made :: "jsval \<Rightarrow> string list \<Rightarrow> string res \<Rightarrow> jsval res" where
  "ref_or_made options names made =
     (if nullish (pick options names) then emap JStr made else Inr (pick options names))"

section \<open>The public-safe scan of the controller\<close>

fun scanExtraForbiddenKeys :: "jsval \<Rightarrow> string \<Rightarrow> string list" where
  "scanExtraForbiddenKeys (JArr xs) path =
     concat (map (\<lambda>(i, x). scanExtraForbiddenKeys x (index_path path i)) (enumerate 0 xs))"
| "scanExtraForbiddenKeys (JObj ps) path =
     concat (map (\<lambda>(k, v). push_if (rx_full EXTRA_FORBIDDEN_KEY_RE (normalized_key k)) (key_path path k)
       @ scanExtraForbiddenKeys v (key_path path k)) ps)"
| "scanExtraForbiddenKeys (JInst c ps) path =
     concat (map (\<lambda>(k, v). push_if (rx_full EXTRA_FORBIDDEN_KEY_RE (normalized_key k)) (key_path path k)
       @ scanExtraForbiddenKeys v (key_path path k)) ps)"
| "scanExtraForbiddenKeys _ path = []"

record safe_scan =
  ss_ok :: bool
  ss_errors :: "string list"
  ss_public_hash :: jsval

definition scanMemoryControllerPublicSafe :: "node \<Rightarrow> jsval \<Rightarrow> safe_scan res" where
  "scanMemoryControllerPublicSafe N v =
     ebind (verifyPublicSafeArtifact N v (JObj [])) (\<lambda>core.
       let extra = scanExtraForbiddenKeys v ''$''; ok = (getp core ''ok'' = JBool True \<and> extra = [])
       in Inr \<lparr>ss_ok = ok,
               ss_errors = map js_String (elems (getp core ''errors'')) @ map (\<lambda>p. p @ '': field name is not memory-controller public-safe'') extra,
               ss_public_hash = (if ok then getp core ''public_hash'' else JNull)\<rparr>)"

definition assertMemoryControllerPublicSafe :: "node \<Rightarrow> jsval \<Rightarrow> jsval res" where
  "assertMemoryControllerPublicSafe N v =
     ebind (scanMemoryControllerPublicSafe N v) (\<lambda>result.
       if \<not> ss_ok result then Inl (TypeError (''memory controller public-safe scan failed: '' @ join ''; '' (ss_errors result)))
       else Inr v)"

section \<open>Consent grants\<close>

definition one_or_default :: "jsval \<Rightarrow> string list \<Rightarrow> string \<Rightarrow> string \<Rightarrow> jsval" where
  "one_or_default options names single d =
     coals options names (JArr [if getp options single = JUndef then JStr d else getp options single])"

definition grant_times :: "node \<Rightarrow> jsval \<Rightarrow> (string \<times> string) res" where
  "grant_times N options =
     ebind (normalizeDateTime N (coals options [''issued_at'', ''issuedAt'', ''now''] (JStr DEFAULT_NOW)) ''issued_at'') (\<lambda>issuedAt.
     ebind (if nullish (pick options [''expires_at'', ''expiresAt''])
            then ebind (normalizeTtl (coals options [''ttl_seconds'', ''ttlSeconds''] (JInt DEFAULT_GRANT_TTL_SECONDS)) ''ttl_seconds'') (\<lambda>ttl.
                   emap JStr (addSeconds N issuedAt ttl))
            else Inr (pick options [''expires_at'', ''expiresAt''])) (\<lambda>expires.
     ebind (normalizeDateTime N expires ''expires_at'') (\<lambda>expiresAt. Inr (issuedAt, expiresAt))))"

text \<open>The fields of a grant in order, with the references still to be made as arguments.\<close>

definition grant_fields :: "string \<Rightarrow> string \<Rightarrow> jsval list \<Rightarrow> jsval list \<Rightarrow> string \<Rightarrow> string \<Rightarrow> string \<Rightarrow> string \<Rightarrow> string
    \<Rightarrow> jsval list \<Rightarrow> jsval list \<Rightarrow> props" where
  "grant_fields app purpose operations zones issuedAt expiresAt status policy grant proofs receipts =
     [(''schema'', JStr CONSENT_GRANT_SCHEMA), (''app_ref'', JStr app), (''purpose_ref'', JStr purpose),
      (''operations'', JArr operations), (''memory_zone_refs'', JArr zones), (''issued_at'', JStr issuedAt),
      (''expires_at'', JStr expiresAt), (''status'', JStr status), (''grant_ref'', JStr grant), (''policy_ref'', JStr policy),
      (''proof_refs'', JArr proofs), (''receipt_refs'', JArr receipts)] @ BOUNDARY_FIELDS"

definition createConsentGrant :: "node \<Rightarrow> jsval \<Rightarrow> jsval res" where
  "createConsentGrant N options =
     ebind (controller_assertPlainRecord options ''options'') (\<lambda>_.
     ebind (grant_times N options) (\<lambda>(issuedAt, expiresAt).
     ebind (normalizePublicRef (coals options [''app_ref'', ''appRef''] (JStr ''ref:app:unspecified'')) ''app_ref'') (\<lambda>app.
     ebind (normalizePublicRef (coals options [''purpose_ref'', ''purposeRef''] (JStr ''ref:purpose:unspecified'')) ''purpose_ref'') (\<lambda>purpose.
     ebind (normalizeOperations (one_or_default options [''operations''] ''operation'' ''recall_context'')) (\<lambda>operations.
     ebind (normalizePublicRefArray (one_or_default options [''memory_zone_refs'', ''memoryZoneRefs''] ''memory_zone_ref'' ''ref:zone:default'')
              ''memory_zone_refs'') (\<lambda>zones.
     ebind (normalizeGrantStatus (coals options [''status''] (JStr ''active''))) (\<lambda>status.
     ebind (normalizePublicRef (coals options [''policy_ref'', ''policyRef''] (JStr ''ref:policy:default'')) ''policy_ref'') (\<lambda>policy.
     let body = grant_fields app purpose operations zones issuedAt expiresAt status policy
     in ebind (ref_or_made options [''grant_ref'', ''grantRef''] (makePublicRef N ''grant'' (body [] [] []) [''grant_ref'', ''proof_refs'', ''receipt_refs''])) (\<lambda>g.
        ebind (normalizePublicRef g ''grant_ref'') (\<lambda>grant.
        ebind (refs_or_made options [''proof_refs'', ''proofRefs''] (makePublicRef N ''proof'' (body grant [] []) [''proof_refs'', ''receipt_refs''])) (\<lambda>p.
        ebind (normalizeNonEmptyPublicRefArray p ''proof_refs'') (\<lambda>proofs.
        ebind (refs_or_made options [''receipt_refs'', ''receiptRefs''] (makePublicRef N ''receipt'' (body grant proofs []) [''receipt_refs''])) (\<lambda>r.
        ebind (normalizeNonEmptyPublicRefArray r ''receipt_refs'') (\<lambda>receipts.
        assertMemoryControllerPublicSafe N (JObj (body grant proofs receipts))))))))))))))))"

record grant_check =
  gc_ok :: bool
  gc_status :: string
  gc_errors :: "string list"
  gc_reason_codes :: "string list"
  gc_public_hash :: jsval

definition verification :: "string list \<Rightarrow> string list \<Rightarrow> jsval \<Rightarrow> grant_check" where
  "verification errors reasonCodes publicHash =
     \<lparr>gc_ok = (errors = []), gc_status = (if errors = [] then ''active'' else ''fail_closed''),
      gc_errors = uniqueSorted errors, gc_reason_codes = uniqueSorted reasonCodes, gc_public_hash = publicHash\<rparr>"

definition upper_char :: "char \<Rightarrow> char" where
  "upper_char c = (if ch_lower c then char_of (of_char c - 32 :: nat) else c)"

definition grant_shape_errors :: "node \<Rightarrow> jsval \<Rightarrow> string list" where
  "grant_shape_errors N grant =
     push_if (getp grant ''schema'' \<noteq> JStr CONSENT_GRANT_SCHEMA) ''BAD_SCHEMA'' @
     push_if (\<not> isPublicRef (getp grant ''app_ref'')) ''BAD_APP_REF'' @
     push_if (\<not> isPublicRef (getp grant ''purpose_ref'')) ''BAD_PURPOSE_REF'' @
     push_if (\<not> isOperationArray (getp grant ''operations'')) ''BAD_OPERATIONS'' @
     push_if (\<not> isPublicRefArray (getp grant ''memory_zone_refs'') True) ''BAD_MEMORY_ZONE_REFS'' @
     push_if (\<not> isDateTime N (getp grant ''issued_at'')) ''BAD_ISSUED_AT'' @
     push_if (\<not> isDateTime N (getp grant ''expires_at'')) ''BAD_EXPIRES_AT'' @
     push_if (getp grant ''status'' \<notin> JStr ` set GRANT_STATUSES) ''BAD_STATUS'' @
     push_if (\<not> isPublicRef (getp grant ''grant_ref'')) ''BAD_GRANT_REF'' @
     push_if (\<not> isPublicRef (getp grant ''policy_ref'')) ''BAD_POLICY_REF'' @
     push_if (\<not> isPublicRefArray (getp grant ''proof_refs'') True) ''BAD_PROOF_REFS'' @
     push_if (\<not> isPublicRefArray (getp grant ''receipt_refs'') True) ''BAD_RECEIPT_REFS'' @
     concat (map (\<lambda>(field, v). push_if (getp grant field \<noteq> v) (''BAD_'' @ map upper_char field)) BOUNDARY_FIELDS)"

text \<open>\<open>Date.parse(a) <= Date.parse(b)\<close> on texts that parse.\<close>

definition time_le :: "node \<Rightarrow> string \<Rightarrow> string \<Rightarrow> bool" where
  "time_le N a b = (case (Date_parse N a, Date_parse N b) of (Some x, Some y) \<Rightarrow> x \<le> y | _ \<Rightarrow> False)"

definition grant_state_errors :: "node \<Rightarrow> jsval \<Rightarrow> jsval \<Rightarrow> string \<Rightarrow> string list" where
  "grant_state_errors N grant options now =
     push_if (getp grant ''status'' = JStr ''expired''
        \<or> (isDateTime N (getp grant ''expires_at'') \<and> time_le N (js_String (getp grant ''expires_at'')) now)) ''EXPIRED'' @
     push_if (getp grant ''status'' = JStr ''revoked'' \<or> getp options ''revoked'' = JBool True) ''REVOKED'' @
     push_if (containsRef N (pick options [''revoked_grant_refs'', ''revokedGrantRefs'']) (getp grant ''grant_ref'')) ''REVOKED''"

definition expected_all :: "jsval \<Rightarrow> jsval list" where
  "expected_all v = (case v of JArr xs \<Rightarrow> map element xs | _ \<Rightarrow> [])"

definition expectedOperations :: "jsval \<Rightarrow> jsval list" where
  "expectedOperations options =
     expected_all (getp options ''operations'') @ push_if (getp options ''operation'' \<noteq> JUndef) (getp options ''operation'')"

definition expectedMemoryZoneRefs :: "jsval \<Rightarrow> jsval list" where
  "expectedMemoryZoneRefs options =
     (if isArray (getp options ''memory_zone_refs'') then expected_all (getp options ''memory_zone_refs'')
      else expected_all (getp options ''memoryZoneRefs'')) @
     push_if (getp options ''memory_zone_ref'' \<noteq> JUndef \<or> getp options ''memoryZoneRef'' \<noteq> JUndef)
       (pick options [''memory_zone_ref'', ''memoryZoneRef''])"

definition granted :: "jsval \<Rightarrow> jsval \<Rightarrow> bool" where
  "granted v x = (case v of JArr xs \<Rightarrow> js_includes xs x | _ \<Rightarrow> False)"

definition compareScope :: "jsval \<Rightarrow> jsval \<Rightarrow> string list" where
  "compareScope grant options =
     (let app = pick options [''app_ref'', ''appRef'']; purpose = pick options [''purpose_ref'', ''purposeRef'']
      in push_if (app \<noteq> JUndef \<and> \<not> js_eq (getp grant ''app_ref'') app) ''WRONG_APP'' @
         push_if (purpose \<noteq> JUndef \<and> \<not> js_eq (getp grant ''purpose_ref'') purpose) ''WRONG_PURPOSE'' @
         push_if (list_ex (\<lambda>x. \<not> granted (getp grant ''operations'') x) (expectedOperations options)) ''WRONG_OPERATION'' @
         push_if (list_ex (\<lambda>x. \<not> granted (getp grant ''memory_zone_refs'') x) (expectedMemoryZoneRefs options)) ''WRONG_MEMORY_ZONE'')"

definition verifyConsentGrant :: "node \<Rightarrow> jsval \<Rightarrow> jsval \<Rightarrow> grant_check res" where
  "verifyConsentGrant N grant options =
     (if \<not> controller_isPlainRecord grant then Inr (verification [''GRANT_NOT_OBJECT''] [''GRANT_NOT_OBJECT''] JNull)
      else ebind (scanMemoryControllerPublicSafe N grant) (\<lambda>publicSafe.
           let unsafe = push_if (\<not> ss_ok publicSafe) ''NON_PUBLIC_SAFE_ARTIFACT'';
               unknown = filter (\<lambda>k. k \<notin> set CONSENT_GRANT_FIELDS) (keys_of grant);
               shape = grant_shape_errors N grant
           in ebind (normalizeDateTime N (coals options [''now''] (JStr DEFAULT_NOW)) ''now'') (\<lambda>now.
              let state = grant_state_errors N grant options now; scope = compareScope grant options
              in Inr (verification
                   (unsafe @ map (\<lambda>k. ''UNKNOWN_FIELD:'' @ k) unknown @ shape @ state @ scope)
                   (unsafe @ map (\<lambda>k. ''BAD_SHAPE'') unknown @ shape @ state @ scope)
                   (if ss_ok publicSafe then ss_public_hash publicSafe else JNull)))))"

section \<open>Recall decisions\<close>

record recall_counts =
  rc_candidates :: jsval
  rc_tombstones :: jsval
  rc_sensitive :: jsval
  rc_safe :: bool

definition normalizeRecallCounts :: "node \<Rightarrow> jsval \<Rightarrow> recall_counts res" where
  "normalizeRecallCounts N options =
     ebind (normalizeCount (coals options [''candidate_count'', ''candidateCount''] (JInt 0)) ''candidate_count'') (\<lambda>candidates.
     ebind (normalizeCount (coals options [''tombstone_count'', ''tombstoneCount''] (JInt 0)) ''tombstone_count'') (\<lambda>tombstones.
     ebind (normalizeCount (coals options [''sensitive_count'', ''sensitiveCount''] (JInt 0)) ''sensitive_count'') (\<lambda>sensitive.
     Inr \<lparr>rc_candidates = candidates, rc_tombstones = tombstones, rc_sensitive = sensitive,
          rc_safe = (\<not> js_gt N tombstones candidates \<and> \<not> js_gt N sensitive candidates)\<rparr>)))"

definition counts_props :: "recall_counts \<Rightarrow> jsval" where
  "counts_props c = JObj
     [(''candidate_count'', rc_candidates c), (''tombstone_count'', rc_tombstones c), (''sensitive_count'', rc_sensitive c),
      (''safe'', JBool (rc_safe c))]"

text \<open>The loop of \<open>selectGrant\<close>: the first grant that verifies, else the first one with its verification.\<close>

fun select_loop :: "node \<Rightarrow> jsval \<Rightarrow> (jsval \<times> grant_check) option \<Rightarrow> jsval list \<Rightarrow> (jsval \<times> grant_check) option res" where
  "select_loop N scope first [] = Inr first"
| "select_loop N scope first (grant # grants) =
     ebind (verifyConsentGrant N grant scope) (\<lambda>v.
       if gc_ok v then Inr (Some (grant, v))
       else select_loop N scope (if first = None then Some (grant, v) else first) grants)"

definition selectGrant :: "node \<Rightarrow> jsval \<Rightarrow> jsval \<Rightarrow> jsval \<Rightarrow> (jsval \<times> grant_check) option res" where
  "selectGrant N primaryGrant grants scope =
     select_loop N scope None (push_if (\<not> nullish primaryGrant) primaryGrant @ expected_all grants)"

definition normalizeReasonCodes :: "jsval \<Rightarrow> jsval list res" where
  "normalizeReasonCodes v =
     (case v of
        JArr xs \<Rightarrow> unique_strings (\<lambda>i x. member_string RECALL_REASON_CODES (indexed ''reason_codes'' i @ '' is not supported'') x (indexed ''reason_codes'' i)) xs
      | _ \<Rightarrow> Inl (TypeError ''reason_codes must be an array''))"

definition first_of :: "jsval \<Rightarrow> jsval" where
  "first_of v =
     (case v of
        JArr (x # xs) \<Rightarrow> element x
      | JStr (c # s) \<Rightarrow> JStr [c]
      | JBytes (c # s) \<Rightarrow> JInt (int (of_char c))
      | JObj ps \<Rightarrow> obj_get ps ''0''
      | JInst c ps \<Rightarrow> obj_get ps ''0''
      | _ \<Rightarrow> JUndef)"

definition count_reasons :: "node \<Rightarrow> recall_counts \<Rightarrow> string list" where
  "count_reasons N counts =
     push_if (js_gt N (rc_tombstones counts) (JInt 0)) ''tombstone_present'' @
     push_if (js_gt N (rc_sensitive counts) (JInt 0)) ''sensitivity_blocked'' @
     push_if (\<not> rc_safe counts) ''candidate_limit_exceeded''"

definition grant_ref_of :: "jsval \<Rightarrow> jsval list" where
  "grant_ref_of grant = push_if (isPublicRef (getp grant ''grant_ref'')) (getp grant ''grant_ref'')"

text \<open>The decision, the grants it rests on and its reasons.\<close>

definition recall_decision :: "string list \<Rightarrow> (jsval \<times> grant_check) option \<Rightarrow> string \<times> jsval list \<times> string list" where
  "recall_decision reasons grant =
     (if reasons \<noteq> [] then (''deny'', [], reasons)
      else case grant of
             None \<Rightarrow> (''ask'', [], [''grant_missing''])
           | Some (value, v) \<Rightarrow>
               if gc_ok v then (''allow'', [getp value ''grant_ref''], [])
               else if ''REVOKED'' \<in> set (gc_reason_codes v) then (''deny'', grant_ref_of value, [''policy_denies_recall''])
               else if ''EXPIRED'' \<in> set (gc_reason_codes v) then (''deny'', grant_ref_of value, [''grant_expired''])
               else (''ask'', [], [''grant_missing'']))"

definition recall_fields :: "string \<Rightarrow> string \<Rightarrow> string \<Rightarrow> string \<Rightarrow> jsval list \<Rightarrow> recall_counts \<Rightarrow> jsval list \<Rightarrow> jsval list \<Rightarrow> jsval list \<Rightarrow> props" where
  "recall_fields request app policy decision codes counts grants proofs receipts =
     [(''schema'', JStr RECALL_VETO_DECISION_SCHEMA), (''request_ref'', JStr request), (''app_ref'', JStr app),
      (''policy_ref'', JStr policy), (''decision'', JStr decision), (''reason_codes'', JArr codes),
      (''candidate_count'', rc_candidates counts), (''sensitive_count'', rc_sensitive counts),
      (''tombstone_count'', rc_tombstones counts), (''grant_refs'', JArr grants), (''proof_refs'', JArr proofs),
      (''receipt_refs'', JArr receipts), (''safe_to_share'', JBool (decision = ''allow''))] @ BOUNDARY_FIELDS"

definition recall_scope :: "jsval \<Rightarrow> string \<Rightarrow> string \<Rightarrow> string \<Rightarrow> string \<Rightarrow> jsval" where
  "recall_scope options app operation zone purpose = JObj
     [(''app_ref'', JStr app), (''operation'', JStr operation), (''memory_zone_ref'', JStr zone), (''purpose_ref'', JStr purpose),
      (''now'', coals options [''now''] (JStr DEFAULT_NOW)),
      (''revoked_grant_refs'', pick options [''revoked_grant_refs'', ''revokedGrantRefs''])]"

definition createRecallVetoDecision :: "node \<Rightarrow> jsval \<Rightarrow> jsval res" where
  "createRecallVetoDecision N options =
     ebind (controller_assertPlainRecord options ''options'') (\<lambda>_.
     ebind (normalizePublicRef (coals options [''app_ref'', ''appRef''] (JStr ''ref:app:unspecified'')) ''app_ref'') (\<lambda>app.
     ebind (normalizeOperation (coals options [''operation''] (coal (first_of (getp options ''operations'')) (JStr ''recall_context'')))) (\<lambda>operation.
     ebind (normalizePublicRef (coals options [''memory_zone_ref'', ''memoryZoneRef'']
              (coal (first_of (getp options ''memory_zone_refs'')) (JStr ''ref:zone:default''))) ''memory_zone_ref'') (\<lambda>zone.
     ebind (normalizePublicRef (coals options [''purpose_ref'', ''purposeRef''] (JStr ''ref:purpose:unspecified'')) ''purpose_ref'') (\<lambda>purpose.
     ebind (normalizePublicRef (coals options [''policy_ref'', ''policyRef''] (JStr ''ref:policy:default'')) ''policy_ref'') (\<lambda>policy.
     ebind (normalizeRecallCounts N options) (\<lambda>counts.
     ebind (selectGrant N (coals options [''grant''] JNull) (coals options [''grants''] (JArr [])) (recall_scope options app operation zone purpose)) (\<lambda>grant.
     let (decision, grantRefs, reasons) = recall_decision (count_reasons N counts) grant
     in ebind (ref_or_made options [''request_ref'', ''requestRef''] (makePublicRef N ''request''
                [(''appRef'', JStr app), (''operation'', JStr operation), (''memoryZoneRef'', JStr zone), (''purposeRef'', JStr purpose),
                 (''counts'', counts_props counts)] [])) (\<lambda>q.
        ebind (normalizePublicRef q ''request_ref'') (\<lambda>request.
        ebind (normalizeReasonCodes (coals options [''reason_codes'', ''reasonCodes''] (JArr (map JStr reasons)))) (\<lambda>codes.
        ebind (normalizePublicRefArray (coals options [''grant_refs'', ''grantRefs''] (JArr grantRefs)) ''grant_refs'') (\<lambda>grants.
        let body = recall_fields request app policy decision codes counts grants
        in ebind (refs_or_made options [''proof_refs'', ''proofRefs''] (makePublicRef N ''proof'' (body [] []) [''proof_refs'', ''receipt_refs''])) (\<lambda>p.
           ebind (normalizeNonEmptyPublicRefArray p ''proof_refs'') (\<lambda>proofs.
           ebind (refs_or_made options [''receipt_refs'', ''receiptRefs''] (makePublicRef N ''receipt'' (body proofs []) [''receipt_refs''])) (\<lambda>r.
           ebind (normalizeNonEmptyPublicRefArray r ''receipt_refs'') (\<lambda>receipts.
           assertMemoryControllerPublicSafe N (JObj (body proofs receipts))))))))))))))))))"

section \<open>Private memory bubbles\<close>

definition bubble_fields :: "string \<Rightarrow> jsval list \<Rightarrow> string \<Rightarrow> string \<Rightarrow> jsval \<Rightarrow> jsval list \<Rightarrow> string \<Rightarrow> props" where
  "bubble_fields bubble apps purpose startedAt candidates receipts root =
     [(''schema'', JStr PRIVATE_MEMORY_BUBBLE_SCHEMA), (''bubble_ref'', JStr bubble), (''app_refs'', JArr apps),
      (''purpose_ref'', JStr purpose), (''status'', JStr ''open''), (''started_at'', JStr startedAt), (''closed_at'', JNull),
      (''candidate_count'', candidates), (''kept_count'', JInt 0), (''discarded_count'', JInt 0), (''receipt_refs'', JArr receipts),
      (''bubble_root'', JStr root)] @ BOUNDARY_FIELDS"

definition createPrivateMemoryBubble :: "node \<Rightarrow> jsval \<Rightarrow> jsval res" where
  "createPrivateMemoryBubble N options =
     ebind (controller_assertPlainRecord options ''options'') (\<lambda>_.
     ebind (normalizeDateTime N (coals options [''started_at'', ''startedAt'', ''now''] (JStr DEFAULT_NOW)) ''started_at'') (\<lambda>startedAt.
     ebind (normalizeNonEmptyPublicRefArray (one_or_default options [''app_refs'', ''appRefs''] ''app_ref'' ''ref:app:unspecified'') ''app_refs'') (\<lambda>apps.
     ebind (normalizePublicRef (coals options [''purpose_ref'', ''purposeRef''] (JStr ''ref:purpose:unspecified'')) ''purpose_ref'') (\<lambda>purpose.
     ebind (normalizeCount (coals options [''candidate_count'', ''candidateCount''] (JInt 0)) ''candidate_count'') (\<lambda>candidates.
     let body = (\<lambda>bubble. bubble_fields bubble apps purpose startedAt candidates)
     in ebind (ref_or_made options [''bubble_ref'', ''bubbleRef''] (makePublicRef N ''bubble'' (body [] [] []) [''bubble_ref'', ''receipt_refs'', ''bubble_root''])) (\<lambda>b.
        ebind (normalizePublicRef b ''bubble_ref'') (\<lambda>bubble.
        ebind (refs_or_made options [''receipt_refs'', ''receiptRefs''] (makePublicRef N ''receipt'' (body bubble [] []) [''receipt_refs'', ''bubble_root''])) (\<lambda>r.
        ebind (normalizeNonEmptyPublicRefArray r ''receipt_refs'') (\<lambda>receipts.
        ebind (controller_merkleRootFor N ''private_memory_bubble'' (body bubble receipts []) [''bubble_root'']) (\<lambda>root.
        assertMemoryControllerPublicSafe N (JObj (body bubble receipts root))))))))))))"

definition close_counts :: "node \<Rightarrow> jsval \<Rightarrow> jsval \<Rightarrow> string \<Rightarrow> (jsval \<times> jsval) res" where
  "close_counts N bubble options outcome =
     (let candidates = getp bubble ''candidate_count''
      in ebind (if outcome = ''keep'' then normalizeCount (coals options [''kept_count'', ''keptCount''] candidates) ''kept_count''
                else Inr (JInt 0)) (\<lambda>kept.
         if js_gt N kept candidates then Inl (TypeError ''kept_count cannot exceed candidate_count'')
         else ebind (if outcome = ''discard'' then normalizeCount (coals options [''discarded_count'', ''discardedCount''] candidates) ''discarded_count''
                     else Inr (JNum (max_zero (js_sub N candidates kept)))) (\<lambda>discarded.
              if js_gt N discarded candidates then Inl (TypeError ''discarded_count cannot exceed candidate_count'')
              else Inr (kept, discarded))))"

definition closePrivateMemoryBubble :: "node \<Rightarrow> jsval \<Rightarrow> jsval \<Rightarrow> jsval res" where
  "closePrivateMemoryBubble N bubble options =
     ebind (controller_assertPlainRecord bubble ''bubble'') (\<lambda>_.
     ebind (controller_assertPlainRecord options ''options'') (\<lambda>_.
     ebind (assertMemoryControllerPublicSafe N bubble) (\<lambda>_.
     if getp bubble ''schema'' \<noteq> JStr PRIVATE_MEMORY_BUBBLE_SCHEMA then Inl (TypeError ''bubble schema mismatch'')
     else if getp bubble ''status'' \<noteq> JStr ''open'' then Inl (TypeError ''bubble must be open'')
     else ebind (normalizeDateTime N (coals options [''closed_at'', ''closedAt'', ''now''] (JStr DEFAULT_NOW)) ''closed_at'') (\<lambda>closedAt.
          let outcome = js_String (coals options [''outcome'', ''close_outcome'', ''closeOutcome''] (JStr ''discard''))
          in if outcome \<notin> set BUBBLE_CLOSE_OUTCOMES then Inl (TypeError ''bubble outcome must be keep or discard'')
             else ebind (close_counts N bubble options outcome) (\<lambda>(kept, discarded).
                  ebind (normalizeNonEmptyPublicRefArray (coals options [''receipt_refs'', ''receiptRefs''] (getp bubble ''receipt_refs'')) ''receipt_refs'') (\<lambda>receipts.
                  let closed = spread2 bubble
                        [(''status'', JStr (if outcome = ''keep'' then ''kept'' else ''discarded'')), (''closed_at'', JStr closedAt),
                         (''kept_count'', kept), (''discarded_count'', discarded), (''receipt_refs'', JArr receipts), (''bubble_root'', JStr [])]
                  in ebind (controller_merkleRootFor N ''private_memory_bubble'' (props_of closed) [''bubble_root'']) (\<lambda>root.
                     assertMemoryControllerPublicSafe N (spread2 closed [(''bubble_root'', JStr root)]))))))))"

section \<open>Weather reports\<close>

definition normalizeTileStatus :: "jsval \<Rightarrow> string" where
  "normalizeTileStatus status =
     (let v = js_String status
      in if v \<in> set WEATHER_STATUSES then v
         else if v \<in> set STORM_TILE_STATUSES then ''storm_warning''
         else if v \<in> set ATTENTION_TILE_STATUSES then ''needs_attention''
         else ''needs_attention'')"

definition normalizeWeatherStatus :: "jsval \<Rightarrow> string res" where
  "normalizeWeatherStatus status =
     (let v = js_String status in if v \<notin> set WEATHER_STATUSES then Inl (TypeError ''status is not supported'') else Inr v)"

definition normalizeWeatherMetric :: "jsval \<Rightarrow> string res" where
  "normalizeWeatherMetric v = member_string WEATHER_METRICS ''metric is not supported'' v ''metric''"

definition normalizeIssueCodes :: "jsval \<Rightarrow> jsval list res" where
  "normalizeIssueCodes v =
     (case v of
        JArr xs \<Rightarrow> unique_strings (\<lambda>i x. member_string WEATHER_ISSUE_CODES (indexed ''issue_codes'' i @ '' is not supported'') x (indexed ''issue_codes'' i)) xs
      | _ \<Rightarrow> Inl (TypeError ''issue_codes must be an array''))"

definition normalizeNextAction :: "jsval \<Rightarrow> string res" where
  "normalizeNextAction v = member_string WEATHER_NEXT_ACTIONS ''next_action is not supported'' v ''next_action''"

definition metricFromTileRef :: "jsval \<Rightarrow> string" where
  "metricFromTileRef tileRef =
     (case tileRef of
        JStr s \<Rightarrow> (case filter (str_includes s) WEATHER_METRICS of [] \<Rightarrow> ''active_grants'' | metric # _ \<Rightarrow> metric)
      | _ \<Rightarrow> ''active_grants'')"

definition normalize_tile :: "nat \<Rightarrow> jsval \<Rightarrow> jsval res" where
  "normalize_tile i tile =
     ebind (controller_assertPlainRecord tile (indexed ''tiles'' i)) (\<lambda>_.
     let status = normalizeTileStatus (coals tile [''status''] (JStr ''sunny''))
     in ebind (normalizeWeatherMetric (coals tile [''metric''] (JStr (metricFromTileRef (pick tile [''tile_ref'', ''tileRef'']))))) (\<lambda>metric.
        ebind (normalizePublicRef (coals tile [''tile_ref'', ''tileRef''] (JStr (''ref:tile:'' @ nat_to_string i))) (indexed ''tiles'' i @ ''.tile_ref'')) (\<lambda>tile_ref.
        ebind (normalizeCount (coals tile [''count''] (JInt 0)) (indexed ''tiles'' i @ ''.count'')) (\<lambda>n.
        ebind (normalizePublicRefArray (coals tile [''evidence_refs'', ''evidenceRefs''] (JArr [])) (indexed ''tiles'' i @ ''.evidence_refs'')) (\<lambda>evidence.
        Inr (JObj [(''tile_ref'', JStr tile_ref), (''status'', JStr status), (''metric'', JStr metric), (''count'', n),
                   (''evidence_refs'', JArr evidence)]))))))"

definition normalizeWeatherTiles :: "jsval \<Rightarrow> jsval list res" where
  "normalizeWeatherTiles v =
     (case v of
        JArr [] \<Rightarrow> Inl (TypeError ''tiles must not be empty'')
      | JArr xs \<Rightarrow> mapiE 0 (\<lambda>i x. if x = JHole then Inr JHole else normalize_tile i x) xs
      | _ \<Rightarrow> Inl (TypeError ''tiles must be an array''))"

text \<open>A loop over tiles up to the first with a given status; a hole has no properties to read.\<close>

fun find_status :: "string \<Rightarrow> jsval list \<Rightarrow> jsval option res" where
  "find_status status [] = Inr None"
| "find_status status (tile # tiles) =
     ebind (getE (element tile) ''status'') (\<lambda>s. if s = JStr status then Inr (Some tile) else find_status status tiles)"

definition rollupWeatherStatus :: "jsval list \<Rightarrow> string res" where
  "rollupWeatherStatus tiles =
     ebind (find_status ''storm_warning'' tiles) (\<lambda>storm.
       if storm \<noteq> None then Inr ''storm_warning''
       else ebind (find_status ''needs_attention'' tiles) (\<lambda>attention.
              Inr (if attention \<noteq> None then ''needs_attention'' else ''sunny'')))"

definition issueCodeForMetric :: "jsval \<Rightarrow> string" where
  "issueCodeForMetric metric =
     (if metric = JStr ''expiring_grants'' then ''grant_expiring''
      else if metric = JStr ''recent_vetoes'' then ''veto_rate_elevated''
      else if metric = JStr ''open_private_bubbles'' then ''private_bubble_open''
      else if metric = JStr ''tombstone_pressure'' then ''tombstone_pressure''
      else if metric = JStr ''sensitive_candidates'' then ''sensitive_candidate_pressure''
      else if metric = JStr ''receipt_coverage'' then ''receipt_gap''
      else ''policy_attention_needed'')"

definition issueCodesForTiles :: "jsval list \<Rightarrow> string list res" where
  "issueCodesForTiles tiles =
     emap (\<lambda>issues. uniqueSorted (concat issues))
       (mapE (\<lambda>tile. ebind (getE (element tile) ''status'') (\<lambda>s.
          Inr (if s = JStr ''sunny'' then [] else [issueCodeForMetric (getp tile ''metric'')]))) tiles)"

definition firstNextAction :: "jsval list \<Rightarrow> string \<Rightarrow> jsval list \<Rightarrow> string res" where
  "firstNextAction tiles status issueCodes =
     (let has = (\<lambda>code. JStr code \<in> set issueCodes)
      in if status = ''sunny'' then Inr ''none''
         else if has ''private_bubble_open'' then Inr ''close_private_bubbles''
         else if has ''receipt_gap'' then Inr ''inspect_receipts''
         else if has ''grant_expiring'' \<or> has ''grant_missing'' then Inr ''review_grants''
         else if has ''policy_attention_needed'' then Inr ''review_policy''
         else ebind (find_status ''storm_warning'' tiles) (\<lambda>stormTile.
              Inr (if map_option (\<lambda>t. getp t ''metric'') stormTile = Some (JStr ''open_private_bubbles'')
                   then ''close_private_bubbles'' else ''ask_for_consent'')))"

definition evidenceRefsForTiles :: "jsval list \<Rightarrow> jsval list" where
  "evidenceRefsForTiles tiles =
     (let refs = concat (map (\<lambda>t. elems (getp t ''evidence_refs'')) tiles);
          strings = uniqueSorted (map js_String (filter isString refs));
          all = map JStr strings @ push_if (JUndef \<in> set refs) JUndef
      in if all = [] then [JStr ''ref:evidence:weather''] else all)"

definition default_tiles :: jsval where
  "default_tiles = JArr [JObj
     [(''tile_ref'', JStr ''ref:tile:active_grants''), (''status'', JStr ''sunny''), (''metric'', JStr ''active_grants''),
      (''count'', JInt 0), (''evidence_refs'', JArr [JStr ''ref:evidence:weather''])]]"

definition weather_fields :: "string \<Rightarrow> string \<Rightarrow> jsval list \<Rightarrow> jsval list \<Rightarrow> string \<Rightarrow> jsval list \<Rightarrow> props" where
  "weather_fields status generatedAt tiles issueCodes nextAction evidence =
     [(''schema'', JStr MEMORY_WEATHER_REPORT_SCHEMA), (''status'', JStr status), (''generated_at'', JStr generatedAt),
      (''tiles'', JArr tiles),
      (''issue_codes'', JArr (if status = ''sunny'' then [] else if issueCodes = [] then [JStr ''policy_attention_needed''] else issueCodes)),
      (''next_action'', JStr (if status = ''sunny'' then ''none'' else nextAction)), (''evidence_refs'', JArr evidence)] @ BOUNDARY_FIELDS"

definition createMemoryWeatherReport :: "node \<Rightarrow> jsval \<Rightarrow> jsval res" where
  "createMemoryWeatherReport N options =
     ebind (controller_assertPlainRecord options ''options'') (\<lambda>_.
     ebind (normalizeDateTime N (coals options [''generated_at'', ''generatedAt'', ''now''] (JStr DEFAULT_NOW)) ''generated_at'') (\<lambda>generatedAt.
     ebind (normalizeWeatherTiles (coals options [''tiles''] default_tiles)) (\<lambda>tiles.
     ebind (if nullish (getp options ''status'') then emap JStr (rollupWeatherStatus tiles) else Inr (getp options ''status'')) (\<lambda>s.
     ebind (normalizeWeatherStatus s) (\<lambda>status.
     ebind (if status = ''sunny'' then Inr [] else issueCodesForTiles tiles) (\<lambda>inferred.
     ebind (normalizeIssueCodes (coals options [''issue_codes'', ''issueCodes''] (JArr (map JStr inferred)))) (\<lambda>issueCodes.
     ebind (if nullish (pick options [''next_action'', ''nextAction'']) then emap JStr (firstNextAction tiles status issueCodes)
            else Inr (pick options [''next_action'', ''nextAction''])) (\<lambda>a.
     ebind (normalizeNextAction a) (\<lambda>nextAction.
     ebind (normalizeNonEmptyPublicRefArray (coals options [''evidence_refs'', ''evidenceRefs''] (JArr (evidenceRefsForTiles tiles))) ''evidence_refs'') (\<lambda>evidence.
     assertMemoryControllerPublicSafe N (JObj (weather_fields status generatedAt tiles issueCodes nextAction evidence))))))))))))"

end
