(* ===== verification/Sample_Controller.thy ===== *)
theory Sample_Controller
  imports Controller SafeText
begin

text \<open>
  Evaluation of the controller's checks on concrete objects, for the witnesses: field names that both
  scans allow, references and texts they accept, references made with the sample runtime.
\<close>

section \<open>Field names\<close>

definition snake :: "char \<Rightarrow> bool" where
  "snake c = (ch_lower c \<or> c = CHR ''_'')"

lemma split_camel_snake: "list_all snake k \<Longrightarrow> split_camel k = k"
proof (induction k rule: split_camel.induct)
  case (1 a b s)
  then have "\<not> ch_upper b" by (auto simp: snake_def ch_lower_iff ch_upper_iff)
  with 1 show ?case by simp
qed simp_all

lemma normalized_snake: "list_all snake k \<Longrightarrow> normalized_key k = k"
proof -
  have "lower_char c = c" if "snake c" for c
    using that unfolding snake_def by (elim disjE) (simp_all add: lower_char_def ch_lower_iff Let_def)
  then have "list_all snake k \<Longrightarrow> map lower_char k = k" by (induction k) simp_all
  then show "list_all snake k \<Longrightarrow> normalized_key k = k" by (simp add: normalized_key_def toLowerCase_def split_camel_snake)
qed

definition extra_suffixes :: "string list" where
  "extra_suffixes = [''account'', ''account_id'', ''customer'', ''customer_id'', ''customer_identifier'',
        ''provider_response'', ''signing_secret'', ''private_data'', ''memory_payload'', ''local_absolute_path'']"

lemma extra_forbidden_iff:
  "rx_full EXTRA_FORBIDDEN_KEY_RE k \<longleftrightarrow> (\<exists>s \<in> set extra_suffixes. k = s \<or> (\<exists>u. k = u @ ''_'' @ s))"
  unfolding EXTRA_FORBIDDEN_KEY_RE_def extra_suffixes_def by (auto simp: rx_full_iff_lang rx_lang suffix_lang)

text \<open>The two checks by comparison from the end.\<close>

definition ends_in :: "string list \<Rightarrow> string \<Rightarrow> bool" where
  "ends_in ss k = list_ex (\<lambda>s. startsWith (rev k) (rev s)) ss"

lemma ends_in_iff: "k = s \<or> (\<exists>u. k = u @ ''_'' @ s) \<Longrightarrow> startsWith (rev k) (rev s)"
  by (auto simp: startsWith_def)

definition good_key :: "string \<Rightarrow> bool" where
  "good_key k = (list_all snake k \<and> k \<notin> set PUBLIC_FORBIDDEN_KEYS \<and> \<not> ends_in (forbidden_suffixes @ extra_suffixes) k)"

lemma good_key_ok:
  assumes "good_key k"
  shows "\<not> isForbiddenPublicKey k" "\<not> rx_full EXTRA_FORBIDDEN_KEY_RE (normalized_key k)"
  using assms ends_in_iff [of k]
  by (auto simp: good_key_def isForbiddenPublicKey_iff extra_forbidden_iff normalized_snake ends_in_def list_ex_iff)

lemmas key_defs = good_key_def snake_def ch_lower_iff ends_in_def forbidden_suffixes_def extra_suffixes_def PUBLIC_FORBIDDEN_KEYS_def

lemma good_boundary: "list_all (\<lambda>p. good_key (fst p)) BOUNDARY_FIELDS"
  by (simp add: BOUNDARY_FIELDS_def key_defs)

lemma good_grant_keys:
  "good_key ''schema''" "good_key ''app_ref''" "good_key ''purpose_ref''" "good_key ''operations''" "good_key ''memory_zone_refs''"
  "good_key ''issued_at''" "good_key ''expires_at''" "good_key ''status''" "good_key ''grant_ref''" "good_key ''policy_ref''"
  "good_key ''proof_refs''" "good_key ''receipt_refs''"
  by (simp_all add: key_defs)

lemma good_other_keys:
  "good_key ''request_ref''" "good_key ''decision''" "good_key ''reason_codes''" "good_key ''candidate_count''" "good_key ''sensitive_count''"
  "good_key ''tombstone_count''" "good_key ''grant_refs''" "good_key ''safe_to_share''" "good_key ''bubble_ref''" "good_key ''app_refs''"
  "good_key ''started_at''" "good_key ''closed_at''" "good_key ''kept_count''" "good_key ''discarded_count''" "good_key ''bubble_root''"
  by (simp_all add: key_defs)

section \<open>Objects of scalars and arrays of texts\<close>

fun good_value :: "jsval \<Rightarrow> bool" where
  "good_value (JStr s) = safe_string False s"
| "good_value (JArr xs) = (\<forall>x \<in> set xs. \<exists>s. x = JStr s \<and> safe_string False s)"
| "good_value (JNum n) = is_finite n"
| "good_value (JBool b) = True"
| "good_value JNull = True"
| "good_value _ = False"

lemma scalar_no_vector: "\<forall>x \<in> set xs. \<exists>s. x = JStr s \<Longrightarrow> \<not> looksLikeEmbeddingVector xs"
  by (cases xs) (auto simp: looksLikeEmbeddingVector_def)

lemma good_value_public: "good_value v \<Longrightarrow> public_safe False v"
proof (cases v)
  case (JArr xs)
  moreover assume "good_value v"
  ultimately show ?thesis using scalar_no_vector [of xs] by auto
qed simp_all

lemma good_value_extra: "good_value v \<Longrightarrow> scanExtraForbiddenKeys v p = []"
proof (cases v)
  case (JArr xs)
  moreover assume "good_value v"
  ultimately show ?thesis by (force simp: in_set_enumerate_eq dest: nth_mem)
qed simp_all

text \<open>Objects whose fields pass both scans.\<close>

definition good_object :: "props \<Rightarrow> bool" where
  "good_object ps = list_all (\<lambda>p. good_key (fst p) \<and> good_value (snd p)) ps"

lemma good_object_public: "good_object ps \<Longrightarrow> public_safe False (JObj ps)"
  by (auto simp: good_object_def list_all_iff good_key_ok good_value_public)

lemma good_object_extra: "good_object ps \<Longrightarrow> scanExtraForbiddenKeys (JObj ps) p = []"
  by (auto simp: good_object_def list_all_iff good_key_ok good_value_extra push_if_def)

lemma good_value_no_instances: "good_value v \<Longrightarrow> no_instances v"
  by (cases v) force+

lemma good_object_canonical: "good_object ps \<Longrightarrow> is_ok (canonicalize (JObj ps))"
  using canonicalize_public_safe [OF good_object_public, of ps]
  by (auto simp: good_object_def list_all_iff good_value_no_instances canonicalize_def)

lemma good_object_scan:
  assumes "good_object ps"
  shows "\<exists>r. scanMemoryControllerPublicSafe N (JObj ps) = Inr r \<and> ss_ok r"
proof -
  have "\<forall>p. scanPublicSafeValue False (JObj ps) p = []" by (simp only: scan_iff_public_safe good_object_public [OF assms] simp_thms)
  moreover obtain c where "canonicalize (JObj ps) = Inr c" using good_object_canonical [OF assms] by (auto simp: is_ok_iff)
  ultimately show ?thesis
    by (simp add: scanMemoryControllerPublicSafe_def verifyPublicSafeArtifact_def Let_def scan_issues_def strict_of_def getp_verificationResult
        good_object_extra [OF assms] del: scanPublicSafeValue.simps scanExtraForbiddenKeys.simps)
qed

lemma good_object_assert: "good_object ps \<Longrightarrow> assertMemoryControllerPublicSafe N (JObj ps) = Inr (JObj ps)"
  using good_object_scan [of ps N] by (auto simp: assertMemoryControllerPublicSafe_def)

text \<open>References made with the sample digest: its first half is constant.\<close>

definition made_ref :: "string \<Rightarrow> string" where
  "made_ref tag = ''ref:'' @ tag @ '':'' @ replicate 32 (CHR ''0'')"

lemma good_object_sort: "good_object (sort_key fst (filter P ps)) \<longleftrightarrow> good_object (filter P ps)"
  by (simp add: good_object_def list_all_iff)

lemma makePublicRef_sample: "good_object ps \<Longrightarrow> makePublicRef sample tag ps om = Inr (made_ref tag)"
proof -
  assume "good_object ps"
  then have "good_object (sort_key fst (filter (\<lambda>(k, _). k \<notin> set om) ps))"
    unfolding good_object_sort by (auto simp: good_object_def list_all_iff)
  from good_object_canonical [OF this] obtain c where "canonicalize (JObj (sort_key fst (filter (\<lambda>(k, _). k \<notin> set om) ps))) = Inr c"
    by (auto simp: is_ok_iff)
  then show ?thesis
    by (simp add: makePublicRef_def sha256Str_sample sample_digest_def made_ref_def ID_HASH_LENGTH_def)
qed

section \<open>Times and references\<close>

definition sample_expiry :: string where
  "sample_expiry = ''1970-01-01T00:05:00.000Z''"

lemma sample_time_texts: "DEFAULT_NOW = pad4 1970 @ iso_tail 1 1 0 0 0 0" "sample_expiry = pad4 1970 @ iso_tail 1 1 0 5 0 0"
  by (simp_all add: pad4_def pad3_def pad2_def iso_tail_def DEFAULT_NOW_def sample_expiry_def char_eq_iff)

lemma sample_times:
  "rx_full DATE_TIME_RE DEFAULT_NOW" "rx_full DATE_TIME_RE sample_expiry"
  "Date_parse N DEFAULT_NOW = Some 0" "Date_parse N sample_expiry = Some 300000"
  unfolding sample_time_texts using iso_format [of 1970 1 1 0 0 0 0] iso_format [of 1970 1 1 0 5 0 0]
    Date_parse_text [of 1970 1 1 0 0 0 0 N] Date_parse_text [of 1970 1 1 0 5 0 0 N]
  by (simp_all add: MakeDay_def DayFromYear_def month_start_def)

lemma sample_time_prints: "toISOString 0 = Inr DEFAULT_NOW" "toISOString 300000 = Inr sample_expiry"
proof -
  have "YearFromDay 0 = 1970" by (rule year_unique) (simp_all add: DayFromYear_def)
  moreover have "DayFromYear 1970 = 0" by (simp add: DayFromYear_def)
  moreover have "MonthFromDay l 0 = 1" for l unfolding MonthFromDay_def upt_months by (simp add: month_start_steps)
  ultimately show "toISOString 0 = Inr DEFAULT_NOW" "toISOString 300000 = Inr sample_expiry"
    by (simp_all add: toISOString_def max_time_def Let_def sample_expiry_def DEFAULT_NOW_def year_text_def pad2_def pad3_def pad4_def month_start_steps char_eq_iff)
qed

lemma conc_intro: "u \<in> A \<Longrightarrow> v \<in> B \<Longrightarrow> u @ v \<in> conc A B"
  by (auto simp: conc_def)

lemma public_ref_intro:
  assumes "ch_alnum c" "list_all (alnum_or ''._~:@#?=&%+-'') s" "length s \<le> 255"
  shows "rx_full PUBLIC_REF_RE (''ref:'' @ [c] @ s)"
  unfolding PUBLIC_REF_RE_def rx_full_iff_lang rx_lang conc_UNIV_single
  by (intro conc_intro) (use assms in simp_all)

lemma safe_refs:
  "safe_string False ''ref:app:unspecified''" "safe_string False ''ref:purpose:unspecified''" "safe_string False ''ref:zone:default''" "safe_string False ''ref:policy:default''"
  by (rule safe_plain; simp add: plain_eval)+

lemma safe_made_intro:
  assumes "list_all plain_char tag" "\<not> list_ex (str_includes (''ref:'' @ tag @ '':'')) [''k_'', ''gh'', ''xox'', ''patent'']"
  shows "safe_string False (made_ref tag)"
proof (rule safe_plain)
  have "made_ref tag = (''ref:'' @ tag @ '':'') @ replicate 32 (CHR ''0'')" by (simp add: made_ref_def)
  moreover have "str_includes ((''ref:'' @ tag @ '':'') @ replicate 32 (CHR ''0'')) t \<longleftrightarrow> str_includes (''ref:'' @ tag @ '':'') t"
    if "t \<in> {''k_'', ''gh'', ''xox'', ''patent''}" for t using that by (intro str_includes_replicate) auto
  ultimately show "\<not> list_ex (str_includes (made_ref tag)) [''k_'', ''gh'', ''xox'', ''patent'']" using assms(2) by simp
  show "list_all plain_char (made_ref tag)" using assms(1) by (simp add: made_ref_def list_all_iff plain_char_def ch_lower_iff ch_digit_iff)
  show "\<not> path_like (made_ref tag)" by (simp add: path_like_def made_ref_def)
qed

lemma safe_made: "safe_string False (made_ref ''grant'')" "safe_string False (made_ref ''proof'')" "safe_string False (made_ref ''receipt'')"
   "safe_string False (made_ref ''request'')" "safe_string False (made_ref ''bubble'')"
  by (rule safe_made_intro; simp add: plain_eval)+

lemma safe_dates: "safe_string False DEFAULT_NOW" "safe_string False sample_expiry"
  by (rule safe_text; simp add: DEFAULT_NOW_def sample_expiry_def marked_def toLowerCase_def lower_char_def ch_space_def str_includes_rec path_like_def)+

lemma public_refs:
  "rx_full PUBLIC_REF_RE ''ref:app:unspecified''" "rx_full PUBLIC_REF_RE ''ref:purpose:unspecified''" "rx_full PUBLIC_REF_RE ''ref:zone:default''" "rx_full PUBLIC_REF_RE ''ref:policy:default''"
  using public_ref_intro [of "CHR ''a''" "''pp:unspecified''"] public_ref_intro [of "CHR ''p''" "''urpose:unspecified''"]
    public_ref_intro [of "CHR ''z''" "''one:default''"] public_ref_intro [of "CHR ''p''" "''olicy:default''"]
  by (simp_all add: alnum_or_def ch_alnum_def ch_lower_iff ch_upper_iff ch_digit_iff ch_in_def)

lemma public_made_intro:
  assumes "ch_alnum c" "list_all (alnum_or ''._~:@#?=&%+-'') t" "length t \<le> 6"
  shows "rx_full PUBLIC_REF_RE (made_ref (c # t))"
proof -
  have "list_all (alnum_or ''._~:@#?=&%+-'') (t @ '':'' @ replicate 32 (CHR ''0''))"
    unfolding list_all_append using assms(2) by (simp add: list_all_iff alnum_or_def ch_alnum_def ch_digit_iff)
  from public_ref_intro [OF assms(1) this] assms(3) show ?thesis by (simp add: made_ref_def)
qed

lemma public_made:
  "rx_full PUBLIC_REF_RE (made_ref ''grant'')" "rx_full PUBLIC_REF_RE (made_ref ''proof'')" "rx_full PUBLIC_REF_RE (made_ref ''receipt'')"
  "rx_full PUBLIC_REF_RE (made_ref ''request'')" "rx_full PUBLIC_REF_RE (made_ref ''bubble'')"
  by (rule public_made_intro; simp add: alnum_or_def ch_alnum_def ch_lower_iff)+

section \<open>A grant with default fields\<close>

definition sample_grant :: jsval where
  "sample_grant = JObj (grant_fields ''ref:app:unspecified'' ''ref:purpose:unspecified'' [JStr ''recall_context''] [JStr ''ref:zone:default'']
     DEFAULT_NOW sample_expiry ''active'' ''ref:policy:default'' (made_ref ''grant'') [JStr (made_ref ''proof'')] [JStr (made_ref ''receipt'')])"

lemma safe_words: "safe_string False ''active''" "safe_string False ''recall_context''" "safe_string False []"
  "safe_string False CONSENT_GRANT_SCHEMA" "safe_string False RECALL_VETO_DECISION_SCHEMA" "safe_string False PRIVATE_MEMORY_BUBBLE_SCHEMA"
  by (rule safe_plain; simp add: plain_eval CONSENT_GRANT_SCHEMA_def RECALL_VETO_DECISION_SCHEMA_def PRIVATE_MEMORY_BUBBLE_SCHEMA_def)+

lemma good_boundary_object: "good_object BOUNDARY_FIELDS"
  using good_boundary by (simp add: good_object_def BOUNDARY_FIELDS_def)

lemmas safe_strings = safe_refs safe_made safe_dates safe_words

lemma good_object_append [simp]: "good_object (ps @ qs) \<longleftrightarrow> good_object ps \<and> good_object qs"
  by (simp add: good_object_def)

lemma good_grant:
  assumes "grant \<in> {[], made_ref ''grant''}" "proofs \<in> {[], [JStr (made_ref ''proof'')]}" "receipts \<in> {[], [JStr (made_ref ''receipt'')]}"
  shows "good_object (grant_fields ''ref:app:unspecified'' ''ref:purpose:unspecified'' [JStr ''recall_context''] [JStr ''ref:zone:default'']
     DEFAULT_NOW sample_expiry ''active'' ''ref:policy:default'' grant proofs receipts)"
  using assms unfolding grant_fields_def good_object_append
  by (intro conjI good_boundary_object) (auto simp: good_object_def good_grant_keys safe_strings)

lemma normalizeDateTime_default: "normalizeDateTime N (JStr DEFAULT_NOW) f = Inr DEFAULT_NOW" "normalizeDateTime N (JStr sample_expiry) f = Inr sample_expiry"
  by (simp_all add: normalizeDateTime_def isDateTime_def sample_times sample_time_prints)

lemma sample_grant_times: "grant_times N (JObj []) = Inr (DEFAULT_NOW, sample_expiry)"
  by (simp add: grant_times_def normalizeDateTime_default normalizeTtl_def DEFAULT_GRANT_TTL_SECONDS_def addSeconds_def sample_times sample_time_prints)

lemma sample_ref_one: "rx_full PUBLIC_REF_RE s \<Longrightarrow> s \<noteq> [] \<Longrightarrow> normalizePublicRef (JStr s) f = Inr s"
  by (simp add: normalizePublicRef_def normalizeRequiredString_def)

lemma sample_ref_array: "rx_full PUBLIC_REF_RE s \<Longrightarrow> s \<noteq> [] \<Longrightarrow> normalizePublicRefArray (JArr [JStr s]) f = Inr [JStr s]"
  by (simp add: normalizePublicRefArray_def unique_strings_def map_strings_def sample_ref_one uniqueSorted_def set_of_distinct)

lemma sample_ref_nonempty_array: "rx_full PUBLIC_REF_RE s \<Longrightarrow> s \<noteq> [] \<Longrightarrow> normalizeNonEmptyPublicRefArray (JArr [JStr s]) f = Inr [JStr s]"
  by (simp add: normalizeNonEmptyPublicRefArray_def sample_ref_array)

lemma sample_operations: "normalizeOperations (JArr [JStr ''recall_context'']) = Inr [JStr ''recall_context'']"
  by (simp add: normalizeOperations_def unique_strings_def map_strings_def normalizeOperation_def member_string_def normalizeRequiredString_def GRANT_OPERATIONS_def uniqueSorted_def set_of_distinct)

lemma made_ref_nonempty [simp]: "made_ref tag \<noteq> []"
  by (simp add: made_ref_def)

lemma sample_made: "ref_or_made (JObj []) names (Inr r) = Inr (JStr r)" "refs_or_made (JObj []) names (Inr r) = Inr (JArr [JStr r])"
proof -
  have "nullish (pick (JObj []) names)" by (induction "JObj []" names rule: pick.induct) simp_all
  then show "ref_or_made (JObj []) names (Inr r) = Inr (JStr r)" "refs_or_made (JObj []) names (Inr r) = Inr (JArr [JStr r])"
    by (simp_all add: ref_or_made_def refs_or_made_def)
qed

lemma sample_refs:
  "normalizePublicRef (JStr ''ref:app:unspecified'') f = Inr ''ref:app:unspecified''"
  "normalizePublicRef (JStr ''ref:purpose:unspecified'') f = Inr ''ref:purpose:unspecified''"
  "normalizePublicRef (JStr ''ref:zone:default'') f = Inr ''ref:zone:default''"
  "normalizePublicRef (JStr ''ref:policy:default'') f = Inr ''ref:policy:default''"
  "normalizePublicRefArray (JArr [JStr ''ref:zone:default'']) f = Inr [JStr ''ref:zone:default'']"
  by (rule sample_ref_one sample_ref_array, rule public_refs, simp)+

lemma sample_made_refs:
  "normalizePublicRef (JStr (made_ref ''grant'')) f = Inr (made_ref ''grant'')" "normalizePublicRef (JStr (made_ref ''request'')) f = Inr (made_ref ''request'')"
  "normalizePublicRef (JStr (made_ref ''bubble'')) f = Inr (made_ref ''bubble'')"
  "normalizePublicRefArray (JArr [JStr (made_ref ''grant'')]) f = Inr [JStr (made_ref ''grant'')]"
  "normalizePublicRefArray (JArr [JStr (made_ref ''proof'')]) f = Inr [JStr (made_ref ''proof'')]"
  "normalizePublicRefArray (JArr [JStr (made_ref ''receipt'')]) f = Inr [JStr (made_ref ''receipt'')]"
  by (rule sample_ref_one sample_ref_array, rule public_made, simp)+

lemmas sample_norm = sample_grant_times sample_refs sample_made_refs sample_operations sample_made

lemma sample_grant_created: "createConsentGrant sample (JObj []) = Inr sample_grant"
  by (simp add: createConsentGrant_def controller_assertPlainRecord_def controller_isPlainRecord_def sample_norm one_or_default_def
     normalizeGrantStatus_def member_string_def normalizeRequiredString_def GRANT_STATUSES_def makePublicRef_sample good_grant
     normalizeNonEmptyPublicRefArray_def good_object_assert sample_grant_def Let_def)

end
