(* ===== verification/ControllerGrant.thy ===== *)
theory ControllerGrant
  imports Sample_Controller
begin

text \<open>
  Consent grants and recall decisions: what a grant that verifies guarantees, which created grants
  verify, and when a decision allows memory to be shared.
\<close>

section \<open>Normalised values\<close>

lemma normalizeRequiredString_Inr [simp]: "normalizeRequiredString v f = Inr s \<longleftrightarrow> v = JStr s \<and> s \<noteq> []"
  by (cases v) (auto simp: normalizeRequiredString_def)

lemma normalizePublicRef_Inr: "normalizePublicRef v f = Inr s \<longleftrightarrow> v = JStr s \<and> s \<noteq> [] \<and> rx_full PUBLIC_REF_RE s"
  by (auto simp: normalizePublicRef_def ebind_Inr_iff split: if_splits)

lemma member_string_Inr: "member_string t m v f = Inr s \<longleftrightarrow> v = JStr s \<and> s \<noteq> [] \<and> s \<in> set t"
  by (auto simp: member_string_def ebind_Inr_iff split: if_splits)

lemma set_uniqueSorted [simp]: "set (uniqueSorted xs) = set xs"
  by (simp add: uniqueSorted_def)

lemma uniqueSorted_Nil [simp]: "uniqueSorted xs = [] \<longleftrightarrow> xs = []"
  by (metis set_empty set_uniqueSorted)

lemma distinct_uniqueSorted [simp]: "distinct (uniqueSorted xs)"
  by (simp add: uniqueSorted_def)

lemma map_strings_set:
  assumes "map_strings f xs = Inr ss" "s \<in> set ss"
  shows "\<exists>i x. f i x = Inr s"
proof -
  obtain os where os: "mapiE 0 (\<lambda>i x. if x = JHole then Inr None else emap Some (f i x)) xs = Inr os" "Some s \<in> set os"
    using assms by (auto simp: map_strings_def emap_Inr_iff)
  then show ?thesis
    by (auto simp: mapiE_Inr_iff in_set_conv_nth emap_Inr_iff split: if_splits) (metis option.distinct(1) option.inject)
qed

text \<open>A result without \<open>undefined\<close> is a list of distinct strings that the element rule returned.\<close>

lemma unique_strings_Inr:
  assumes "unique_strings f xs = Inr ys" "JUndef \<notin> set ys"
  obtains ss where "ys = map JStr ss" "distinct ss" "\<forall>s \<in> set ss. \<exists>i x. f i x = Inr s"
proof -
  from assms obtain ss where ss: "map_strings f xs = Inr ss" "ys = map JStr (uniqueSorted ss)"
    by (auto simp: unique_strings_def emap_Inr_iff push_if_def split: if_splits)
  then show thesis using that [of "uniqueSorted ss"] map_strings_set [OF ss(1)] by auto
qed

lemma element_JStr [simp]: "element (JStr s) = JStr s"
  by (simp add: element_def)

lemma map_element_JStr [simp]: "map element (map JStr ss) = map JStr ss"
  by simp

lemma isPublicRefArray_strings:
  "isPublicRefArray (JArr (map JStr ss)) m \<longleftrightarrow> (\<not> m \<or> ss \<noteq> []) \<and> distinct ss \<and> (\<forall>s \<in> set ss. rx_full PUBLIC_REF_RE s)"
  by (auto simp: isPublicRefArray_def list_all_iff isPublicRef_def distinct_map inj_on_def comp_def)

lemma normalizePublicRefArray_ok:
  assumes "normalizePublicRefArray v f = Inr ys" "JUndef \<notin> set ys"
  shows "isPublicRefArray (JArr ys) m \<longleftrightarrow> (m \<longrightarrow> ys \<noteq> [])"
proof -
  obtain xs where xs: "unique_strings (\<lambda>i x. normalizePublicRef x (indexed f i)) xs = Inr ys"
    using assms(1) by (auto simp: normalizePublicRefArray_def split: jsval.splits)
  from xs assms(2) obtain ss where "ys = map JStr ss" "distinct ss" "\<forall>s \<in> set ss. \<exists>i x. normalizePublicRef x (indexed f i) = Inr s"
    by (rule unique_strings_Inr)
  then show ?thesis by (auto simp: isPublicRefArray_strings normalizePublicRef_Inr)
qed

lemma normalizeNonEmpty_ok:
  assumes "normalizeNonEmptyPublicRefArray v f = Inr ys" "JUndef \<notin> set ys"
  shows "isPublicRefArray (JArr ys) True"
  using assms normalizePublicRefArray_ok [of v f ys True]
  by (auto simp: normalizeNonEmptyPublicRefArray_def ebind_Inr_iff split: if_splits)

lemma normalizeOperations_ok:
  assumes "normalizeOperations v = Inr ys" "JUndef \<notin> set ys"
  shows "isOperationArray (JArr ys)"
proof -
  obtain xs where xs: "unique_strings (\<lambda>_. normalizeOperation) xs = Inr ys" "ys \<noteq> []"
    using assms(1) by (auto simp: normalizeOperations_def ebind_Inr_iff split: jsval.splits if_splits)
  from xs(1) assms(2) obtain ss where "ys = map JStr ss" "distinct ss" "\<forall>s \<in> set ss. \<exists>(i :: nat) x. normalizeOperation x = Inr s"
    by (rule unique_strings_Inr)
  then show ?thesis using xs(2)
    by (auto simp: isOperationArray_def normalizeOperation_def member_string_Inr list_all_iff distinct_map inj_on_def comp_def)
qed

lemma normalizeDateTime_ok:
  assumes "normalizeDateTime N v f = Inr s"
  shows "isDateTime N (JStr s) \<longleftrightarrow> s \<noteq> last_midnight"
proof -
  obtain u t where u: "v = JStr u" "rx_full DATE_TIME_RE u" "Date_parse N u = Some t" "toISOString t = Inr s"
    using assms by (auto simp: normalizeDateTime_def isDateTime_def split: if_splits jsval.splits)
  from Date_parse_bounds [OF u(2,3)] show ?thesis
  proof
    assume "four_digit t"
    then obtain s' where "toISOString t = Inr s'" "rx_full DATE_TIME_RE s'" "Date_parse N s' = Some t" by (rule toISOString_four_digit)
    with u(4) not_date_time_last show ?thesis by (auto simp: isDateTime_def)
  next
    assume "t = 253402300800000"
    with u(4) not_date_time_last show ?thesis by (simp add: toISOString_last isDateTime_def)
  qed
qed

section \<open>The scan of the controller\<close>

lemma assert_controller_safe:
  assumes "assertMemoryControllerPublicSafe N v = Inr w"
  obtains r where "w = v" "scanMemoryControllerPublicSafe N v = Inr r" "ss_ok r" "public_safe False v" "is_ok (canonicalize v)"
    "scanExtraForbiddenKeys v ''$'' = []"
proof -
  from assms obtain r where r: "w = v" "scanMemoryControllerPublicSafe N v = Inr r" "ss_ok r"
    by (auto simp: assertMemoryControllerPublicSafe_def ebind_Inr_iff split: if_splits)
  moreover from this have "public_safe False v" "is_ok (canonicalize v)" "scanExtraForbiddenKeys v ''$'' = []"
    by (auto simp: scanMemoryControllerPublicSafe_def verifyPublicSafeArtifact_def Let_def ebind_Inr_iff emap_Inr_iff scan_issues_def
        strict_of_def scan_iff_public_safe getp_verificationResult is_ok_iff split: if_splits)
  ultimately show thesis using that by blast
qed

lemma safe_array: "public_safe st (JObj ps) \<Longrightarrow> (k, JArr xs) \<in> set ps \<Longrightarrow> JUndef \<notin> set xs"
  by force

section \<open>Created grants\<close>

lemma grant_get:
  "getp (JObj (grant_fields app purpose ops zones at till status policy grant proofs receipts)) ''schema'' = JStr CONSENT_GRANT_SCHEMA"
  "getp (JObj (grant_fields app purpose ops zones at till status policy grant proofs receipts)) ''app_ref'' = JStr app"
  "getp (JObj (grant_fields app purpose ops zones at till status policy grant proofs receipts)) ''purpose_ref'' = JStr purpose"
  "getp (JObj (grant_fields app purpose ops zones at till status policy grant proofs receipts)) ''operations'' = JArr ops"
  "getp (JObj (grant_fields app purpose ops zones at till status policy grant proofs receipts)) ''memory_zone_refs'' = JArr zones"
  "getp (JObj (grant_fields app purpose ops zones at till status policy grant proofs receipts)) ''issued_at'' = JStr at"
  "getp (JObj (grant_fields app purpose ops zones at till status policy grant proofs receipts)) ''expires_at'' = JStr till"
  "getp (JObj (grant_fields app purpose ops zones at till status policy grant proofs receipts)) ''status'' = JStr status"
  "getp (JObj (grant_fields app purpose ops zones at till status policy grant proofs receipts)) ''grant_ref'' = JStr grant"
  "getp (JObj (grant_fields app purpose ops zones at till status policy grant proofs receipts)) ''policy_ref'' = JStr policy"
  "getp (JObj (grant_fields app purpose ops zones at till status policy grant proofs receipts)) ''proof_refs'' = JArr proofs"
  "getp (JObj (grant_fields app purpose ops zones at till status policy grant proofs receipts)) ''receipt_refs'' = JArr receipts"
  by (simp_all add: grant_fields_def obj_get_Cons)

lemma grant_boundary:
  "concat (map (\<lambda>(field, v). push_if (getp (JObj (grant_fields app purpose ops zones at till status policy grant proofs receipts)) field \<noteq> v)
     (''BAD_'' @ map upper_char field)) BOUNDARY_FIELDS) = []"
  by (simp add: grant_fields_def BOUNDARY_FIELDS_def obj_get_Cons)

lemma grant_keys: "filter (\<lambda>k. k \<notin> set CONSENT_GRANT_FIELDS) (keys_of (JObj (grant_fields app purpose ops zones at till status policy grant proofs receipts))) = []"
  by (simp add: grant_fields_def CONSENT_GRANT_FIELDS_def keys_of_def filter_empty_conv)

lemma createConsentGrant_Inr:
  assumes "createConsentGrant N options = Inr g"
  obtains app purpose ops zones at till status policy grant proofs receipts r where
    "g = JObj (grant_fields app purpose ops zones at till status policy grant proofs receipts)"
    "isPublicRef (JStr app)" "isPublicRef (JStr purpose)" "isOperationArray (JArr ops)" "isPublicRefArray (JArr zones) True \<longleftrightarrow> zones \<noteq> []"
    "isDateTime N (JStr at) \<longleftrightarrow> at \<noteq> last_midnight" "isDateTime N (JStr till) \<longleftrightarrow> till \<noteq> last_midnight" "status \<in> set GRANT_STATUSES"
    "isPublicRef (JStr policy)" "isPublicRef (JStr grant)" "isPublicRefArray (JArr proofs) True" "isPublicRefArray (JArr receipts) True"
    "scanMemoryControllerPublicSafe N g = Inr r" "ss_ok r"
proof -
  obtain app purpose ops zones at till status policy v grant p proofs q receipts where
    n: "grant_times N options = Inr (at, till)" "\<exists>v. normalizePublicRef v ''app_ref'' = Inr app" "\<exists>v. normalizePublicRef v ''purpose_ref'' = Inr purpose"
      "\<exists>v. normalizeOperations v = Inr ops" "\<exists>v. normalizePublicRefArray v ''memory_zone_refs'' = Inr zones" "\<exists>v. normalizeGrantStatus v = Inr status"
      "\<exists>v. normalizePublicRef v ''policy_ref'' = Inr policy" "normalizePublicRef v ''grant_ref'' = Inr grant"
      "normalizeNonEmptyPublicRefArray p ''proof_refs'' = Inr proofs" "normalizeNonEmptyPublicRefArray q ''receipt_refs'' = Inr receipts"
    and a: "assertMemoryControllerPublicSafe N (JObj (grant_fields app purpose ops zones at till status policy grant proofs receipts)) = Inr g"
    using assms unfolding createConsentGrant_def Let_def ebind_Inr_iff case_prod_unfold by (elim exE conjE) (metis prod.collapse)
  let ?f = "grant_fields app purpose ops zones at till status policy grant proofs receipts"
  obtain r where r: "g = JObj ?f" "scanMemoryControllerPublicSafe N (JObj ?f) = Inr r" "ss_ok r" "public_safe False (JObj ?f)"
    using assert_controller_safe [OF a] by metis
  have u: "JUndef \<notin> set ops" "JUndef \<notin> set zones" "JUndef \<notin> set proofs" "JUndef \<notin> set receipts"
    using safe_array [OF r(4), of "''operations''" ops] safe_array [OF r(4), of "''memory_zone_refs''" zones]
      safe_array [OF r(4), of "''proof_refs''" proofs] safe_array [OF r(4), of "''receipt_refs''" receipts]
    by (simp_all add: grant_fields_def)
  have "isDateTime N (JStr at) \<longleftrightarrow> at \<noteq> last_midnight" "isDateTime N (JStr till) \<longleftrightarrow> till \<noteq> last_midnight"
    using n(1) by (auto simp: grant_times_def ebind_Inr_iff dest!: normalizeDateTime_ok)
  with n r u show thesis
    by (intro that [of app purpose ops zones at till status policy grant proofs receipts r])
      (auto simp: isPublicRef_def normalizePublicRef_Inr normalizeOperations_ok normalizePublicRefArray_ok normalizeNonEmpty_ok normalizeGrantStatus_def member_string_Inr)
qed

section \<open>Verification of grants\<close>

text \<open>A grant that is neither expired nor revoked at a time, and that covers a scope.\<close>

definition in_force :: "node \<Rightarrow> jsval \<Rightarrow> jsval \<Rightarrow> string \<Rightarrow> bool" where
  "in_force N g options now \<longleftrightarrow> getp g ''status'' = JStr ''active'' \<and> getp options ''revoked'' \<noteq> JBool True
     \<and> \<not> containsRef N (pick options [''revoked_grant_refs'', ''revokedGrantRefs'']) (getp g ''grant_ref'')
     \<and> (\<exists>e x y. getp g ''expires_at'' = JStr e \<and> Date_parse N e = Some x \<and> Date_parse N now = Some y \<and> y < x)"

definition covers :: "jsval \<Rightarrow> jsval \<Rightarrow> bool" where
  "covers g options \<longleftrightarrow>
     (pick options [''app_ref'', ''appRef''] \<noteq> JUndef \<longrightarrow> js_eq (getp g ''app_ref'') (pick options [''app_ref'', ''appRef'']))
     \<and> (pick options [''purpose_ref'', ''purposeRef''] \<noteq> JUndef \<longrightarrow> js_eq (getp g ''purpose_ref'') (pick options [''purpose_ref'', ''purposeRef'']))
     \<and> (\<forall>x \<in> set (expectedOperations options). granted (getp g ''operations'') x)
     \<and> (\<forall>x \<in> set (expectedMemoryZoneRefs options). granted (getp g ''memory_zone_refs'') x)"

lemma compareScope_Nil: "compareScope g options = [] \<longleftrightarrow> covers g options"
  unfolding compareScope_def covers_def Let_def append_is_Nil_conv push_if_Nil list_ex_iff by blast

lemma normalizeDateTime_parses:
  assumes "normalizeDateTime N v f = Inr s"
  shows "\<exists>t. Date_parse N s = Some t"
  using normalizeDateTime_ok [OF assms] Date_parse_last [of N] by (cases "s = last_midnight") (auto simp: isDateTime_def)

lemma state_errors_Nil:
  assumes "isDateTime N (getp g ''expires_at'')" "getp g ''status'' \<in> JStr ` set GRANT_STATUSES" "Date_parse N now = Some y"
  shows "grant_state_errors N g options now = [] \<longleftrightarrow> in_force N g options now"
proof -
  obtain e x where e: "getp g ''expires_at'' = JStr e" "Date_parse N e = Some x"
    using assms(1) by (auto simp: isDateTime_def split: jsval.splits)
  have "getp g ''status'' \<noteq> JStr ''expired'' \<and> getp g ''status'' \<noteq> JStr ''revoked'' \<longleftrightarrow> getp g ''status'' = JStr ''active''"
    using assms(2) by (auto simp: GRANT_STATUSES_def)
  then show ?thesis unfolding grant_state_errors_def in_force_def append_is_Nil_conv push_if_Nil time_le_def
    using e assms by (auto simp: not_le)
qed

definition grant_safe :: "node \<Rightarrow> jsval \<Rightarrow> bool" where
  "grant_safe N g \<longleftrightarrow> (\<exists>r. scanMemoryControllerPublicSafe N g = Inr r \<and> ss_ok r)"

text \<open>A grant that is valid for a scope, and the verdict of a verification that returns.\<close>

definition valid_grant :: "node \<Rightarrow> jsval \<Rightarrow> jsval \<Rightarrow> bool" where
  "valid_grant N options g \<longleftrightarrow> controller_isPlainRecord g \<and> grant_safe N g \<and> set (keys_of g) \<subseteq> set CONSENT_GRANT_FIELDS \<and> grant_shape_errors N g = []
     \<and> (\<exists>now. normalizeDateTime N (coals options [''now''] (JStr DEFAULT_NOW)) ''now'' = Inr now \<and> in_force N g options now) \<and> covers g options"

lemma verifyConsentGrant_ok:
  assumes "verifyConsentGrant N g options = Inr v"
  shows "gc_ok v \<longleftrightarrow> valid_grant N options g"
proof (cases "controller_isPlainRecord g")
  case True
  with assms obtain r now where r: "scanMemoryControllerPublicSafe N g = Inr r"
    and now: "normalizeDateTime N (coals options [''now''] (JStr DEFAULT_NOW)) ''now'' = Inr now"
    and ok: "gc_ok v \<longleftrightarrow> ss_ok r \<and> filter (\<lambda>k. k \<notin> set CONSENT_GRANT_FIELDS) (keys_of g) = [] \<and> grant_shape_errors N g = []
       \<and> grant_state_errors N g options now = [] \<and> compareScope g options = []"
    by (auto simp: verifyConsentGrant_def Let_def ebind_Inr_iff verification_def simp del: coals.simps)
  have "isDateTime N (getp g ''expires_at'') \<and> getp g ''status'' \<in> JStr ` set GRANT_STATUSES" if "grant_shape_errors N g = []"
    using that unfolding grant_shape_errors_def append_is_Nil_conv push_if_Nil by blast
  moreover obtain y where "Date_parse N now = Some y" using normalizeDateTime_parses [OF now] by blast
  ultimately have "grant_shape_errors N g = [] \<Longrightarrow> grant_state_errors N g options now = [] \<longleftrightarrow> in_force N g options now"
    using state_errors_Nil by blast
  then show ?thesis using True ok r now
    by (auto simp: valid_grant_def grant_safe_def compareScope_Nil filter_empty_conv subset_iff simp del: coals.simps)
qed (use assms in \<open>auto simp: verifyConsentGrant_def verification_def valid_grant_def\<close>)

interpretation cg: verifier "\<lambda>options g. verifyConsentGrant N g options" gc_ok "valid_grant N" for N
  by unfold_locales (rule verifyConsentGrant_ok)

lemma created_shape:
  assumes "createConsentGrant N options = Inr g"
  shows "controller_isPlainRecord g" "grant_safe N g" "set (keys_of g) \<subseteq> set CONSENT_GRANT_FIELDS"
    "grant_shape_errors N g = [] \<longleftrightarrow> getp g ''memory_zone_refs'' \<noteq> JArr [] \<and> getp g ''issued_at'' \<noteq> JStr last_midnight
       \<and> getp g ''expires_at'' \<noteq> JStr last_midnight"
proof -
  obtain app purpose ops zones at till status policy grant proofs receipts r where
    g: "g = JObj (grant_fields app purpose ops zones at till status policy grant proofs receipts)"
    and f: "isPublicRef (JStr app)" "isPublicRef (JStr purpose)" "isOperationArray (JArr ops)" "isPublicRefArray (JArr zones) True \<longleftrightarrow> zones \<noteq> []"
    "isDateTime N (JStr at) \<longleftrightarrow> at \<noteq> last_midnight" "isDateTime N (JStr till) \<longleftrightarrow> till \<noteq> last_midnight" "status \<in> set GRANT_STATUSES"
    "isPublicRef (JStr policy)" "isPublicRef (JStr grant)" "isPublicRefArray (JArr proofs) True" "isPublicRefArray (JArr receipts) True"
    "scanMemoryControllerPublicSafe N g = Inr r" "ss_ok r"
    using assms by (rule createConsentGrant_Inr)
  show "controller_isPlainRecord g" "grant_safe N g" using g f by (auto simp: controller_isPlainRecord_def grant_safe_def)
  show "set (keys_of g) \<subseteq> set CONSENT_GRANT_FIELDS" using grant_keys unfolding g filter_empty_conv by blast
  show "grant_shape_errors N g = [] \<longleftrightarrow> getp g ''memory_zone_refs'' \<noteq> JArr [] \<and> getp g ''issued_at'' \<noteq> JStr last_midnight
       \<and> getp g ''expires_at'' \<noteq> JStr last_midnight"
    unfolding grant_shape_errors_def g grant_get grant_boundary by (simp add: f)
qed

section \<open>The sample grant\<close>

lemma verifyConsentGrant_total:
  assumes "grant_safe N g" and "normalizeDateTime N (coals options [''now''] (JStr DEFAULT_NOW)) ''now'' = Inr now"
  shows "\<exists>v. verifyConsentGrant N g options = Inr v"
  using assms by (auto simp: verifyConsentGrant_def grant_safe_def Let_def simp del: coals.simps)

lemma sample_now: "normalizeDateTime N (coals (JObj []) [''now''] (JStr DEFAULT_NOW)) ''now'' = Inr DEFAULT_NOW"
  by (simp add: normalizeDateTime_default)

lemma sample_dates_short: "DEFAULT_NOW \<noteq> last_midnight" "sample_expiry \<noteq> last_midnight"
  by (simp_all add: DEFAULT_NOW_def sample_expiry_def last_midnight_def)

lemma sample_grant_state:
  "in_force N sample_grant (JObj []) DEFAULT_NOW" "covers sample_grant (JObj [])" "getp sample_grant ''memory_zone_refs'' \<noteq> JArr []"
  "getp sample_grant ''issued_at'' \<noteq> JStr last_midnight" "getp sample_grant ''expires_at'' \<noteq> JStr last_midnight"
  unfolding in_force_def covers_def sample_grant_def grant_get
  by (simp_all add: sample_times containsRef_def expectedOperations_def expectedMemoryZoneRefs_def expected_all_def sample_dates_short)

lemma sample_grant_verified: "\<exists>v. verifyConsentGrant sample sample_grant (JObj []) = Inr v \<and> gc_ok v"
proof -
  obtain v where v: "verifyConsentGrant sample sample_grant (JObj []) = Inr v"
    using verifyConsentGrant_total [OF created_shape(2) [OF sample_grant_created] sample_now] by blast
  with cg.verdict [OF v] created_shape [OF sample_grant_created] sample_grant_state sample_now show ?thesis unfolding valid_grant_def by blast
qed

text \<open>
  C7. Consent is fail-closed: a grant that verifies is a public-safe object with known fields and the
  boundary flags as required, is active, names an expiry after the given time, is not revoked, and
  covers the application, purpose, operations and memory zones asked for.
\<close>

theorem verifyConsentGrant_sound:
  assumes "verifyConsentGrant N g options = Inr v" and "gc_ok v"
  shows "(\<exists>now. normalizeDateTime N (coals options [''now''] (JStr DEFAULT_NOW)) ''now'' = Inr now \<and> in_force N g options now)
    \<and> covers g options \<and> public_safe False g \<and> set (keys_of g) \<subseteq> set CONSENT_GRANT_FIELDS
    \<and> (\<forall>(field, b) \<in> set BOUNDARY_FIELDS. getp g field = b)"
proof -
  have ok: "grant_safe N g" "grant_shape_errors N g = []" using cg.verdict [OF assms(1)] assms(2) unfolding valid_grant_def by blast+
  have "public_safe False g"
    using ok(1) by (auto simp: grant_safe_def scanMemoryControllerPublicSafe_def verifyPublicSafeArtifact_def Let_def ebind_Inr_iff emap_Inr_iff
        scan_issues_def strict_of_def scan_iff_public_safe getp_verificationResult split: if_splits)
  moreover have "\<forall>(field, b) \<in> set BOUNDARY_FIELDS. getp g field = b"
    using ok(2) unfolding grant_shape_errors_def append_is_Nil_conv concat_map_Nil by (auto simp: push_if_Nil)
  ultimately show ?thesis using cg.verdict [OF assms(1)] assms(2) unfolding valid_grant_def by blast
qed

theorem verifyConsentGrant_sound_witness:
  "\<exists>v. verifyConsentGrant sample sample_grant (JObj []) = Inr v \<and> gc_ok v \<and> public_safe False sample_grant"
  using sample_grant_verified verifyConsentGrant_sound [of sample sample_grant "JObj []"] by blast

text \<open>
  C27. Which created grants verify: a grant made by \<open>createConsentGrant\<close> passes \<open>verifyConsentGrant\<close>
  exactly when it is in force at the time given and covers the scope, provided that it names a memory
  zone and that its times have four-digit years.  \<open>createConsentGrant\<close> checks neither of the last two.
\<close>

theorem createConsentGrant_verifies_iff:
  assumes "createConsentGrant N made = Inr g" and "verifyConsentGrant N g options = Inr v"
    and "normalizeDateTime N (coals options [''now''] (JStr DEFAULT_NOW)) ''now'' = Inr now"
  shows "gc_ok v \<longleftrightarrow> in_force N g options now \<and> covers g options
     \<and> getp g ''memory_zone_refs'' \<noteq> JArr [] \<and> getp g ''issued_at'' \<noteq> JStr last_midnight \<and> getp g ''expires_at'' \<noteq> JStr last_midnight"
  using cg.verdict [OF assms(2)] created_shape [OF assms(1)] assms(3) unfolding valid_grant_def by auto

theorem createConsentGrant_verifies_iff_witness:
  "\<exists>v. createConsentGrant sample (JObj []) = Inr sample_grant \<and> verifyConsentGrant sample sample_grant (JObj []) = Inr v \<and> gc_ok v"
proof -
  obtain v where v: "verifyConsentGrant sample sample_grant (JObj []) = Inr v" using sample_grant_verified by blast
  from createConsentGrant_verifies_iff [OF sample_grant_created v sample_now] sample_grant_state v sample_grant_created show ?thesis by blast
qed

end
