(* ===== verification/ControllerRecall.thy ===== *)
theory ControllerRecall
  imports ControllerGrant
begin

text \<open>
  Recall decisions: when memory may be shared.
\<close>

section \<open>Counts\<close>

lemma normalizeCount_Inr: "normalizeCount v f = Inr w \<longleftrightarrow> w = v \<and> as_count v \<noteq> None"
  by (auto simp: normalizeCount_def)

lemma num_less_decimal:
  assumes "num_int m = Some i" "num_int n = Some j"
  shows "num_less m n \<longleftrightarrow> i < j"
proof -
  have d: "\<exists>a e. decimal k = Some (a, e) \<and> 0 \<le> e \<and> l = a * 10 ^ nat e" if "num_int k = Some l" for k l
    using that by (cases k) (auto split: if_splits)
  obtain a e b f where a: "decimal m = Some (a, e)" "0 \<le> e" "i = a * 10 ^ nat e"
    and b: "decimal n = Some (b, f)" "0 \<le> f" "j = b * 10 ^ nat f" using d [OF assms(1)] d [OF assms(2)] by auto
  define low where "low = min e f"
  have split: "(10 :: int) ^ nat e = 10 ^ nat (e - low) * 10 ^ nat low" "(10 :: int) ^ nat f = 10 ^ nat (f - low) * 10 ^ nat low"
    using a(2) b(2) by (simp_all add: low_def power_add [symmetric] nat_add_distrib [symmetric])
  have "dec_less (a, e) (b, f) \<longleftrightarrow> a * 10 ^ nat (e - low) < b * 10 ^ nat (f - low)" by (simp add: dec_less_def low_def Let_def)
  also have "\<dots> \<longleftrightarrow> a * 10 ^ nat (e - low) * 10 ^ nat low < b * 10 ^ nat (f - low) * 10 ^ nat low"
    by (rule mult_less_cancel_right_pos [symmetric]) simp
  also have "\<dots> \<longleftrightarrow> i < j" unfolding a(3) b(3) split by (simp only: mult.assoc)
  finally show ?thesis using assms a b by (cases m; cases n) (auto simp: num_less_def)
qed

lemma js_gt_count:
  assumes "as_count v = Some m" "as_count w = Some n"
  shows "js_gt N v w \<longleftrightarrow> n < m"
  using assms num_less_decimal
  by (auto simp: as_count_Some as_int_def split: jsval.splits)

lemma as_count_JInt [simp]: "as_count (JInt i) = (if i < 0 then None else Some (nat i))"
  by (simp add: as_count_def)

lemma count_reasons_Nil:
  assumes "normalizeRecallCounts N options = Inr counts"
  shows "count_reasons N counts = [] \<longleftrightarrow> as_count (rc_tombstones counts) = Some 0 \<and> as_count (rc_sensitive counts) = Some 0"
proof -
  obtain c t s where n: "as_count (rc_candidates counts) = Some c" "as_count (rc_tombstones counts) = Some t" "as_count (rc_sensitive counts) = Some s"
    "rc_safe counts \<longleftrightarrow> \<not> js_gt N (rc_tombstones counts) (rc_candidates counts) \<and> \<not> js_gt N (rc_sensitive counts) (rc_candidates counts)"
    using assms by (auto simp: normalizeRecallCounts_def ebind_Inr_iff normalizeCount_Inr simp del: coals.simps)
  have "as_count (JInt 0) = Some 0" by simp
  note gt = js_gt_count [OF n(2) this] js_gt_count [OF n(3) this] js_gt_count [OF n(2,1)] js_gt_count [OF n(3,1)]
  show ?thesis unfolding count_reasons_def append_is_Nil_conv push_if_Nil n(4) gt n(2,3) by auto
qed

section \<open>The choice of a grant\<close>

text \<open>The grants looked at, in order.\<close>

definition recall_candidates :: "jsval \<Rightarrow> jsval list" where
  "recall_candidates options =
     push_if (\<not> nullish (coals options [''grant''] JNull)) (coals options [''grant''] JNull) @ expected_all (coals options [''grants''] (JArr []))"

lemma select_loop_ok:
  assumes "select_loop N scope first gs = Inr r" "\<forall>g v. first = Some (g, v) \<longrightarrow> \<not> gc_ok v"
  shows "(\<exists>g v. r = Some (g, v) \<and> gc_ok v) \<longleftrightarrow> (\<exists>g \<in> set gs. \<exists>v. verifyConsentGrant N g scope = Inr v \<and> gc_ok v)"
  using assms
proof (induction gs arbitrary: first)
  case (Cons g gs)
  then obtain v where v: "verifyConsentGrant N g scope = Inr v" by (auto simp: ebind_Inr_iff)
  show ?case
  proof (cases "gc_ok v")
    case False
    with v Cons.prems have "select_loop N scope (if first = None then Some (g, v) else first) gs = Inr r" by simp
    moreover have "\<forall>g' v'. (if first = None then Some (g, v) else first) = Some (g', v') \<longrightarrow> \<not> gc_ok v'" using Cons.prems(2) False by simp
    ultimately have "(\<exists>g v. r = Some (g, v) \<and> gc_ok v) \<longleftrightarrow> (\<exists>g \<in> set gs. \<exists>v. verifyConsentGrant N g scope = Inr v \<and> gc_ok v)" by (rule Cons.IH)
    with False v show ?thesis by simp
  qed (use v Cons.prems in auto)
qed auto

lemma decision_allow:
  assumes "selectGrant N (coals options [''grant''] JNull) (coals options [''grants''] (JArr [])) scope = Inr grant"
  shows "fst (recall_decision reasons grant) = ''allow'' \<longleftrightarrow>
    reasons = [] \<and> (\<exists>g \<in> set (recall_candidates options). \<exists>v. verifyConsentGrant N g scope = Inr v \<and> gc_ok v)"
proof -
  have "(\<exists>g v. grant = Some (g, v) \<and> gc_ok v) \<longleftrightarrow> (\<exists>g \<in> set (recall_candidates options). \<exists>v. verifyConsentGrant N g scope = Inr v \<and> gc_ok v)"
    using assms unfolding selectGrant_def recall_candidates_def by (rule select_loop_ok) simp
  then show ?thesis by (auto simp: recall_decision_def split: option.splits)
qed

lemma recall_get:
  "getp (JObj (recall_fields q a p d codes counts grants proofs receipts)) ''safe_to_share'' = JBool (d = ''allow'')"
  "getp (JObj (recall_fields q a p d codes counts grants proofs receipts)) ''decision'' = JStr d"
  "getp (JObj (recall_fields q a p d codes counts grants proofs receipts)) ''app_ref'' = JStr a"
  "getp (JObj (recall_fields q a p d codes counts grants proofs receipts)) ''tombstone_count'' = rc_tombstones counts"
  "getp (JObj (recall_fields q a p d codes counts grants proofs receipts)) ''sensitive_count'' = rc_sensitive counts"
  by (simp_all add: recall_fields_def obj_get_Cons)

text \<open>The scope a decision was asked for.\<close>

definition asked_scope :: "jsval \<Rightarrow> jsval" where
  "asked_scope options = recall_scope options
     (js_String (coals options [''app_ref'', ''appRef''] (JStr ''ref:app:unspecified'')))
     (js_String (coals options [''operation''] (coal (first_of (getp options ''operations'')) (JStr ''recall_context''))))
     (js_String (coals options [''memory_zone_ref'', ''memoryZoneRef''] (coal (first_of (getp options ''memory_zone_refs'')) (JStr ''ref:zone:default''))))
     (js_String (coals options [''purpose_ref'', ''purposeRef''] (JStr ''ref:purpose:unspecified'')))"

lemma createRecallVetoDecision_Inr:
  assumes "createRecallVetoDecision N options = Inr d"
  obtains counts grant where "normalizeRecallCounts N options = Inr counts"
    "selectGrant N (coals options [''grant''] JNull) (coals options [''grants''] (JArr [])) (asked_scope options) = Inr grant"
    "getp d ''safe_to_share'' = JBool (fst (recall_decision (count_reasons N counts) grant) = ''allow'')"
    "getp d ''tombstone_count'' = rc_tombstones counts" "getp d ''sensitive_count'' = rc_sensitive counts"
proof -
  have str: "normalizePublicRef v f = Inr s \<Longrightarrow> js_String v = s" "normalizeOperation v = Inr s \<Longrightarrow> js_String v = s" for v f s
    by (auto simp: normalizePublicRef_Inr normalizeOperation_def member_string_Inr)
  from assms obtain app op zone purpose counts grant q p decision codes gs proofs receipts where
    n: "normalizePublicRef (coals options [''app_ref'', ''appRef''] (JStr ''ref:app:unspecified'')) ''app_ref'' = Inr app"
      "normalizeOperation (coals options [''operation''] (coal (first_of (getp options ''operations'')) (JStr ''recall_context''))) = Inr op"
      "normalizePublicRef (coals options [''memory_zone_ref'', ''memoryZoneRef'']
              (coal (first_of (getp options ''memory_zone_refs'')) (JStr ''ref:zone:default''))) ''memory_zone_ref'' = Inr zone"
      "normalizePublicRef (coals options [''purpose_ref'', ''purposeRef''] (JStr ''ref:purpose:unspecified'')) ''purpose_ref'' = Inr purpose"
    and c: "normalizeRecallCounts N options = Inr counts"
    and g: "selectGrant N (coals options [''grant''] JNull) (coals options [''grants''] (JArr [])) (recall_scope options app op zone purpose) = Inr grant"
    and a: "fst (recall_decision (count_reasons N counts) grant) = decision"
      "assertMemoryControllerPublicSafe N (JObj (recall_fields q app p decision codes counts gs proofs receipts)) = Inr d"
    unfolding createRecallVetoDecision_def Let_def ebind_Inr_iff case_prod_unfold by (elim exE conjE) metis
  obtain r where "d = JObj (recall_fields q app p decision codes counts gs proofs receipts)" using assert_controller_safe [OF a(2)] by metis
  moreover have "asked_scope options = recall_scope options app op zone purpose"
    unfolding asked_scope_def using n by (simp only: str)
  ultimately show thesis using that [OF c] g a(1) by (simp only: recall_get)
qed

section \<open>A decision on the sample grant\<close>

definition sample_request :: jsval where
  "sample_request = JObj [(''grant'', sample_grant)]"

lemma sample_request_get: "getp sample_request k = (if k = ''grant'' then sample_grant else JUndef)"
  by (simp add: sample_request_def obj_get_Cons)

lemma nullish_sample_grant [simp]: "\<not> nullish sample_grant"
  by (simp add: sample_grant_def)

lemma sample_request_eval [simp]:
  "''grant'' \<notin> set ks \<Longrightarrow> coals sample_request ks v = v" "coals sample_request [''grant''] JNull = sample_grant" "getp sample_request ''operations'' = JUndef"
  "''grant'' \<notin> set ks \<Longrightarrow> pick sample_request ks = JUndef"
proof -
  show "''grant'' \<notin> set ks \<Longrightarrow> coals sample_request ks v = v" by (induction ks) (auto simp: sample_request_get coal_def)
  show "''grant'' \<notin> set ks \<Longrightarrow> pick sample_request ks = JUndef" by (induction sample_request ks rule: pick.induct) (auto simp: sample_request_get coal_def)
qed (simp_all add: sample_request_get coal_def)

lemma sample_scope: "asked_scope sample_request = recall_scope sample_request ''ref:app:unspecified'' ''recall_context'' ''ref:zone:default'' ''ref:purpose:unspecified''"
  by (simp add: asked_scope_def sample_request_get first_of_def coal_def del: coals.simps)

lemma sample_scope_get: "getp (asked_scope sample_request) ''now'' = JStr DEFAULT_NOW" "getp (asked_scope sample_request) ''revoked'' = JUndef"
   "pick (asked_scope sample_request) [''revoked_grant_refs'', ''revokedGrantRefs''] = JUndef"
   "pick (asked_scope sample_request) [''app_ref'', ''appRef''] = JStr ''ref:app:unspecified''"
   "pick (asked_scope sample_request) [''purpose_ref'', ''purposeRef''] = JStr ''ref:purpose:unspecified''"
   "expectedOperations (asked_scope sample_request) = [JStr ''recall_context'']" "expectedMemoryZoneRefs (asked_scope sample_request) = [JStr ''ref:zone:default'']"
  unfolding sample_scope recall_scope_def
  by (simp_all add: obj_get_Cons coal_def expectedOperations_def expectedMemoryZoneRefs_def expected_all_def push_if_def sample_request_get del: coals.simps)

lemma sample_grant_in_scope: "\<exists>v. verifyConsentGrant sample sample_grant (asked_scope sample_request) = Inr v \<and> gc_ok v"
proof -
  have now: "normalizeDateTime sample (coals (asked_scope sample_request) [''now''] (JStr DEFAULT_NOW)) ''now'' = Inr DEFAULT_NOW"
    by (simp add: sample_scope_get coal_def normalizeDateTime_default)
  obtain v where v: "verifyConsentGrant sample sample_grant (asked_scope sample_request) = Inr v"
    using verifyConsentGrant_total [OF created_shape(2) [OF sample_grant_created] now] by blast
  have "in_force sample sample_grant (asked_scope sample_request) DEFAULT_NOW" "covers sample_grant (asked_scope sample_request)"
    unfolding in_force_def covers_def sample_scope_get unfolding sample_grant_def grant_get
    by (simp_all add: sample_times containsRef_def granted_def js_includes_def)
  with v cg.verdict [OF v] created_shape [OF sample_grant_created] sample_grant_state now show ?thesis unfolding valid_grant_def by blast
qed

definition sample_counts :: recall_counts where
  "sample_counts = \<lparr>rc_candidates = JInt 0, rc_tombstones = JInt 0, rc_sensitive = JInt 0, rc_safe = True\<rparr>"

lemma sample_counts: "normalizeRecallCounts N sample_request = Inr sample_counts" "count_reasons N sample_counts = []"
  by (simp_all add: normalizeRecallCounts_def normalizeCount_def sample_counts_def count_reasons_def push_if_def del: coals.simps)

lemma sample_selected: "\<exists>v. selectGrant sample sample_grant (JArr []) (asked_scope sample_request) = Inr (Some (sample_grant, v)) \<and> gc_ok v"
  using sample_grant_in_scope by (auto simp: selectGrant_def push_if_def)

lemma good_recall:
  assumes "proofs \<in> {[], [JStr (made_ref ''proof'')]}" "receipts \<in> {[], [JStr (made_ref ''receipt'')]}"
  shows "good_object (recall_fields (made_ref ''request'') ''ref:app:unspecified'' ''ref:policy:default'' ''allow'' [] sample_counts
    [JStr (made_ref ''grant'')] proofs receipts)"
proof -
  have "safe_string False ''allow''" by (rule safe_plain; simp add: plain_eval)
  then show ?thesis using assms unfolding recall_fields_def good_object_append
    by (intro conjI good_boundary_object) (auto simp: good_object_def good_grant_keys good_other_keys safe_strings sample_counts_def is_finite_def)
qed

lemma sample_request_made: "ref_or_made sample_request [''request_ref'', ''requestRef''] (Inr r) = Inr (JStr r)"
  "refs_or_made sample_request [''proof_refs'', ''proofRefs''] (Inr r) = Inr (JArr [JStr r])"
  "refs_or_made sample_request [''receipt_refs'', ''receiptRefs''] (Inr r) = Inr (JArr [JStr r])"
  by (simp_all add: ref_or_made_def refs_or_made_def del: pick.simps)

lemma sample_request_ref:
  "makePublicRef sample ''request'' [(''appRef'', JStr ''ref:app:unspecified''), (''operation'', JStr ''recall_context''),
     (''memoryZoneRef'', JStr ''ref:zone:default''), (''purposeRef'', JStr ''ref:purpose:unspecified''), (''counts'', counts_props sample_counts)] []
   = Inr (made_ref ''request'')"
proof -
  have "is_ok (canonicalize (JObj [(''appRef'', JStr ''ref:app:unspecified''), (''counts'', counts_props sample_counts), (''memoryZoneRef'', JStr ''ref:zone:default''),
     (''operation'', JStr ''recall_context''), (''purposeRef'', JStr ''ref:purpose:unspecified'')]))"
    by (simp add: canonicalize_def counts_props_def sample_counts_def is_finite_def)
  then show ?thesis
    by (auto simp: is_ok_iff makePublicRef_def sha256Str_sample sample_digest_def made_ref_def ID_HASH_LENGTH_def)
qed

lemma sample_decision: "\<exists>d. createRecallVetoDecision sample sample_request = Inr d"
proof -
  obtain v where v: "selectGrant sample sample_grant (JArr []) (asked_scope sample_request) = Inr (Some (sample_grant, v))" "gc_ok v"
    using sample_selected by blast
  have "getp sample_grant ''grant_ref'' = JStr (made_ref ''grant'')" by (simp only: sample_grant_def grant_get)
  moreover have "normalizeOperation (JStr ''recall_context'') = Inr ''recall_context''"
    by (simp add: normalizeOperation_def member_string_def normalizeRequiredString_def GRANT_OPERATIONS_def)
  moreover have "normalizeReasonCodes (JArr []) = Inr []" by (simp add: normalizeReasonCodes_def unique_strings_def map_strings_def uniqueSorted_def set_of_distinct)
  moreover have "controller_assertPlainRecord sample_request ''options'' = Inr ()"
    by (simp add: controller_assertPlainRecord_def controller_isPlainRecord_def sample_request_def)
  ultimately show ?thesis using v unfolding sample_scope
    by (simp add: createRecallVetoDecision_def sample_request_get first_of_def coal_def sample_norm
      sample_counts recall_decision_def sample_request_made sample_request_ref makePublicRef_sample good_recall good_object_assert
      normalizeNonEmptyPublicRefArray_def del: coals.simps)
qed

text \<open>
  C8. A recall decision allows sharing exactly when no candidate is tombstoned or sensitive and one of
  the grants is valid for the application, operation, memory zone, purpose and time asked
  for; in every other case the decision withholds the memory.
\<close>

theorem recall_shares_iff:
  assumes "createRecallVetoDecision N options = Inr d"
  shows "getp d ''safe_to_share'' = JBool True \<longleftrightarrow>
     as_count (getp d ''tombstone_count'') = Some 0 \<and> as_count (getp d ''sensitive_count'') = Some 0
     \<and> (\<exists>g \<in> set (recall_candidates options). is_ok (verifyConsentGrant N g (asked_scope options)) \<and> valid_grant N (asked_scope options) g)"
proof -
  obtain counts grant where c: "normalizeRecallCounts N options = Inr counts"
    and g: "selectGrant N (coals options [''grant''] JNull) (coals options [''grants''] (JArr [])) (asked_scope options) = Inr grant"
    and d: "getp d ''safe_to_share'' = JBool (fst (recall_decision (count_reasons N counts) grant) = ''allow'')"
      "getp d ''tombstone_count'' = rc_tombstones counts" "getp d ''sensitive_count'' = rc_sensitive counts"
    using assms by (rule createRecallVetoDecision_Inr)
  show ?thesis unfolding d decision_allow [OF g] count_reasons_Nil [OF c] cg.some_accepted by simp
qed

theorem recall_shares_iff_witness:
  "\<exists>d. createRecallVetoDecision sample sample_request = Inr d \<and> (getp d ''safe_to_share'' = JBool True
     \<longleftrightarrow> as_count (getp d ''tombstone_count'') = Some 0 \<and> as_count (getp d ''sensitive_count'') = Some 0)"
proof -
  obtain d where d: "createRecallVetoDecision sample sample_request = Inr d" using sample_decision by blast
  have "sample_grant \<in> set (recall_candidates sample_request)" by (simp add: recall_candidates_def push_if_def del: coals.simps)
  with recall_shares_iff [OF d] sample_grant_in_scope cg.accepts_iff d show ?thesis by blast
qed

end
