(* ===== verification/ControllerBubble.thy ===== *)
theory ControllerBubble
  imports ControllerRecall Merkle_Proofs
begin

text \<open>
  Private memory bubbles: the counts of a closed bubble, and the life of a bubble, which is opened
  once and closed once.
\<close>

section \<open>Closing\<close>

text \<open>What a call that closes a bubble did.\<close>

lemma close_Inr:
  assumes "closePrivateMemoryBubble N b options = Inr c"
  obtains outcome kept discarded closedAt receipts root where
    "controller_isPlainRecord b" "getp b ''status'' = JStr ''open''" "getp b ''schema'' = JStr PRIVATE_MEMORY_BUBBLE_SCHEMA"
    "outcome = js_String (coals options [''outcome'', ''close_outcome'', ''closeOutcome''] (JStr ''discard''))" "outcome \<in> set BUBBLE_CLOSE_OUTCOMES"
    "close_counts N b options outcome = Inr (kept, discarded)"
    "c = spread2 (spread2 b [(''status'', JStr (if outcome = ''keep'' then ''kept'' else ''discarded'')), (''closed_at'', JStr closedAt),
       (''kept_count'', kept), (''discarded_count'', discarded), (''receipt_refs'', JArr receipts), (''bubble_root'', JStr [])])
       [(''bubble_root'', JStr root)]"
    "assertMemoryControllerPublicSafe N c = Inr c"
proof -
  from assms obtain closedAt outcome kept discarded receipts root where
    r: "controller_isPlainRecord b" "getp b ''status'' = JStr ''open''" "getp b ''schema'' = JStr PRIVATE_MEMORY_BUBBLE_SCHEMA"
      "outcome = js_String (coals options [''outcome'', ''close_outcome'', ''closeOutcome''] (JStr ''discard''))" "outcome \<in> set BUBBLE_CLOSE_OUTCOMES"
      "close_counts N b options outcome = Inr (kept, discarded)"
    and a: "assertMemoryControllerPublicSafe N (spread2 (spread2 b [(''status'', JStr (if outcome = ''keep'' then ''kept'' else ''discarded'')), (''closed_at'', JStr closedAt),
       (''kept_count'', kept), (''discarded_count'', discarded), (''receipt_refs'', JArr receipts), (''bubble_root'', JStr [])])
       [(''bubble_root'', JStr root)]) = Inr c"
    unfolding closePrivateMemoryBubble_def Let_def ebind_Inr_iff case_prod_unfold
    by (auto simp: controller_assertPlainRecord_def ebind_Inr_iff simp del: coals.simps split: if_splits)
  from assert_controller_safe [OF a] have "c = spread2 (spread2 b [(''status'', JStr (if outcome = ''keep'' then ''kept'' else ''discarded'')), (''closed_at'', JStr closedAt),
       (''kept_count'', kept), (''discarded_count'', discarded), (''receipt_refs'', JArr receipts), (''bubble_root'', JStr [])])
       [(''bubble_root'', JStr root)]" by metis
  with a show thesis by (intro that [OF r]) simp_all
qed

lemma props_of_spread2: "props_of (spread2 a kvs) = obj_puts kvs (obj_puts (props_of a) [])"
  by (simp add: spread2_def)

lemma getp_respread:
  assumes "distinct (map fst kvs)" "k \<noteq> r"
  shows "getp (spread2 (spread2 a kvs) [(r, v)]) k = (if has_key kvs k then obj_get kvs k else obj_get (obj_puts (props_of a) []) k)"
proof -
  have "getp (spread2 (spread2 a kvs) [(r, v)]) k = getp (spread2 a kvs) k"
    using assms(2) by (subst getp_spread2) (simp_all add: plain_obj_spread2 has_key_def)
  then show ?thesis using assms(1) by (simp add: spread2_def obj_get_puts)
qed

lemma close_get:
  assumes "c = spread2 (spread2 b [(''status'', st), (''closed_at'', at), (''kept_count'', kept), (''discarded_count'', discarded),
     (''receipt_refs'', rs), (''bubble_root'', JStr [])]) [(''bubble_root'', JStr root)]"
  shows "getp c ''status'' = st" "getp c ''kept_count'' = kept" "getp c ''discarded_count'' = discarded" "getp c ''closed_at'' = at"
    "getp c ''receipt_refs'' = rs" "controller_isPlainRecord c"
  unfolding assms by (simp_all add: getp_respread has_key_def obj_get_Cons) (simp add: controller_isPlainRecord_def spread2_def)

lemma close_counts_Inr:
  assumes "close_counts N b options outcome = Inr (kept, discarded)" "outcome \<in> set BUBBLE_CLOSE_OUTCOMES"
    and "as_count (getp b ''candidate_count'') = Some n" "int n \<le> safe_limit"
  obtains k m where "as_count kept = Some k" "as_count discarded = Some m" "k + m \<le> n" "outcome = ''keep'' \<longrightarrow> k + m = n" "outcome \<noteq> ''keep'' \<longrightarrow> k = 0"
proof (cases "outcome = ''keep''")
  case True
  with assms(1) have kept: "as_count kept \<noteq> None" "\<not> js_gt N kept (getp b ''candidate_count'')"
      "discarded = JNum (max_zero (js_sub N (getp b ''candidate_count'') kept))"
    by (auto simp: close_counts_def Let_def ebind_Inr_iff normalizeCount_Inr simp del: coals.simps split: if_splits)
  then obtain k where k: "as_count kept = Some k" by blast
  with kept(2) js_gt_count [OF k assms(3)] have le: "k \<le> n" by simp
  have "num_int (max_zero (js_sub N (getp b ''candidate_count'') kept)) = Some (int n - int k)"
    by (rule js_sub_counts) (use k le assms(3,4) in \<open>auto simp: as_count_Some\<close>)
  then have "as_count discarded = Some (n - k)" using le kept(3) by (simp add: as_count_Some as_int_def of_nat_diff)
  with k le True show thesis by (intro that [of k "n - k"]) simp_all
next
  case False
  then have o: "outcome = ''discard''" using assms(2) by (simp add: BUBBLE_CLOSE_OUTCOMES_def)
  with assms(1) have d: "kept = JInt 0" "as_count discarded \<noteq> None" "\<not> js_gt N discarded (getp b ''candidate_count'')"
    by (auto simp: close_counts_def Let_def ebind_Inr_iff normalizeCount_Inr simp del: coals.simps split: if_splits)
  then obtain m where m: "as_count discarded = Some m" by blast
  with d(3) js_gt_count [OF m assms(3)] have "m \<le> n" by simp
  with d m False show thesis by (intro that [of 0 m]) simp_all
qed

text \<open>
  C11. The counts of a closed bubble: of \<open>n\<close> candidates at most \<open>n\<close> are kept and discarded together; a kept
  bubble accounts for every candidate, a discarded one keeps none.
\<close>

theorem closed_bubble_counts:
  assumes "closePrivateMemoryBubble N b options = Inr c"
    and "as_count (getp b ''candidate_count'') = Some n" and "int n \<le> safe_limit"
  shows "\<exists>k m. as_count (getp c ''kept_count'') = Some k \<and> as_count (getp c ''discarded_count'') = Some m \<and> k + m \<le> n
     \<and> (getp c ''status'' = JStr ''kept'' \<and> k + m = n \<or> getp c ''status'' = JStr ''discarded'' \<and> k = 0)"
proof -
  obtain outcome kept discarded closedAt receipts root where o: "outcome \<in> set BUBBLE_CLOSE_OUTCOMES"
    and k: "close_counts N b options outcome = Inr (kept, discarded)"
    and c: "c = spread2 (spread2 b [(''status'', JStr (if outcome = ''keep'' then ''kept'' else ''discarded'')), (''closed_at'', JStr closedAt),
       (''kept_count'', kept), (''discarded_count'', discarded), (''receipt_refs'', JArr receipts), (''bubble_root'', JStr [])])
       [(''bubble_root'', JStr root)]"
    using assms(1) by (rule close_Inr)
  from k o assms(2,3) obtain k m where "as_count kept = Some k" "as_count discarded = Some m" "k + m \<le> n"
    "outcome = ''keep'' \<longrightarrow> k + m = n" "outcome \<noteq> ''keep'' \<longrightarrow> k = 0" by (rule close_counts_Inr)
  then show ?thesis unfolding close_get [OF c] by auto
qed

section \<open>The life of a bubble\<close>

lemma closed_bubble_status:
  assumes "closePrivateMemoryBubble N b options = Inr c"
  shows "getp b ''status'' = JStr ''open''" "getp c ''status'' \<noteq> JStr ''open''" "controller_isPlainRecord c"
    "assertMemoryControllerPublicSafe N c = Inr c"
proof -
  obtain outcome kept discarded closedAt receipts root where b: "getp b ''status'' = JStr ''open''"
    and c: "c = spread2 (spread2 b [(''status'', JStr (if outcome = ''keep'' then ''kept'' else ''discarded'')), (''closed_at'', JStr closedAt),
       (''kept_count'', kept), (''discarded_count'', discarded), (''receipt_refs'', JArr receipts), (''bubble_root'', JStr [])])
       [(''bubble_root'', JStr root)]" and a: "assertMemoryControllerPublicSafe N c = Inr c"
    using assms by (rule close_Inr)
  show "getp b ''status'' = JStr ''open''" "assertMemoryControllerPublicSafe N c = Inr c" by (fact b a)+
  show "getp c ''status'' \<noteq> JStr ''open''" "controller_isPlainRecord c" using close_get [OF c] by auto
qed

text \<open>
  C31. A bubble is closed once: only an open bubble can be closed, the result refuses every further call
  with a \<open>TypeError\<close>, and so every sequence of closing calls ends.
\<close>

theorem bubble_closes_once:
  "wf {(c, b). \<exists>options. closePrivateMemoryBubble N b options = Inr c}
   \<and> (\<forall>b options c again. closePrivateMemoryBubble N b options = Inr c
        \<longrightarrow> getp b ''status'' = JStr ''open'' \<and> (\<exists>msg. closePrivateMemoryBubble N c again = Inl (TypeError msg)))"
proof (intro conjI allI impI)
  show "wf {(c, b). \<exists>options. closePrivateMemoryBubble N b options = Inr c}"
    by (rule wf_subset [OF wf_measure [of "\<lambda>b. if getp b ''status'' = JStr ''open'' then 1 else 0"]])
      (auto dest: closed_bubble_status)
next
  fix b options c again
  assume c: "closePrivateMemoryBubble N b options = Inr c"
  then show "getp b ''status'' = JStr ''open''" by (rule closed_bubble_status)
  show "\<exists>msg. closePrivateMemoryBubble N c again = Inl (TypeError msg)"
    using closed_bubble_status [OF c] by (auto simp: closePrivateMemoryBubble_def controller_assertPlainRecord_def)
qed

section \<open>Every created bubble can be closed\<close>

text \<open>Roots are texts that the scan accepts.\<close>

lemma merkleRoot_hex:
  assumes "hash_hex N"
  shows "\<exists>h. merkleRoot N xs = SHA256_PREFIX @ h \<and> list_all ch_hex h"
proof (cases "xs = []")
  case False
  let ?h = "hd (merkle_reduce N (map (merkleLeafHash N) xs))"
  have "?h \<in> tree_hashes N (map (merkleLeafHash N) xs)" using False by (simp add: merkle_reduce_in_tree)
  from tree_hashes_origin [OF this] have "(\<exists>v. ?h = merkleLeafHash N v) \<or> (\<exists>a b. ?h = merkleNodeHash N a b)" by auto
  then have "list_all ch_hex ?h" using hash_hexD [OF assms] by (auto simp: merkleLeafHash_def merkleNodeHash_def)
  with False show ?thesis by (simp add: merkleRoot_def)
qed (use hash_hexD [OF assms] in \<open>simp add: merkleRoot_def EMPTY_MERKLE_ROOT_def\<close>)

lemma safe_root:
  assumes "hash_hex N"
  shows "safe_string False (ms_root N m)"
proof -
  have hex: "plain_char c \<and> c \<notin> {CHR ''k'', CHR ''g'', CHR ''x'', CHR ''p''}" if "ch_hex c" for c
    using that by (auto simp: ch_hex_def plain_char_def ch_in_def ch_range_def ch_lower_iff ch_digit_iff less_eq_char_def)
  obtain h where h: "ms_root N m = SHA256_PREFIX @ h" "list_all ch_hex h"
    using merkleRoot_hex [OF assms] unfolding ms_root_def by blast
  show ?thesis
  proof (rule safe_plain)
    show "list_all plain_char (ms_root N m)" using h hex by (auto simp: SHA256_PREFIX_def plain_char_def ch_lower_iff ch_digit_iff list_all_iff)
    have "set (ms_root N m) \<inter> {CHR ''k'', CHR ''g'', CHR ''x'', CHR ''p''} = {}" using h hex by (auto simp: SHA256_PREFIX_def list_all_iff)
    then show "\<not> list_ex (str_includes (ms_root N m)) [''k_'', ''gh'', ''xox'', ''patent'']" by (auto simp: str_includes_iff)
    show "\<not> path_like (ms_root N m)" by (simp add: h path_like_def SHA256_PREFIX_def)
  qed
qed

text \<open>The root of an object with good fields exists.\<close>

lemma canonical_values: "\<forall>p \<in> set ps. is_ok (canonicalizeValue (snd p)) \<Longrightarrow> is_ok (canonicalize (JObj ps))"
  by (simp add: canonicalize_def is_ok_mapE is_ok_ebind_total case_prod_unfold)

lemma good_value_canonical: "good_value v \<Longrightarrow> is_ok (canonicalizeValue v)"
  by (rule canonicalize_public_safe [OF good_value_public good_value_no_instances])

lemma good_root:
  assumes "good_object ps" "hash_hex N"
  shows "\<exists>root. controller_merkleRootFor N tag ps om = Inr root \<and> safe_string False root"
proof -
  have "is_ok (canonicalize (JObj [(''kind'', JStr tag), (''key'', JStr k), (''value'', v)]))" if "(k, v) \<in> set ps" for k v
    using that assms(1) by (intro canonical_values) (auto simp: good_object_def list_all_iff good_value_canonical)
  then have "is_ok (mapE (\<lambda>(k, v). canonicalize (JObj [(''kind'', JStr tag), (''key'', JStr k), (''value'', v)]))
      (sort_key fst (filter (\<lambda>(k, _). k \<notin> set om) ps)))" by (auto simp: is_ok_mapE)
  then show ?thesis using safe_root [OF assms(2)] by (auto simp: controller_merkleRootFor_def is_ok_iff ms_new_strings)
qed

text \<open>A normalised array is normalised again to the same elements.\<close>

lemma normalize_again:
  assumes "isPublicRefArray (JArr (map JStr ss)) True" "[] \<notin> set ss"
  obtains rs where "normalizeNonEmptyPublicRefArray (JArr (map JStr ss)) f = Inr (map JStr rs)" "set rs = set ss"
proof -
  have r: "ss \<noteq> []" "\<forall>s \<in> set ss. rx_full PUBLIC_REF_RE s \<and> s \<noteq> []" using assms by (auto simp: isPublicRefArray_strings)
  then have "mapiE 0 (\<lambda>i x. if x = JHole then Inr None else emap Some (normalizePublicRef x (indexed f i))) (map JStr ss) = Inr (map Some ss)"
    by (auto simp: mapiE_Inr_iff emap_Inr_iff normalizePublicRef_Inr)
  then have "map_strings (\<lambda>i x. normalizePublicRef x (indexed f i)) (map JStr ss) = Inr ss"
    by (simp add: map_strings_def comp_def)
  moreover have "JHole \<notin> set (map JStr ss)" by auto
  ultimately have "normalizeNonEmptyPublicRefArray (JArr (map JStr ss)) f = Inr (map JStr (uniqueSorted ss))"
    using r(1) by (simp add: normalizeNonEmptyPublicRefArray_def normalizePublicRefArray_def unique_strings_def push_if_def)
  then show thesis by (rule that) simp
qed

lemma normalizeNonEmpty_strings:
  assumes "normalizeNonEmptyPublicRefArray v f = Inr ys" "JUndef \<notin> set ys"
  obtains ss where "ys = map JStr ss" "isPublicRefArray (JArr (map JStr ss)) True" "[] \<notin> set ss"
proof -
  obtain xs where xs: "unique_strings (\<lambda>i x. normalizePublicRef x (indexed f i)) xs = Inr ys"
    using assms(1) by (auto simp: normalizeNonEmptyPublicRefArray_def normalizePublicRefArray_def ebind_Inr_iff split: jsval.splits if_splits)
  from xs assms(2) obtain ss where ss: "ys = map JStr ss" "\<forall>s \<in> set ss. \<exists>i x. normalizePublicRef x (indexed f i) = Inr s"
    by (rule unique_strings_Inr)
  moreover from ss have "[] \<notin> set ss" by (force simp: normalizePublicRef_Inr)
  ultimately show thesis using that normalizeNonEmpty_ok [OF assms] by blast
qed

lemma bubble_get:
  "getp (JObj (bubble_fields bubble apps purpose at n receipts root)) ''status'' = JStr ''open''"
  "getp (JObj (bubble_fields bubble apps purpose at n receipts root)) ''schema'' = JStr PRIVATE_MEMORY_BUBBLE_SCHEMA"
  "getp (JObj (bubble_fields bubble apps purpose at n receipts root)) ''candidate_count'' = n"
  "getp (JObj (bubble_fields bubble apps purpose at n receipts root)) ''receipt_refs'' = JArr receipts"
  by (simp_all add: bubble_fields_def obj_get_Cons)

lemma created_bubble:
  assumes "createPrivateMemoryBubble N made = Inr b"
  obtains bubble apps purpose at n receipts root where
    "b = JObj (bubble_fields bubble apps purpose at n (map JStr receipts) root)" "as_count n \<noteq> None"
    "isPublicRefArray (JArr (map JStr receipts)) True" "[] \<notin> set receipts" "good_object (bubble_fields bubble apps purpose at n (map JStr receipts) root)"
    "assertMemoryControllerPublicSafe N b = Inr b"
proof -
  from assms obtain bubble apps purpose at n receipts root v w where n: "as_count n \<noteq> None"
    and r: "normalizeNonEmptyPublicRefArray v ''app_refs'' = Inr apps" "normalizeNonEmptyPublicRefArray w ''receipt_refs'' = Inr receipts"
    and a: "assertMemoryControllerPublicSafe N (JObj (bubble_fields bubble apps purpose at n receipts root)) = Inr b"
    unfolding createPrivateMemoryBubble_def Let_def ebind_Inr_iff normalizeCount_Inr by (elim exE conjE) metis
  have b: "b = JObj (bubble_fields bubble apps purpose at n receipts root)"
    and safe: "public_safe False (JObj (bubble_fields bubble apps purpose at n receipts root))"
    using assert_controller_safe [OF a] by metis+
  have u: "JUndef \<notin> set apps" "JUndef \<notin> set receipts"
    using safe_array [OF safe, of "''app_refs''" apps] safe_array [OF safe, of "''receipt_refs''" receipts] by (simp_all add: bubble_fields_def)
  from r(1) u(1) obtain as where as: "apps = map JStr as" by (rule normalizeNonEmpty_strings)
  from r(2) u(2) obtain rs where rs: "receipts = map JStr rs" "isPublicRefArray (JArr (map JStr rs)) True" "[] \<notin> set rs"
    by (rule normalizeNonEmpty_strings)
  have "safe_string False PRIVATE_MEMORY_BUBBLE_SCHEMA" "safe_string False bubble" "safe_string False purpose" "safe_string False ''open''" "safe_string False at"
    "safe_string False root" "\<forall>s \<in> set as. safe_string False s" "\<forall>s \<in> set rs. safe_string False s" "public_safe False n"
    using safe unfolding bubble_fields_def as rs by simp_all
  moreover obtain x where "n = JNum x" "is_finite x" using n calculation(9) by (cases n) (auto simp: as_count_def as_int_def)
  ultimately have "good_object (bubble_fields bubble apps purpose at n receipts root)"
    unfolding bubble_fields_def good_object_append as rs
    by (intro conjI good_boundary_object) (auto simp: good_object_def good_grant_keys good_other_keys is_finite_def)
  with b n rs a show thesis by (intro that [of bubble apps purpose at n rs root]) auto
qed

text \<open>Spreading good fields over a good object.\<close>

lemma good_spread: "good_object (props_of a) \<Longrightarrow> good_object kvs \<Longrightarrow> good_object (props_of (spread2 a kvs))"
  using set_obj_puts [of kvs "obj_puts (props_of a) []"] set_obj_puts [of "props_of a" "[]"]
  unfolding good_object_def list_all_iff by (auto simp: spread2_def)

text \<open>The run of a call without options.\<close>

lemma discard_run:
  assumes "controller_isPlainRecord b" "assertMemoryControllerPublicSafe N b = Inr b" "getp b ''schema'' = JStr PRIVATE_MEMORY_BUBBLE_SCHEMA"
    and "getp b ''status'' = JStr ''open''" "close_counts N b (JObj []) ''discard'' = Inr (kept, discarded)"
    and "normalizeNonEmptyPublicRefArray (getp b ''receipt_refs'') ''receipt_refs'' = Inr rs"
    and d: "d = spread2 b [(''status'', JStr ''discarded''), (''closed_at'', JStr DEFAULT_NOW), (''kept_count'', kept), (''discarded_count'', discarded),
     (''receipt_refs'', JArr rs), (''bubble_root'', JStr [])]"
    and "controller_merkleRootFor N ''private_memory_bubble'' (props_of d) [''bubble_root''] = Inr root"
  shows "closePrivateMemoryBubble N b (JObj []) = assertMemoryControllerPublicSafe N (spread2 d [(''bubble_root'', JStr root)])"
proof -
  have "coals (JObj []) ks v = v" for ks v by (induction ks) simp_all
  then show ?thesis using assms(1-6,8)
    by (simp add: closePrivateMemoryBubble_def controller_assertPlainRecord_def controller_isPlainRecord_def normalizeDateTime_default
        BUBBLE_CLOSE_OUTCOMES_def d [symmetric] Let_def del: coals.simps)
qed

lemma bubble_discards:
  assumes "hash_hex N" and "createPrivateMemoryBubble N made = Inr b"
  shows "\<exists>c. closePrivateMemoryBubble N b (JObj []) = Inr c \<and> getp c ''status'' = JStr ''discarded''
     \<and> getp c ''discarded_count'' = getp b ''candidate_count''"
proof -
  obtain bubble apps purpose at n receipts root where b: "b = JObj (bubble_fields bubble apps purpose at n (map JStr receipts) root)" and n: "as_count n \<noteq> None"
    and r: "isPublicRefArray (JArr (map JStr receipts)) True" "[] \<notin> set receipts"
    and good: "good_object (bubble_fields bubble apps purpose at n (map JStr receipts) root)" and a: "assertMemoryControllerPublicSafe N b = Inr b"
    using assms(2) by (rule created_bubble)
  from r obtain rs where rs: "normalizeNonEmptyPublicRefArray (JArr (map JStr receipts)) ''receipt_refs'' = Inr (map JStr rs)" "set rs = set receipts"
    by (rule normalize_again)
  let ?kvs = "[(''status'', JStr ''discarded''), (''closed_at'', JStr DEFAULT_NOW), (''kept_count'', JInt 0), (''discarded_count'', n),
     (''receipt_refs'', JArr (map JStr rs)), (''bubble_root'', JStr [])]"
  have "good_value n" "good_value (JArr (map JStr receipts))" using good by (simp_all add: bubble_fields_def good_object_def)
  moreover have "safe_string False ''discarded''" by (rule safe_plain; simp add: plain_eval)
  ultimately have "good_object ?kvs"
    using rs(2) by (auto simp: good_object_def good_grant_keys good_other_keys safe_strings is_finite_def)
  then have closed: "good_object (props_of (spread2 b ?kvs))" using good b by (intro good_spread) simp_all
  obtain new where new: "controller_merkleRootFor N ''private_memory_bubble'' (props_of (spread2 b ?kvs)) [''bubble_root''] = Inr new" "safe_string False new"
    using good_root [OF closed assms(1)] by blast
  define c where "c = spread2 (spread2 b ?kvs) [(''bubble_root'', JStr new)]"
  have "good_object [(''bubble_root'', JStr new)]" using new(2) by (simp add: good_object_def good_other_keys)
  from good_object_assert [OF good_spread [OF closed this]] have ok: "assertMemoryControllerPublicSafe N c = Inr c" by (simp add: c_def spread2_def)
  have counts: "close_counts N b (JObj []) ''discard'' = Inr (JInt 0, n)"
    using n js_gt_count [of "JInt 0" 0 n] js_gt_count [of n _ n] unfolding b close_counts_def bubble_get
    by (auto simp: normalizeCount_def coal_def)
  have plain: "controller_isPlainRecord b" by (simp add: controller_isPlainRecord_def b)
  have status: "getp b ''status'' = JStr ''open''" and schema: "getp b ''schema'' = JStr PRIVATE_MEMORY_BUBBLE_SCHEMA"
    and refs: "normalizeNonEmptyPublicRefArray (getp b ''receipt_refs'') ''receipt_refs'' = Inr (map JStr rs)"
    by (simp_all only: b bubble_get rs(1))
  have run: "closePrivateMemoryBubble N b (JObj []) = Inr c"
    using discard_run [OF plain a schema status counts refs refl new(1)] unfolding c_def [symmetric] ok .
  have "getp c ''status'' = JStr ''discarded''" "getp c ''discarded_count'' = getp b ''candidate_count''"
    unfolding close_get [OF c_def] by (simp_all only: b bubble_get)
  with run show ?thesis by (intro exI [of _ c] conjI)
qed

text \<open>
  C32. An open bubble is never stuck: whatever the options it was created with, a call without options
  closes it, and the candidates are discarded.
\<close>

theorem created_bubble_closes:
  assumes "hash_hex N" and "createPrivateMemoryBubble N made = Inr b"
  shows "\<exists>c. closePrivateMemoryBubble N b (JObj []) = Inr c \<and> getp c ''status'' = JStr ''discarded''
     \<and> getp c ''discarded_count'' = getp b ''candidate_count''"
  using assms by (rule bubble_discards)

section \<open>The sample bubble\<close>

lemma good_bubble:
  assumes "bubble \<in> {[], made_ref ''bubble''}" "receipts \<in> {[], [JStr (made_ref ''receipt'')]}" "safe_string False root"
  shows "good_object (bubble_fields bubble [JStr ''ref:app:unspecified''] ''ref:purpose:unspecified'' DEFAULT_NOW (JInt 2) receipts root)"
proof -
  have "safe_string False ''open''" by (rule safe_plain; simp add: plain_eval)
  then show ?thesis using assms unfolding bubble_fields_def good_object_append
    by (intro conjI good_boundary_object) (auto simp: good_object_def good_grant_keys good_other_keys safe_strings is_finite_def)
qed

lemma sample_bubble:
  obtains b where "createPrivateMemoryBubble sample (JObj [(''candidate_count'', JInt 2)]) = Inr b" "getp b ''candidate_count'' = JInt 2"
proof -
  let ?f = "bubble_fields (made_ref ''bubble'') [JStr ''ref:app:unspecified''] ''ref:purpose:unspecified'' DEFAULT_NOW (JInt 2)"
  obtain root where root: "controller_merkleRootFor sample ''private_memory_bubble'' (?f [JStr (made_ref ''receipt'')] []) [''bubble_root''] = Inr root"
      "safe_string False root"
    using good_root [OF good_bubble hash_hex_sample] safe_words(3) by blast
  have "normalizeNonEmptyPublicRefArray (JArr [JStr ''ref:app:unspecified'']) ''app_refs'' = Inr [JStr ''ref:app:unspecified'']"
    "normalizeNonEmptyPublicRefArray (JArr [JStr (made_ref ''receipt'')]) ''receipt_refs'' = Inr [JStr (made_ref ''receipt'')]"
    by (rule sample_ref_nonempty_array, rule public_refs public_made, simp)+
  then have "createPrivateMemoryBubble sample (JObj [(''candidate_count'', JInt 2)]) = Inr (JObj (?f [JStr (made_ref ''receipt'')] root))"
    using root by (simp add: createPrivateMemoryBubble_def controller_assertPlainRecord_def controller_isPlainRecord_def normalizeDateTime_default
        one_or_default_def ref_or_made_def refs_or_made_def normalizeCount_def obj_get_Cons coal_def sample_norm makePublicRef_sample good_bubble safe_words good_object_assert)
  then show thesis using that bubble_get(3) by blast
qed

lemma sample_closed:
  obtains b c where "createPrivateMemoryBubble sample (JObj [(''candidate_count'', JInt 2)]) = Inr b" "getp b ''candidate_count'' = JInt 2"
    "closePrivateMemoryBubble sample b (JObj []) = Inr c" "getp c ''status'' = JStr ''discarded''"
proof -
  obtain b where b: "createPrivateMemoryBubble sample (JObj [(''candidate_count'', JInt 2)]) = Inr b" "getp b ''candidate_count'' = JInt 2" by (rule sample_bubble)
  from bubble_discards [OF hash_hex_sample b(1)] that b show thesis by metis
qed

theorem closed_bubble_counts_witness:
  "\<exists>b c m. closePrivateMemoryBubble sample b (JObj []) = Inr c \<and> as_count (getp b ''candidate_count'') = Some 2
     \<and> as_count (getp c ''discarded_count'') = Some m \<and> m \<le> 2"
proof -
  obtain b c where b: "getp b ''candidate_count'' = JInt 2" "closePrivateMemoryBubble sample b (JObj []) = Inr c" by (rule sample_closed)
  then have "as_count (getp b ''candidate_count'') = Some 2" by simp
  from closed_bubble_counts [OF b(2) this] b this show ?thesis by (fastforce simp: safe_limit_def)
qed

theorem bubble_closes_once_witness:
  "\<exists>b c msg. closePrivateMemoryBubble sample b (JObj []) = Inr c \<and> closePrivateMemoryBubble sample c (JObj []) = Inl (TypeError msg)"
proof -
  obtain b c where b: "closePrivateMemoryBubble sample b (JObj []) = Inr c" by (rule sample_closed)
  with bubble_closes_once [of sample] show ?thesis by blast
qed

theorem created_bubble_closes_witness:
  "\<exists>b c. createPrivateMemoryBubble sample (JObj [(''candidate_count'', JInt 2)]) = Inr b \<and> closePrivateMemoryBubble sample b (JObj []) = Inr c"
proof -
  obtain b where b: "createPrivateMemoryBubble sample (JObj [(''candidate_count'', JInt 2)]) = Inr b" by (rule sample_bubble)
  with created_bubble_closes [OF hash_hex_sample b] show ?thesis by blast
qed

end
