(* ===== verification/ControllerWeather.thy ===== *)
theory ControllerWeather
  imports ControllerRecall
begin

text \<open>
  Weather reports: the status of a report is the worst status of its tiles, and its issue codes are
  those of the tiles that are not sunny.
\<close>

section \<open>The worst status\<close>

definition severity :: "jsval \<Rightarrow> nat" where
  "severity tile = (if getp tile ''status'' = JStr ''storm_warning'' then 2 else if getp tile ''status'' = JStr ''needs_attention'' then 1 else 0)"

definition worst :: "jsval list \<Rightarrow> nat" where
  "worst tiles = fold max (map severity tiles) 0"

lemma fold_max: "fold max xs a = Max (insert a (set xs))" for a :: nat
proof (induction xs arbitrary: a)
  case (Cons x xs)
  then show ?case by (cases "xs = []") (simp_all add: insert_commute max.left_commute max.commute max.assoc)
qed simp

lemma worst_eq_iff:
  "worst tiles = 2 \<longleftrightarrow> (\<exists>t \<in> set tiles. getp t ''status'' = JStr ''storm_warning'')"
  "worst tiles = 0 \<longleftrightarrow> (\<forall>t \<in> set tiles. severity t = 0)"
  "worst tiles \<le> 2"
proof -
  have w: "worst tiles = Max (insert 0 (severity ` set tiles))" by (simp add: worst_def fold_max)
  have le: "severity t \<le> 2" for t by (simp add: severity_def)
  have two: "severity t = 2 \<longleftrightarrow> getp t ''status'' = JStr ''storm_warning''" for t by (simp add: severity_def)
  show "worst tiles \<le> 2" unfolding w using le by (subst Max_le_iff) auto
  show "worst tiles = 0 \<longleftrightarrow> (\<forall>t \<in> set tiles. severity t = 0)" unfolding w by (subst Max_eq_iff) auto
  show "worst tiles = 2 \<longleftrightarrow> (\<exists>t \<in> set tiles. getp t ''status'' = JStr ''storm_warning'')"
    unfolding w two [symmetric] by (subst Max_eq_iff) (use le in \<open>auto simp: image_iff\<close>)
qed

text \<open>Tiles as \<open>normalizeWeatherTiles\<close> returns them, without holes.\<close>

definition tile_ok :: "jsval \<Rightarrow> bool" where
  "tile_ok tile \<longleftrightarrow> controller_isPlainRecord tile \<and> (\<exists>s \<in> set WEATHER_STATUSES. getp tile ''status'' = JStr s)"

lemma find_status_ok:
  "list_all controller_isPlainRecord tiles \<Longrightarrow> find_status s tiles = Inr (find (\<lambda>t. getp t ''status'' = JStr s) tiles)"
  by (induction tiles) (auto simp: controller_isPlainRecord_def getE_def element_def split: jsval.splits)

lemma rollup_worst:
  assumes "list_all tile_ok tiles"
  shows "rollupWeatherStatus tiles = Inr (WEATHER_STATUSES ! worst tiles)"
proof -
  have plain: "list_all controller_isPlainRecord tiles" using assms by (simp add: list_all_iff tile_ok_def)
  have one: "worst tiles = 1 \<longleftrightarrow> worst tiles \<noteq> 2 \<and> worst tiles \<noteq> 0" using worst_eq_iff(3) [of tiles] by linarith
  have "worst tiles = 0 \<longleftrightarrow> \<not> (\<exists>t \<in> set tiles. getp t ''status'' = JStr ''storm_warning'') \<and> \<not> (\<exists>t \<in> set tiles. getp t ''status'' = JStr ''needs_attention'')"
    unfolding worst_eq_iff by (auto simp: severity_def)
  with one worst_eq_iff(1) [of tiles] show ?thesis
    by (cases "worst tiles = 0"; cases "worst tiles = 2")
      (auto simp: rollupWeatherStatus_def find_status_ok [OF plain] find_None_iff WEATHER_STATUSES_def)
qed

lemma sunny_iff: "list_all tile_ok tiles \<Longrightarrow> worst tiles = 0 \<longleftrightarrow> (\<forall>t \<in> set tiles. getp t ''status'' = JStr ''sunny'')"
  unfolding worst_eq_iff by (force simp: severity_def tile_ok_def list_all_iff WEATHER_STATUSES_def)

section \<open>Reports\<close>

lemma normalizeTileStatus_in: "normalizeTileStatus v \<in> set WEATHER_STATUSES"
  by (simp add: normalizeTileStatus_def Let_def WEATHER_STATUSES_def)

lemma normalize_tile_ok: "normalize_tile i t = Inr w \<Longrightarrow> tile_ok w"
  using normalizeTileStatus_in
  by (auto simp: normalize_tile_def Let_def ebind_Inr_iff tile_ok_def controller_isPlainRecord_def obj_get_Cons simp del: coals.simps)

lemma normalizeWeatherTiles_ok:
  assumes "normalizeWeatherTiles v = Inr tiles" "JHole \<notin> set tiles"
  shows "list_all tile_ok tiles"
proof -
  obtain xs where xs: "mapiE 0 (\<lambda>i x. if x = JHole then Inr JHole else normalize_tile i x) xs = Inr tiles"
    using assms(1) by (auto simp: normalizeWeatherTiles_def simp del: mapiE.simps split: jsval.splits list.splits)
  show ?thesis unfolding list_all_length
  proof (intro allI impI)
    fix k assume k: "k < length tiles"
    then have "(if xs ! k = JHole then Inr JHole else normalize_tile k (xs ! k)) = Inr (tiles ! k)" using xs by (auto simp: mapiE_Inr_iff)
    moreover have "tiles ! k \<noteq> JHole" using k assms(2) by (metis nth_mem)
    ultimately show "tile_ok (tiles ! k)" by (auto split: if_splits dest: normalize_tile_ok)
  qed
qed

text \<open>The issue codes of the tiles that need attention.\<close>

definition issue_set :: "jsval list \<Rightarrow> string set" where
  "issue_set tiles = {issueCodeForMetric (getp t ''metric'') |t. t \<in> set tiles \<and> getp t ''status'' \<noteq> JStr ''sunny''}"

lemma issueCodes_ok:
  assumes "list_all tile_ok tiles" "issueCodesForTiles tiles = Inr codes"
  shows "set codes = issue_set tiles"
proof -
  have "mapE (\<lambda>tile. ebind (getE (element tile) ''status'') (\<lambda>s. Inr (if s = JStr ''sunny'' then [] else [issueCodeForMetric (getp tile ''metric'')]))) tiles
    = Inr (map (\<lambda>t. if getp t ''status'' = JStr ''sunny'' then [] else [issueCodeForMetric (getp t ''metric'')]) tiles)"
    using assms(1) by (induction tiles) (auto simp: tile_ok_def controller_isPlainRecord_def getE_def element_def split: jsval.splits)
  with assms(2) show ?thesis by (auto simp: issueCodesForTiles_def issue_set_def split: if_splits)
qed

lemma metric_codes: "issueCodeForMetric m \<in> set WEATHER_ISSUE_CODES \<and> issueCodeForMetric m \<noteq> []"
  by (simp add: issueCodeForMetric_def WEATHER_ISSUE_CODES_def)

lemma normalizeIssueCodes_ok:
  assumes "\<forall>c \<in> set codes. c \<in> set WEATHER_ISSUE_CODES \<and> c \<noteq> []"
  shows "normalizeIssueCodes (JArr (map JStr codes)) = Inr (map JStr (uniqueSorted codes))"
proof -
  have "mapiE 0 (\<lambda>i x. if x = JHole then Inr None else emap Some (member_string WEATHER_ISSUE_CODES (indexed ''issue_codes'' i @ '' is not supported'') x
      (indexed ''issue_codes'' i))) (map JStr codes) = Inr (map Some codes)"
    using assms by (auto simp: mapiE_Inr_iff emap_Inr_iff member_string_Inr)
  moreover have "JHole \<notin> set (map JStr codes)" by auto
  ultimately show ?thesis by (simp add: normalizeIssueCodes_def unique_strings_def map_strings_def comp_def push_if_def)
qed

lemma weather_get:
  "getp (JObj (weather_fields st at tiles codes act ev)) ''status'' = JStr st"
  "getp (JObj (weather_fields st at tiles codes act ev)) ''tiles'' = JArr tiles"
  "getp (JObj (weather_fields st at tiles codes act ev)) ''issue_codes''
     = JArr (if st = ''sunny'' then [] else if codes = [] then [JStr ''policy_attention_needed''] else codes)"
  "getp (JObj (weather_fields st at tiles codes act ev)) ''next_action'' = JStr (if st = ''sunny'' then ''none'' else act)"
  by (simp_all add: weather_fields_def obj_get_Cons)

lemma coals_nullish: "ks \<noteq> [] \<Longrightarrow> nullish (pick obj ks) \<Longrightarrow> coals obj ks d = d"
  by (induction obj ks rule: pick.induct) (auto simp: coal_def split: if_splits)

lemma report_Inr:
  assumes "createMemoryWeatherReport N options = Inr r" "nullish (getp options ''status'')" "nullish (pick options [''issue_codes'', ''issueCodes''])"
  obtains tiles st inferred codes at act ev where
    "r = JObj (weather_fields st at tiles codes act ev)" "list_all tile_ok tiles" "rollupWeatherStatus tiles = Inr st"
    "(if st = ''sunny'' then Inr [] else issueCodesForTiles tiles) = Inr inferred" "normalizeIssueCodes (JArr (map JStr inferred)) = Inr codes"
proof -
  have "coals options [''issue_codes'', ''issueCodes''] d = d" for d using assms(3) by (intro coals_nullish) simp_all
  with assms(1,2) obtain v tiles st s inferred codes at act ev where
    t: "normalizeWeatherTiles v = Inr tiles" "rollupWeatherStatus tiles = Inr s" "normalizeWeatherStatus (JStr s) = Inr st"
      "(if st = ''sunny'' then Inr [] else issueCodesForTiles tiles) = Inr inferred" "normalizeIssueCodes (JArr (map JStr inferred)) = Inr codes"
    and a: "assertMemoryControllerPublicSafe N (JObj (weather_fields st at tiles codes act ev)) = Inr r"
    unfolding createMemoryWeatherReport_def ebind_Inr_iff emap_Inr_iff if_P [OF assms(2)] by (elim exE conjE) metis
  have r: "r = JObj (weather_fields st at tiles codes act ev)" and safe: "public_safe False (JObj (weather_fields st at tiles codes act ev))"
    using assert_controller_safe [OF a] by metis+
  from safe have "\<forall>t \<in> set tiles. public_safe False t" by (simp add: weather_fields_def)
  then have "list_all tile_ok tiles" using normalizeWeatherTiles_ok [OF t(1)] by (metis public_safe.simps(13))
  moreover have "st = s" using t(3) by (simp add: normalizeWeatherStatus_def Let_def split: if_splits)
  ultimately show thesis using that r t by metis
qed

text \<open>
  C33. The report agrees with its tiles: when the caller sets neither a status nor issue codes, the status
  is the worst status of the tiles, the issue codes are exactly those of the tiles that are not sunny,
  and a sunny report asks for no action.
\<close>

theorem weather_report_agrees:
  assumes "createMemoryWeatherReport N options = Inr r"
    and "nullish (getp options ''status'')" and "nullish (pick options [''issue_codes'', ''issueCodes''])"
  shows "\<exists>tiles codes. getp r ''tiles'' = JArr tiles \<and> getp r ''status'' = JStr (WEATHER_STATUSES ! worst tiles)
     \<and> getp r ''issue_codes'' = JArr (map JStr codes) \<and> set codes = issue_set tiles
     \<and> (codes = [] \<longrightarrow> getp r ''next_action'' = JStr ''none'')"
proof -
  obtain tiles st inferred codes at act ev where
    r: "r = JObj (weather_fields st at tiles codes act ev)" and ok: "list_all tile_ok tiles" and st: "rollupWeatherStatus tiles = Inr st"
    and i: "(if st = ''sunny'' then Inr [] else issueCodesForTiles tiles) = Inr inferred" and c: "normalizeIssueCodes (JArr (map JStr inferred)) = Inr codes"
    using assms by (rule report_Inr)
  have status: "st = WEATHER_STATUSES ! worst tiles" using st rollup_worst [OF ok] by simp
  have sunny: "st = ''sunny'' \<longleftrightarrow> issue_set tiles = {}"
    using sunny_iff [OF ok] worst_eq_iff(3) [of tiles] unfolding status issue_set_def
    by (auto simp: WEATHER_STATUSES_def le_Suc_eq numeral_2_eq_2)
  show ?thesis
  proof (cases "st = ''sunny''")
    case True
    then show ?thesis using sunny status unfolding r weather_get by auto
  next
    case False
    with i have inf: "set inferred = issue_set tiles" using issueCodes_ok [OF ok] by simp
    then have "\<forall>x \<in> set inferred. x \<in> set WEATHER_ISSUE_CODES \<and> x \<noteq> []" using metric_codes by (auto simp: issue_set_def)
    with c have codes: "codes = map JStr (uniqueSorted inferred)" by (simp add: normalizeIssueCodes_ok)
    have "inferred \<noteq> []" using False sunny inf by auto
    with False codes inf status show ?thesis unfolding r weather_get by auto
  qed
qed

section \<open>The sample report\<close>

text \<open>Values that both scans and the encoding accept; the fields of a report are such values.\<close>

definition fine :: "jsval \<Rightarrow> bool" where
  "fine v \<longleftrightarrow> public_safe False v \<and> no_instances v \<and> (\<forall>path. scanExtraForbiddenKeys v path = [])"

lemma fine_good: "good_value v \<Longrightarrow> fine v"
  by (simp add: fine_def good_value_public good_value_no_instances good_value_extra)

lemma fine_object: "list_all (\<lambda>p. good_key (fst p) \<and> fine (snd p)) ps \<Longrightarrow> fine (JObj ps)"
  by (auto simp: fine_def list_all_iff good_key_ok push_if_def)

lemma fine_assert:
  assumes "fine v"
  shows "assertMemoryControllerPublicSafe N v = Inr v"
proof -
  have "\<forall>p. scanPublicSafeValue False v p = []" using assms by (simp only: scan_iff_public_safe fine_def simp_thms)
  moreover obtain c where "canonicalize v = Inr c"
    using assms canonicalize_public_safe [of False v] by (auto simp: fine_def canonicalize_def is_ok_iff)
  ultimately show ?thesis using assms
    by (simp add: assertMemoryControllerPublicSafe_def scanMemoryControllerPublicSafe_def verifyPublicSafeArtifact_def Let_def scan_issues_def strict_of_def
        getp_verificationResult fine_def)
qed

definition sample_tile :: jsval where
  "sample_tile = JObj [(''tile_ref'', JStr ''ref:tile:expiring_grants''), (''status'', JStr ''storm_warning''), (''metric'', JStr ''expiring_grants''),
      (''count'', JInt 3), (''evidence_refs'', JArr [JStr ''ref:evidence:weather''])]"

lemma tile_refs: "rx_full PUBLIC_REF_RE ''ref:tile:expiring_grants''" "rx_full PUBLIC_REF_RE ''ref:evidence:weather''"
  using public_ref_intro [of "CHR ''t''" "''ile:expiring_grants''"] public_ref_intro [of "CHR ''e''" "''vidence:weather''"]
  by (simp_all add: alnum_or_def ch_alnum_def ch_lower_iff ch_upper_iff ch_digit_iff)

lemma sample_tile_normal: "normalizeWeatherTiles (JArr [sample_tile]) = Inr [sample_tile]"
proof -
  have "normalizePublicRef (JStr ''ref:tile:expiring_grants'') f = Inr ''ref:tile:expiring_grants''"
    "normalizePublicRefArray (JArr [JStr ''ref:evidence:weather'']) f = Inr [JStr ''ref:evidence:weather'']" for f
    by (rule sample_ref_one sample_ref_array, rule tile_refs, simp)+
  then show ?thesis
    by (simp add: normalizeWeatherTiles_def normalize_tile_def controller_assertPlainRecord_def controller_isPlainRecord_def obj_get_Cons
       coal_def normalizeTileStatus_def WEATHER_STATUSES_def normalizeWeatherMetric_def member_string_def normalizeRequiredString_def WEATHER_METRICS_def
       normalizeCount_def sample_tile_def)
qed

lemma weather_safe: "safe_string False ''ref:tile:expiring_grants''" "safe_string False ''ref:evidence:weather''" "safe_string False ''storm_warning''"
  "safe_string False ''expiring_grants''" "safe_string False ''grant_expiring''" "safe_string False ''review_grants''" "safe_string False MEMORY_WEATHER_REPORT_SCHEMA"
  by (rule safe_plain; simp add: plain_eval MEMORY_WEATHER_REPORT_SCHEMA_def)+

lemma weather_keys: "good_key ''tile_ref''" "good_key ''metric''" "good_key ''count''" "good_key ''evidence_refs''" "good_key ''tiles''" "good_key ''generated_at''"
  "good_key ''issue_codes''" "good_key ''next_action''"
  by (simp_all add: key_defs)

lemma sample_tile_fine: "fine (JArr [sample_tile])"
proof -
  have "fine sample_tile" unfolding sample_tile_def
    by (rule fine_object) (simp add: fine_good weather_keys weather_safe good_grant_keys is_finite_def)
  then show ?thesis by (simp add: fine_def looksLikeEmbeddingVector_def)
qed

lemma sample_report:
  obtains r where "createMemoryWeatherReport sample (JObj [(''tiles'', JArr [sample_tile])]) = Inr r" "getp r ''tiles'' = JArr [sample_tile]"
proof -
  let ?codes = "[JStr ''grant_expiring'']"
  have e: "normalizeNonEmptyPublicRefArray (JArr [JStr ''ref:evidence:weather'']) f = Inr [JStr ''ref:evidence:weather'']" for f
    by (rule sample_ref_nonempty_array [OF tile_refs(2)]) simp
  have ev: "evidenceRefsForTiles [sample_tile] = [JStr ''ref:evidence:weather'']"
    by (simp add: evidenceRefsForTiles_def sample_tile_def obj_get_Cons uniqueSorted_def set_of_distinct push_if_def Let_def elems_def)
  have ok: "list_all tile_ok [sample_tile]" by (simp add: tile_ok_def sample_tile_def controller_isPlainRecord_def obj_get_Cons WEATHER_STATUSES_def)
  have "worst [sample_tile] = 2" by (simp add: worst_def severity_def sample_tile_def obj_get_Cons)
  with rollup_worst [OF ok] have roll: "rollupWeatherStatus [sample_tile] = Inr ''storm_warning''" by (simp add: WEATHER_STATUSES_def)
  have issues: "issueCodesForTiles [sample_tile] = Inr [''grant_expiring'']"
    by (simp add: issueCodesForTiles_def sample_tile_def obj_get_Cons uniqueSorted_def set_of_distinct issueCodeForMetric_def element_def getE_def)
  have codes: "normalizeIssueCodes (JArr ?codes) = Inr ?codes"
    using normalizeIssueCodes_ok [of "[''grant_expiring'']"] by (simp add: WEATHER_ISSUE_CODES_def uniqueSorted_def set_of_distinct)
  have act: "firstNextAction [sample_tile] ''storm_warning'' ?codes = Inr ''review_grants''"
    by (simp add: firstNextAction_def)
  have "fine (JObj (weather_fields ''storm_warning'' DEFAULT_NOW [sample_tile] ?codes ''review_grants'' [JStr ''ref:evidence:weather'']))"
    unfolding weather_fields_def using good_boundary_object sample_tile_fine
    by (intro fine_object) (simp add: fine_good weather_keys weather_safe safe_strings good_grant_keys good_object_def list_all_iff)
  from fine_assert [OF this] have "createMemoryWeatherReport sample (JObj [(''tiles'', JArr [sample_tile])])
      = Inr (JObj (weather_fields ''storm_warning'' DEFAULT_NOW [sample_tile] ?codes ''review_grants'' [JStr ''ref:evidence:weather'']))"
    by (simp add: createMemoryWeatherReport_def controller_assertPlainRecord_def controller_isPlainRecord_def normalizeDateTime_default sample_tile_normal
       obj_get_Cons coal_def sample_tile_def [symmetric] roll issues codes act normalizeWeatherStatus_def WEATHER_STATUSES_def normalizeNextAction_def member_string_def
       normalizeRequiredString_def WEATHER_NEXT_ACTIONS_def ev e)
  then show thesis by (rule that) (simp only: weather_get)
qed

theorem weather_report_agrees_witness:
  "\<exists>r codes. createMemoryWeatherReport sample (JObj [(''tiles'', JArr [sample_tile])]) = Inr r \<and> getp r ''status'' = JStr ''storm_warning''
     \<and> getp r ''issue_codes'' = JArr (map JStr codes) \<and> codes \<noteq> []"
proof -
  obtain r where r: "createMemoryWeatherReport sample (JObj [(''tiles'', JArr [sample_tile])]) = Inr r" "getp r ''tiles'' = JArr [sample_tile]"
    by (rule sample_report)
  have "nullish (getp (JObj [(''tiles'', JArr [sample_tile])]) ''status'')"
    "nullish (pick (JObj [(''tiles'', JArr [sample_tile])]) [''issue_codes'', ''issueCodes''])" by (simp_all add: obj_get_Cons)
  from weather_report_agrees [OF r(1) this] r(2) obtain codes where
    c: "getp r ''status'' = JStr (WEATHER_STATUSES ! worst [sample_tile])" "getp r ''issue_codes'' = JArr (map JStr codes)" "set codes = issue_set [sample_tile]"
    by auto
  have "worst [sample_tile] = 2" "issue_set [sample_tile] \<noteq> {}"
    by (simp_all add: worst_def severity_def issue_set_def sample_tile_def obj_get_Cons)
  with c r(1) show ?thesis by (auto simp: WEATHER_STATUSES_def)
qed

end
