(* ===== verification/Settlement.thy ===== *)
theory Settlement
  imports JsDate JsNumber
begin

text \<open>
  Settlement of permissionless memory jobs (\<open>packages/settlement\<close>): jobs, capacity profiles, operator
  quotes, settlement receipts and their verification.  Every function builds a public object from
  untrusted options.  \<open>createSettlementBatch\<close> is left out: it orders operators by the collation of the
  host's locale.
\<close>

section \<open>Tables and patterns\<close>

definition PERMISSIONLESS_MEMORY_JOB_SCHEMA :: string where "PERMISSIONLESS_MEMORY_JOB_SCHEMA = ''enigma.permissionless_memory_job.v1''"
definition CONSUMER_GPU_CAPACITY_PROFILE_SCHEMA :: string where "CONSUMER_GPU_CAPACITY_PROFILE_SCHEMA = ''enigma.consumer_gpu_capacity_profile.v1''"
definition OPERATOR_SERVICE_QUOTE_SCHEMA :: string where "OPERATOR_SERVICE_QUOTE_SCHEMA = ''enigma.operator_service_quote.v1''"
definition SERVICE_SETTLEMENT_RECEIPT_SCHEMA :: string where "SERVICE_SETTLEMENT_RECEIPT_SCHEMA = ''enigma.service_settlement_receipt.v1''"

definition SETTLEMENT_PRODUCT_THESIS :: string where
  "SETTLEMENT_PRODUCT_THESIS = ''Use permissionless rails for access, service accountability, and settlement while keeping raw memory and hot-path optimization centralized or BYOC-controlled.''"

definition CONSUMER_GPU_MEMORY_MARKET_THESIS :: string where
  "CONSUMER_GPU_MEMORY_MARKET_THESIS = ''Use consumer and workstation GPU operators for priced memory-optimization capacity only when they can prove bounded service receipts; do not decentralize raw memory or claim provider-wide discounts without measured evidence.''"

definition ACCEPTED_JOB_TYPES :: "string list" where
  "ACCEPTED_JOB_TYPES = [''memory.read'', ''memory.write'', ''memory.delete'', ''context.pack'', ''relay.store'', ''witness.checkpoint'', ''gateway.evaluate'']"

definition ACCEPTED_SERVICE_KINDS :: "string list" where
  "ACCEPTED_SERVICE_KINDS = [''relay'', ''witness'', ''gateway'', ''memory_optimizer'', ''settlement_gateway'']"

definition ACCEPTED_ASSETS :: "string list" where "ACCEPTED_ASSETS = [''USD'', ''USDC'', ''SOL'', ''ENIGMA'', ''CREDITS'']"

definition ACCEPTED_ACCELERATOR_CLASSES :: "string list" where
  "ACCEPTED_ACCELERATOR_CLASSES = [''consumer_gpu'', ''workstation_gpu'', ''edge_gpu'']"

definition ACCEPTED_MODEL_FAMILIES :: "string list" where
  "ACCEPTED_MODEL_FAMILIES = [''small-context'', ''medium-context'', ''long-context'', ''embedding'', ''reranker'', ''memory-optimizer'']"

text \<open>Case-insensitive; the subject is lower-cased first.\<close>

definition forbidden_words :: "string list" where
  "forbidden_words =
     [''raw'', ''plaintext'', ''plain_text'', ''prompt'', ''prompts'', ''message'', ''messages'', ''text'', ''content'', ''document'',
      ''documents'', ''transcript'', ''response'', ''responses'', ''provider_response'', ''response_body'', ''credential'', ''credentials'', ''api_key'',
      ''secret'', ''password'', ''private_key'', ''seed'', ''mnemonic'']"

definition FORBIDDEN_KEY_RE :: rx where
  "FORBIDDEN_KEY_RE = rx_seqs
     [RAlt REps (RSeq rx_any (rx_lit ''_'')), rx_alts (map rx_lit forbidden_words), RAlt REps (RSeq (rx_lit ''_'') rx_any)]"

definition settlement_SECRET_VALUE_RE :: rx where
  "settlement_SECRET_VALUE_RE = rx_alts
     [rx_seqs [rx_lit ''bearer'', ws_plus, at_least 12 (lower_alnum_or ''._~+/=-'')],
      rx_seqs [rx_lit ''basic'', ws_plus, at_least 12 (lower_alnum_or ''+/=-'')],
      rx_seqs [rx_lit ''-----begin '', rx_star (RCls (\<lambda>c. ch_lower c \<or> c = CHR '' '')), rx_lit ''private key-----''],
      rx_seqs [rx_lit ''http'', rx_opt (rx_lit ''s''), rx_lit ''://'', at_least 1 (\<lambda>c. \<not> ch_space c \<and> c \<notin> set ''/:@''), rx_lit '':'',
               at_least 1 (\<lambda>c. \<not> ch_space c \<and> c \<notin> set ''/@''), rx_lit ''@''],
      rx_lit ''raw memory'', rx_lit ''private prompt'', rx_lit ''full transcript'', rx_lit ''decrypted capsule'',
      rx_seqs [rx_lit ''sk-'', at_least 16 (lower_alnum_or ''_-'')],
      rx_seqs [rx_lit ''akia'', rx_times 16 (RCls (\<lambda>c. ch_lower c \<or> ch_digit c))]]"

definition SAFE_FIELD_NAMES :: "string list" where
  "SAFE_FIELD_NAMES = [''raw_memory_on_chain'', ''raw_memory_in_job'', ''raw_memory_in_receipt'', ''raw_memory_access_required'']"

text \<open>The paths whose texts are not scanned.\<close>

definition exempt_path :: "string \<Rightarrow> bool" where
  "exempt_path path = rx_full (RSeq rx_any (RSeq (rx_lit ''.'')
     (RAlt (rx_seqs [rx_lit ''claim_boundary['', at_least 1 ch_digit, rx_lit '']'']) (rx_lit ''product_thesis'')))) path"

definition secret_text :: "string \<Rightarrow> bool" where
  "secret_text s = rx_search settlement_SECRET_VALUE_RE (toLowerCase s)"

definition forbidden_field :: "string \<Rightarrow> bool" where
  "forbidden_field k = (rx_full FORBIDDEN_KEY_RE (toLowerCase k) \<and> k \<notin> set SAFE_FIELD_NAMES)"

section \<open>The digest\<close>

definition settlement_isPlainObject :: "jsval \<Rightarrow> bool" where
  "settlement_isPlainObject v = (isObject v \<and> \<not> isArray v)"

fun settlement_canonicalize :: "jsval \<Rightarrow> jsval" where
  "settlement_canonicalize (JArr xs) = JArr (map settlement_canonicalize xs)"
| "settlement_canonicalize (JObj ps) = JObj (obj_puts (map (\<lambda>(k, v). (k, settlement_canonicalize v)) (sort_key fst ps)) [])"
| "settlement_canonicalize (JInst c ps) = JObj (obj_puts (map (\<lambda>(k, v). (k, settlement_canonicalize v)) (sort_key fst ps)) [])"
| "settlement_canonicalize (JBytes s) = JObj (obj_puts (sort_key fst (props_of (JBytes s))) [])"
| "settlement_canonicalize v = v"

text \<open>\<open>JSON.stringify\<close>: None is \<open>undefined\<close>, which an object drops and an array prints as null.\<close>

fun json_text :: "jsval \<Rightarrow> string option res" where
  "json_text JNull = Inr (Some ''null'')"
| "json_text (JBool b) = Inr (Some (if b then ''true'' else ''false''))"
| "json_text (JNum n) = Inr (Some (if is_finite n then num_to_string n else ''null''))"
| "json_text (JStr s) = Inr (Some (json_string s))"
| "json_text (JArr xs) = emap (\<lambda>ts. Some (''['' @ join '','' (map (\<lambda>t. case t of Some u \<Rightarrow> u | None \<Rightarrow> ''null'') ts) @ '']'')) (mapE json_text xs)"
| "json_text (JObj ps) = emap (\<lambda>ts. Some (''{'' @ join '','' (concat ts) @ ''}''))
     (mapE (\<lambda>(k, v). emap (\<lambda>t. case t of Some u \<Rightarrow> [json_string k @ '':'' @ u] | None \<Rightarrow> []) (json_text v)) ps)"
| "json_text (JInst c ps) = emap (\<lambda>ts. Some (''{'' @ join '','' (concat ts) @ ''}''))
     (mapE (\<lambda>(k, v). emap (\<lambda>t. case t of Some u \<Rightarrow> [json_string k @ '':'' @ u] | None \<Rightarrow> []) (json_text v)) ps)"
| "json_text (JBytes s) = Inr (Some (''{'' @ json_string ''type'' @ '':'' @ json_string ''Buffer'' @ '','' @ json_string ''data'' @ '':['' @
     join '','' (map (\<lambda>c. nat_to_string (of_char c)) s) @ '']}''))"
| "json_text (JBig i) = Inl (TypeError ''Do not know how to serialize a BigInt'')"
| "json_text _ = Inr None"

definition settlement_digest :: "node \<Rightarrow> jsval \<Rightarrow> string res" where
  "settlement_digest N v =
     ebind (json_text (settlement_canonicalize v)) (\<lambda>t.
       case t of Some u \<Rightarrow> Inr (SHA256_PREFIX @ sha256Str N u)
       | None \<Rightarrow> Inl (TypeError ''The data argument must be of type string or an instance of Buffer, TypedArray, or DataView. Received undefined''))"

text \<open>\<open>digest(body).slice(SHA256_PREFIX.length, SHA256_PREFIX.length + 32)\<close> after a tag.\<close>

definition id_from :: "string \<Rightarrow> node \<Rightarrow> jsval \<Rightarrow> string res" where
  "id_from tag N body = emap (\<lambda>h. tag @ take 32 (drop (length SHA256_PREFIX) h)) (settlement_digest N body)"

definition jobIdFrom :: "node \<Rightarrow> jsval \<Rightarrow> string res" where "jobIdFrom = id_from ''pjob_''"
definition quoteIdFrom :: "node \<Rightarrow> jsval \<Rightarrow> string res" where "quoteIdFrom = id_from ''quote_''"
definition receiptIdFrom :: "node \<Rightarrow> jsval \<Rightarrow> string res" where "receiptIdFrom = id_from ''settle_''"

section \<open>Scalars\<close>

definition js_trim :: "string \<Rightarrow> string" where
  "js_trim s = rev (dropWhile ch_space (rev (dropWhile ch_space s)))"

definition settlement_requiredString :: "jsval \<Rightarrow> string \<Rightarrow> string res" where
  "settlement_requiredString v field =
     (case v of
        JStr s \<Rightarrow> if js_trim s = [] then Inl (TypeError (field @ '' must be a non-empty string'')) else Inr (js_trim s)
      | _ \<Rightarrow> Inl (TypeError (field @ '' must be a non-empty string'')))"

definition optionalString :: "jsval \<Rightarrow> jsval \<Rightarrow> jsval res" where
  "optionalString v fallback =
     (if nullish v \<or> v = JStr [] then Inr fallback else emap JStr (settlement_requiredString (JStr (js_String v)) ''string''))"

text \<open>\<open>Number(v)\<close>.\<close>

definition js_Number :: "node \<Rightarrow> jsval \<Rightarrow> jsnum res" where
  "js_Number N v =
     (case v of
        JSym \<Rightarrow> Inl (TypeError ''Cannot convert a Symbol value to a number'')
      | JBig i \<Rightarrow> Inr (if \<bar>i\<bar> \<le> safe_limit then NInt i else nd_number N (int_to_string i))
      | _ \<Rightarrow> Inr (js_ToNumber N v))"

definition nonNegativeNumber :: "node \<Rightarrow> jsval \<Rightarrow> string \<Rightarrow> jsnum res" where
  "nonNegativeNumber N v field =
     ebind (js_Number N (coal v (JInt 0))) (\<lambda>number.
       if \<not> is_finite number \<or> num_less number (NInt 0) then Inl (TypeError (field @ '' must be a non-negative number'')) else Inr number)"

definition positiveNumber :: "node \<Rightarrow> jsval \<Rightarrow> string \<Rightarrow> jsnum res" where
  "positiveNumber N v field =
     ebind (js_Number N v) (\<lambda>number.
       if \<not> is_finite number \<or> \<not> num_less (NInt 0) number then Inl (TypeError (field @ '' must be a positive number'')) else Inr number)"

definition positiveInteger :: "node \<Rightarrow> jsval \<Rightarrow> string \<Rightarrow> jsnum res" where
  "positiveInteger N v field =
     ebind (js_Number N v) (\<lambda>number.
       if num_int number = None \<or> \<not> num_less (NInt 0) number then Inl (TypeError (field @ '' must be a positive integer'')) else Inr number)"

text \<open>The array keeps its holes.\<close>

definition boundedStringArray :: "jsval \<Rightarrow> string \<Rightarrow> nat \<Rightarrow> jsval list res" where
  "boundedStringArray v field limit =
     (case v of
        JArr xs \<Rightarrow>
          if xs = [] \<or> length xs > limit then Inl (TypeError (field @ '' must be a non-empty array with at most '' @ nat_to_string limit @ '' entries''))
          else mapiE 0 (\<lambda>i x. if x = JHole then Inr JHole else emap JStr (settlement_requiredString x (index_path field i))) xs
      | _ \<Rightarrow> Inl (TypeError (field @ '' must be a non-empty array with at most '' @ nat_to_string limit @ '' entries'')))"

definition EPOCH :: string where "EPOCH = ''1970-01-01T00:00:00.000Z''"

text \<open>\<open>Date.parse(v)\<close> of a value: a symbol cannot be converted to a string.\<close>

definition isoTimestamp :: "node \<Rightarrow> jsval \<Rightarrow> string \<Rightarrow> jsval \<Rightarrow> jsval res" where
  "isoTimestamp N v field fallback =
     ebind (optionalString v (if fallback = JUndef then JStr EPOCH else fallback)) (\<lambda>timestamp.
       if timestamp = JSym then Inl (TypeError ''Cannot convert a Symbol value to a string'')
       else if Date_parse N (js_String timestamp) = None then Inl (TypeError (field @ '' must be ISO-parseable''))
       else Inr timestamp)"

definition settlement_root :: "jsval \<Rightarrow> string \<Rightarrow> string res" where
  "settlement_root v field =
     ebind (settlement_requiredString v field) (\<lambda>s.
       if \<not> rx_full ROOT_RE s then Inl (TypeError (field @ '' must be a sha256-prefixed digest'')) else Inr s)"

text \<open>\<open>toUpperCase\<close> on ASCII; no other letter has an upper case in the accepted assets.\<close>

definition ascii_upper :: "char \<Rightarrow> char" where
  "ascii_upper c = (if ch_lower c then char_of (of_char c - 32 :: nat) else c)"

definition asset :: "jsval \<Rightarrow> string \<Rightarrow> string res" where
  "asset v field =
     ebind (settlement_requiredString v field) (\<lambda>s.
       let string = map ascii_upper s
       in if string \<notin> set ACCEPTED_ASSETS then Inl (TypeError (field @ '' is not an accepted settlement asset'')) else Inr string)"

text \<open>Membership in one of the tables after \<open>requiredString\<close>.\<close>

definition accepted :: "string list \<Rightarrow> jsval \<Rightarrow> string \<Rightarrow> string res" where
  "accepted table v field =
     ebind (settlement_requiredString v field) (\<lambda>s. if s \<notin> set table then Inl (TypeError (field @ '' is not accepted'')) else Inr s)"

fun assertNoSensitivePayload :: "jsval \<Rightarrow> string \<Rightarrow> unit res" where
  "assertNoSensitivePayload (JStr s) path =
     (if \<not> exempt_path path \<and> secret_text s then Inl (TypeError (path @ '' contains secret-looking data'')) else Inr ())"
| "assertNoSensitivePayload (JArr xs) path =
     emap (\<lambda>_. ()) (mapE (\<lambda>(i, x). assertNoSensitivePayload x (index_path path i)) (enumerate 0 xs))"
| "assertNoSensitivePayload (JObj ps) path =
     emap (\<lambda>_. ()) (mapE (\<lambda>(k, v).
       if forbidden_field k then Inl (TypeError (key_path path k @ '' is not allowed in settlement artifacts''))
       else assertNoSensitivePayload v (key_path path k)) ps)"
| "assertNoSensitivePayload (JInst c ps) path =
     emap (\<lambda>_. ()) (mapE (\<lambda>(k, v).
       if forbidden_field k then Inl (TypeError (key_path path k @ '' is not allowed in settlement artifacts''))
       else assertNoSensitivePayload v (key_path path k)) ps)"
| "assertNoSensitivePayload _ path = Inr ()"

section \<open>Jobs\<close>

text \<open>Whether \<open>Date.parse(a) <= Date.parse(b)\<close> on values that parse.\<close>

definition not_after :: "node \<Rightarrow> jsval \<Rightarrow> jsval \<Rightarrow> bool" where
  "not_after N a b =
     (case (Date_parse N (js_String a), Date_parse N (js_String b)) of (Some x, Some y) \<Rightarrow> x \<le> y | _ \<Rightarrow> False)"

definition FAR_FUTURE :: jsval where "FAR_FUTURE = JStr ''2100-01-01T00:00:00.000Z''"

definition no_flags :: "string list \<Rightarrow> props" where
  "no_flags fs = map (\<lambda>f. (f, JBool False)) fs"

text \<open>\<open>Object.freeze({ ...body, <id>, <hash> })\<close> after a final scan.\<close>

definition sealed :: "node \<Rightarrow> (node \<Rightarrow> jsval \<Rightarrow> string res) \<Rightarrow> string \<Rightarrow> string \<Rightarrow> string \<Rightarrow> props \<Rightarrow> jsval res" where
  "sealed N idFrom idKey hashKey path body =
     ebind (idFrom N (JObj body)) (\<lambda>i.
     ebind (settlement_digest N (JObj body)) (\<lambda>h.
     let obj = JObj (body @ [(idKey, JStr i), (hashKey, JStr h)])
     in ebind (assertNoSensitivePayload obj path) (\<lambda>_. Inr obj)))"

definition job_fields :: "string \<Rightarrow> string \<Rightarrow> string \<Rightarrow> string \<Rightarrow> string \<Rightarrow> jsval \<Rightarrow> jsval \<Rightarrow> jsnum \<Rightarrow> string \<Rightarrow> props" where
  "job_fields tenant jobType memory policy usage requestedAt expiresAt maxPrice paymentAsset =
     [(''schema'', JStr PERMISSIONLESS_MEMORY_JOB_SCHEMA), (''product_thesis'', JStr SETTLEMENT_PRODUCT_THESIS), (''tenant_id'', JStr tenant),
      (''job_type'', JStr jobType), (''memory_commitment_root'', JStr memory), (''policy_hash'', JStr policy), (''usage_event_hash'', JStr usage),
      (''requested_at'', requestedAt), (''expires_at'', expiresAt),
      (''max_price'', JObj [(''amount'', JNum maxPrice), (''asset'', JStr paymentAsset)]),
      (''access_boundary'', JObj ((''permissionless_submission'', JBool True) # no_flags [''raw_memory_on_chain'', ''raw_memory_in_job''] @
         (''centralized_or_byoc_hot_path'', JBool True) # no_flags [''token_roi_claim'', ''provider_invoice_savings_claim'']))]"

definition createPermissionlessMemoryJob :: "node \<Rightarrow> jsval \<Rightarrow> jsval res" where
  "createPermissionlessMemoryJob N input =
     (if \<not> settlement_isPlainObject input then Inl (TypeError ''createPermissionlessMemoryJob requires an options object'')
      else ebind (assertNoSensitivePayload input ''input'') (\<lambda>_.
      ebind (accepted ACCEPTED_JOB_TYPES (pick input [''job_type'', ''jobType'']) ''job_type'') (\<lambda>jobType.
      ebind (positiveNumber N (pick input [''max_price_amount'', ''maxPriceAmount'']) ''max_price_amount'') (\<lambda>maxPrice.
      ebind (asset (pick input [''payment_asset'', ''paymentAsset'']) ''payment_asset'') (\<lambda>paymentAsset.
      ebind (settlement_requiredString (pick input [''tenant_id'', ''tenantId'']) ''tenant_id'') (\<lambda>tenant.
      ebind (settlement_root (pick input [''memory_commitment_root'', ''memoryCommitmentRoot'']) ''memory_commitment_root'') (\<lambda>memory.
      ebind (settlement_root (pick input [''policy_hash'', ''policyHash'']) ''policy_hash'') (\<lambda>policy.
      ebind (settlement_root (pick input [''usage_event_hash'', ''usageEventHash'']) ''usage_event_hash'') (\<lambda>usage.
      ebind (isoTimestamp N (pick input [''requested_at'', ''requestedAt'']) ''requested_at'' JUndef) (\<lambda>requestedAt.
      ebind (isoTimestamp N (pick input [''expires_at'', ''expiresAt'']) ''expires_at'' FAR_FUTURE) (\<lambda>expiresAt.
      if not_after N expiresAt requestedAt then Inl (RangeError ''expires_at must be after requested_at'')
      else sealed N jobIdFrom ''job_id'' ''job_hash'' ''job''
             (job_fields tenant jobType memory policy usage requestedAt expiresAt maxPrice paymentAsset))))))))))))"

section \<open>Capacity profiles\<close>

definition profile_fields where
  "profile_fields operator accelerator hardware region family models observedAt expiresAt vram window rate latency price profileAsset capacity terms =
     [(''schema'', JStr CONSUMER_GPU_CAPACITY_PROFILE_SCHEMA), (''product_thesis'', JStr CONSUMER_GPU_MEMORY_MARKET_THESIS),
      (''operator_id'', JStr operator), (''accelerator_class'', JStr accelerator), (''hardware_ref'', JStr hardware), (''region'', JStr region),
      (''model_family'', JStr family), (''model_refs'', JArr models), (''observed_at'', observedAt), (''expires_at'', expiresAt),
      (''capacity'', JObj [(''vram_gb'', JNum vram), (''max_context_window_tokens'', JNum window),
         (''available_context_tokens_per_minute'', JNum rate), (''p95_latency_ms'', JNum latency)]),
      (''price_per_million_context_tokens'', JObj [(''amount'', JNum price), (''asset'', JStr profileAsset)]),
      (''service_boundary'', JObj [(''permissionless_discovery'', JBool True), (''permissionless_settlement'', JBool True),
         (''centralized_operator_hot_path'', JBool True), (''raw_memory_access_required'', JBool False), (''decentralization_claim'', JBool False),
         (''provider_discount_claim'', JBool False), (''measured_receipt_required'', JBool True)]),
      (''capacity_ref'', JStr capacity), (''terms_ref'', JStr terms)]"

definition createConsumerGpuCapacityProfile :: "node \<Rightarrow> jsval \<Rightarrow> jsval res" where
  "createConsumerGpuCapacityProfile N input =
     (if \<not> settlement_isPlainObject input then Inl (TypeError ''createConsumerGpuCapacityProfile requires an options object'')
      else ebind (assertNoSensitivePayload input ''input'') (\<lambda>_.
      ebind (accepted ACCEPTED_ACCELERATOR_CLASSES (pick input [''accelerator_class'', ''acceleratorClass'']) ''accelerator_class'') (\<lambda>accelerator.
      ebind (accepted ACCEPTED_MODEL_FAMILIES (pick input [''model_family'', ''modelFamily'']) ''model_family'') (\<lambda>family.
      ebind (positiveNumber N (pick input [''price_per_million_context_tokens'', ''pricePerMillionContextTokens'']) ''price_per_million_context_tokens'') (\<lambda>price.
      ebind (asset (pick input [''asset'', ''settlement_asset'', ''settlementAsset'']) ''asset'') (\<lambda>profileAsset.
      ebind (settlement_requiredString (pick input [''operator_id'', ''operatorId'']) ''operator_id'') (\<lambda>operator.
      ebind (settlement_requiredString (pick input [''hardware_ref'', ''hardwareRef'']) ''hardware_ref'') (\<lambda>hardware.
      ebind (settlement_requiredString (getp input ''region'') ''region'') (\<lambda>region.
      ebind (boundedStringArray (pick input [''model_refs'', ''modelRefs'']) ''model_refs'' 12) (\<lambda>models.
      ebind (isoTimestamp N (pick input [''observed_at'', ''observedAt'']) ''observed_at'' JUndef) (\<lambda>observedAt.
      ebind (isoTimestamp N (pick input [''expires_at'', ''expiresAt'']) ''expires_at'' FAR_FUTURE) (\<lambda>expiresAt.
      ebind (positiveNumber N (pick input [''vram_gb'', ''vramGb'']) ''vram_gb'') (\<lambda>vram.
      ebind (positiveInteger N (pick input [''max_context_window_tokens'', ''maxContextWindowTokens'']) ''max_context_window_tokens'') (\<lambda>window.
      ebind (positiveInteger N (pick input [''available_context_tokens_per_minute'', ''availableContextTokensPerMinute''])
               ''available_context_tokens_per_minute'') (\<lambda>rate.
      ebind (positiveNumber N (pick input [''p95_latency_ms'', ''p95LatencyMs'']) ''p95_latency_ms'') (\<lambda>latency.
      ebind (settlement_requiredString (pick input [''capacity_ref'', ''capacityRef'']) ''capacity_ref'') (\<lambda>capacity.
      ebind (settlement_requiredString (pick input [''terms_ref'', ''termsRef'']) ''terms_ref'') (\<lambda>terms.
      if not_after N expiresAt observedAt then Inl (RangeError ''capacity expires_at must be after observed_at'')
      else
       (let body = profile_fields operator accelerator hardware region family models observedAt expiresAt vram window rate latency price profileAsset capacity terms
        in ebind (settlement_digest N (JObj body)) (\<lambda>h.
           let profile = JObj (body @ [(''capacity_profile_hash'', JStr h)])
           in ebind (assertNoSensitivePayload profile ''capacity_profile'') (\<lambda>_. Inr profile)))))))))))))))))))))"

section \<open>Quotes\<close>

definition quote_fields :: "jsval \<Rightarrow> string \<Rightarrow> string \<Rightarrow> jsval \<Rightarrow> jsval \<Rightarrow> jsnum \<Rightarrow> string \<Rightarrow> jsval \<Rightarrow> string \<Rightarrow> props" where
  "quote_fields job operator serviceKind quotedAt expiresAt price quoteAsset capacity terms =
     [(''schema'', JStr OPERATOR_SERVICE_QUOTE_SCHEMA), (''product_thesis'', JStr SETTLEMENT_PRODUCT_THESIS), (''job_id'', getp job ''job_id''),
      (''job_hash'', getp job ''job_hash''), (''tenant_id'', getp job ''tenant_id''), (''operator_id'', JStr operator), (''service_kind'', JStr serviceKind),
      (''quoted_at'', quotedAt), (''expires_at'', expiresAt), (''price'', JObj [(''amount'', JNum price), (''asset'', JStr quoteAsset)]),
      (''capacity_ref'', capacity), (''terms_ref'', JStr terms),
      (''accountability_boundary'', JObj [(''service_receipt_required'', JBool True), (''raw_memory_access_required'', JBool False),
         (''operator_controls_hot_path'', JBool False), (''token_profit_claim'', JBool False)])]"

text \<open>The checks on a capacity profile, and the fields it adds; \<open>null\<close> stands for no profile.\<close>

definition profile_part :: "jsval \<Rightarrow> string \<Rightarrow> string \<Rightarrow> string \<Rightarrow> props res" where
  "profile_part profile serviceKind operator quoteAsset =
     (if profile = JNull then Inr []
      else if \<not> settlement_isPlainObject profile \<or> getp profile ''schema'' \<noteq> JStr CONSUMER_GPU_CAPACITY_PROFILE_SCHEMA
        then Inl (TypeError ''capacity_profile must be an Enigma consumer GPU capacity profile'')
      else if serviceKind \<noteq> ''memory_optimizer'' then Inl (TypeError ''capacity_profile quotes must use service_kind memory_optimizer'')
      else if getp profile ''operator_id'' \<noteq> JStr operator then Inl (TypeError ''capacity_profile operator must match quote operator'')
      else ebind (getE (getp profile ''price_per_million_context_tokens'') ''asset'') (\<lambda>a.
           if a \<noteq> JStr quoteAsset then Inl (TypeError ''capacity_profile asset must match quote asset'')
           else Inr [(''capacity_profile_hash'', getp profile ''capacity_profile_hash''), (''consumer_gpu_boundary'', getp profile ''service_boundary'')]))"

text \<open>\<open>a > b\<close> where \<open>b\<close> may be a symbol.\<close>

definition exceeds :: "node \<Rightarrow> jsval \<Rightarrow> jsval \<Rightarrow> bool res" where
  "exceeds N a b =
     (if a = JSym \<or> b = JSym then Inl (TypeError ''Cannot convert a Symbol value to a number'') else Inr (js_gt N a b))"

text \<open>\<open>v ?? e\<close> where evaluating \<open>e\<close> may throw.\<close>

definition value_or :: "jsval \<Rightarrow> jsval res \<Rightarrow> jsval res" where
  "value_or v e = (if nullish v then e else Inr v)"

definition createOperatorServiceQuote :: "node \<Rightarrow> jsval \<Rightarrow> jsval res" where
  "createOperatorServiceQuote N input =
     (if \<not> settlement_isPlainObject input then Inl (TypeError ''createOperatorServiceQuote requires an options object'')
      else ebind (assertNoSensitivePayload input ''input'') (\<lambda>_.
      let job = getp input ''job''; profile = coals input [''capacity_profile'', ''capacityProfile''] JNull
      in if \<not> settlement_isPlainObject job \<or> getp job ''schema'' \<noteq> JStr PERMISSIONLESS_MEMORY_JOB_SCHEMA
         then Inl (TypeError ''job must be an Enigma permissionless memory job'')
         else ebind (accepted ACCEPTED_SERVICE_KINDS (pick input [''service_kind'', ''serviceKind'']) ''service_kind'') (\<lambda>serviceKind.
         ebind (positiveNumber N (pick input [''price_amount'', ''priceAmount'']) ''price_amount'') (\<lambda>price.
         ebind (value_or (pick input [''asset'', ''payment_asset'', ''paymentAsset'']) (getE (getp job ''max_price'') ''asset'')) (\<lambda>given.
         ebind (asset given ''asset'') (\<lambda>quoteAsset.
         ebind (getE (getp job ''max_price'') ''asset'') (\<lambda>jobAsset.
         if jobAsset \<noteq> JStr quoteAsset then Inl (TypeError ''quote asset must match job max_price asset'')
         else ebind (exceeds N (JNum price) (getp (getp job ''max_price'') ''amount'')) (\<lambda>over.
         if over then Inl (RangeError ''quote price exceeds job max_price'')
         else ebind (settlement_requiredString (pick input [''operator_id'', ''operatorId'']) ''operator_id'') (\<lambda>operator.
         ebind (isoTimestamp N (pick input [''quoted_at'', ''quotedAt'']) ''quoted_at'' JUndef) (\<lambda>quotedAt.
         ebind (isoTimestamp N (pick input [''expires_at'', ''expiresAt'']) ''expires_at'' (getp job ''expires_at'')) (\<lambda>expiresAt.
         ebind (if truthy profile then settlement_requiredString (getp profile ''capacity_ref'') ''capacity_profile.capacity_ref''
                else settlement_requiredString (pick input [''capacity_ref'', ''capacityRef'']) ''capacity_ref'') (\<lambda>capacity.
         ebind (settlement_requiredString (pick input [''terms_ref'', ''termsRef'']) ''terms_ref'') (\<lambda>terms.
         ebind (profile_part profile serviceKind operator quoteAsset) (\<lambda>extra.
         if not_after N expiresAt quotedAt then Inl (RangeError ''quote expires_at must be after quoted_at'')
         else sealed N quoteIdFrom ''quote_id'' ''quote_hash'' ''quote''
                (quote_fields job operator serviceKind quotedAt expiresAt price quoteAsset
                   (if profile = JNull then JStr capacity else getp profile ''capacity_ref'') terms @ extra)))))))))))))))"

section \<open>Settlement receipts\<close>

definition settlement_receipt_fields :: "jsval \<Rightarrow> jsval \<Rightarrow> jsval \<Rightarrow> jsnum \<Rightarrow> jsval \<Rightarrow> string \<Rightarrow> string \<Rightarrow> props" where
  "settlement_receipt_fields job quote completedAt settled settledAsset settlementRef receiptRef =
     [(''schema'', JStr SERVICE_SETTLEMENT_RECEIPT_SCHEMA), (''product_thesis'', JStr SETTLEMENT_PRODUCT_THESIS), (''job_id'', getp job ''job_id''),
      (''job_hash'', getp job ''job_hash''), (''quote_id'', getp quote ''quote_id''), (''quote_hash'', getp quote ''quote_hash''),
      (''tenant_id'', getp job ''tenant_id''), (''operator_id'', getp quote ''operator_id''), (''service_kind'', getp quote ''service_kind''),
      (''completed_at'', completedAt), (''usage_event_hash'', getp job ''usage_event_hash''),
      (''memory_commitment_root'', getp job ''memory_commitment_root''), (''policy_hash'', getp job ''policy_hash''),
      (''settled_price'', JObj [(''amount'', JNum settled), (''asset'', settledAsset)]),
      (''settlement_ref'', JStr settlementRef), (''service_receipt_ref'', JStr receiptRef),
      (''settlement_boundary'', JObj ((''permissionless_access'', JBool True) # no_flags
         [''raw_memory_on_chain'', ''raw_memory_in_receipt'', ''provider_invoice_savings_claim'', ''token_roi_claim'', ''token_profit_claim'',
          ''model_forgetting_claim'', ''provider_deletion_claim'']))]"

definition createServiceSettlementReceipt :: "node \<Rightarrow> jsval \<Rightarrow> jsval res" where
  "createServiceSettlementReceipt N input =
     (if \<not> settlement_isPlainObject input then Inl (TypeError ''createServiceSettlementReceipt requires an options object'')
      else ebind (assertNoSensitivePayload input ''input'') (\<lambda>_.
      let job = getp input ''job''; quote = getp input ''quote''
      in if \<not> settlement_isPlainObject job \<or> getp job ''schema'' \<noteq> JStr PERMISSIONLESS_MEMORY_JOB_SCHEMA
         then Inl (TypeError ''job must be an Enigma permissionless memory job'')
         else if \<not> settlement_isPlainObject quote \<or> getp quote ''schema'' \<noteq> JStr OPERATOR_SERVICE_QUOTE_SCHEMA
         then Inl (TypeError ''quote must be an Enigma operator service quote'')
         else if \<not> js_eq (getp quote ''job_hash'') (getp job ''job_hash'') \<or> \<not> js_eq (getp quote ''job_id'') (getp job ''job_id'')
         then Inl (TypeError ''quote must reference job'')
         else ebind (value_or (pick input [''settled_amount'', ''settledAmount'']) (getE (getp quote ''price'') ''amount'')) (\<lambda>given.
         ebind (nonNegativeNumber N given ''settled_amount'') (\<lambda>settled.
         ebind (getE (getp quote ''price'') ''amount'') (\<lambda>quoted.
         ebind (exceeds N (JNum settled) quoted) (\<lambda>over.
         if over then Inl (RangeError ''settled_amount exceeds quoted price'')
         else ebind (isoTimestamp N (pick input [''completed_at'', ''completedAt'']) ''completed_at'' JUndef) (\<lambda>completedAt.
         ebind (settlement_requiredString (pick input [''settlement_ref'', ''settlementRef'']) ''settlement_ref'') (\<lambda>settlementRef.
         ebind (settlement_requiredString (pick input [''service_receipt_ref'', ''serviceReceiptRef'']) ''service_receipt_ref'') (\<lambda>receiptRef.
         sealed N receiptIdFrom ''settlement_receipt_id'' ''settlement_receipt_hash'' ''receipt''
           (settlement_receipt_fields job quote completedAt settled (getp (getp quote ''price'') ''asset'') settlementRef receiptRef))))))))))"

record settlement_check =
  sc_ok :: bool
  sc_errors :: "string list"

definition settlement_result :: "string list \<Rightarrow> settlement_check" where
  "settlement_result errors = \<lparr>sc_ok = (errors = []), sc_errors = errors\<rparr>"

fun error_text :: "js_error \<Rightarrow> string" where
  "error_text (TypeError s) = s"
| "error_text (RangeError s) = s"
| "error_text (Error s) = s"

definition schema_errors :: "jsval \<Rightarrow> jsval \<Rightarrow> jsval \<Rightarrow> jsval \<Rightarrow> string list" where
  "schema_errors input job quote receipt =
     (case assertNoSensitivePayload input ''verification'' of Inl e \<Rightarrow> [error_text e] | Inr _ \<Rightarrow> []) @
     push_if (\<not> settlement_isPlainObject job \<or> getp job ''schema'' \<noteq> JStr PERMISSIONLESS_MEMORY_JOB_SCHEMA) ''job schema mismatch'' @
     push_if (\<not> settlement_isPlainObject quote \<or> getp quote ''schema'' \<noteq> JStr OPERATOR_SERVICE_QUOTE_SCHEMA) ''quote schema mismatch'' @
     push_if (\<not> settlement_isPlainObject receipt \<or> getp receipt ''schema'' \<noteq> JStr SERVICE_SETTLEMENT_RECEIPT_SCHEMA) ''receipt schema mismatch''"

definition same_fields :: "string list \<Rightarrow> jsval \<Rightarrow> jsval \<Rightarrow> bool" where
  "same_fields fs a b = list_all (\<lambda>f. js_eq (getp a f) (getp b f)) fs"

definition reference_errors :: "jsval \<Rightarrow> jsval \<Rightarrow> jsval \<Rightarrow> string list" where
  "reference_errors job quote receipt =
     push_if (\<not> same_fields [''job_hash'', ''job_id''] receipt job) ''receipt job reference mismatch'' @
     push_if (\<not> same_fields [''quote_hash'', ''quote_id''] receipt quote) ''receipt quote reference mismatch'' @
     push_if (\<not> same_fields [''job_hash'', ''job_id''] quote job) ''quote job reference mismatch'' @
     push_if (\<not> same_fields [''usage_event_hash''] receipt job) ''usage event reference mismatch'' @
     push_if (\<not> same_fields [''memory_commitment_root''] receipt job) ''memory commitment reference mismatch'' @
     push_if (\<not> same_fields [''policy_hash''] receipt job) ''policy hash reference mismatch''"

definition verifyServiceSettlementReceipt :: "node \<Rightarrow> jsval \<Rightarrow> settlement_check res" where
  "verifyServiceSettlementReceipt N options =
     (let input = (if options = JUndef then JObj [] else options)
      in ebind (getE input ''job'') (\<lambda>job.
         let quote = getp input ''quote''; receipt = getp input ''receipt''; errors = schema_errors input job quote receipt;
             boundary = getp receipt ''settlement_boundary''; body = omit [''settlement_receipt_id'', ''settlement_receipt_hash''] receipt
         in if errors \<noteq> [] then Inr (settlement_result errors)
            else ebind (getE (getp receipt ''settled_price'') ''asset'') (\<lambda>settledAsset.
                 ebind (getE (getp quote ''price'') ''asset'') (\<lambda>quotedAsset.
                 ebind (exceeds N (getp (getp receipt ''settled_price'') ''amount'') (getp (getp quote ''price'') ''amount'')) (\<lambda>over.
                 ebind (receiptIdFrom N body) (\<lambda>i.
                 ebind (settlement_digest N body) (\<lambda>h.
                 Inr (settlement_result (reference_errors job quote receipt @
                   push_if (\<not> js_eq settledAsset quotedAsset) ''settlement asset mismatch'' @
                   push_if over ''settlement amount exceeds quote'' @
                   push_if (getp boundary ''raw_memory_on_chain'' \<noteq> JBool False) ''receipt must not put raw memory on-chain'' @
                   push_if (getp boundary ''token_roi_claim'' \<noteq> JBool False) ''receipt must not claim token ROI'' @
                   push_if (getp receipt ''settlement_receipt_id'' \<noteq> JStr i) ''settlement receipt id mismatch'' @
                   push_if (getp receipt ''settlement_receipt_hash'' \<noteq> JStr h) ''settlement receipt hash mismatch'')))))))))"

end
