(* ===== verification/SettlementProofs.thy ===== *)
theory SettlementProofs
  imports Complex_Main Settlement SafeText
begin

text \<open>
  Lemmas on the settlement pipeline: the scan does not depend on where an object stands, what the
  creators return, and the order of numbers by value.
\<close>

section \<open>The scan does not depend on where a value stands\<close>

definition exempt_words :: "string set" where
  "exempt_words = {''claim_boundary['' @ d @ '']'' |d. d \<noteq> [] \<and> list_all ch_digit d} \<union> {''product_thesis''}"

lemma exempt_iff: "exempt_path path \<longleftrightarrow> (\<exists>u w. path = u @ ''.'' @ w \<and> w \<in> exempt_words)"
proof -
  have d: "lang (at_least 1 ch_digit) = {d. d \<noteq> [] \<and> list_all ch_digit d}"
    by (auto simp: at_least_def in_bounds_def pow_cls Suc_le_eq)
  have "lang (rx_seqs [rx_lit ''claim_boundary['', at_least 1 ch_digit, rx_lit '']'']) = {''claim_boundary['' @ d @ '']'' |d. d \<noteq> [] \<and> list_all ch_digit d}"
    unfolding rx_lang d conc_UNIV_single by (auto simp: conc_def simp del: append.simps)
  then have w: "lang (RAlt (rx_seqs [rx_lit ''claim_boundary['', at_least 1 ch_digit, rx_lit '']'']) (rx_lit ''product_thesis'')) = exempt_words"
    by (simp add: exempt_words_def rx_lang)
  have "exempt_path path \<longleftrightarrow> path \<in> conc UNIV (conc {''.''} exempt_words)"
    unfolding exempt_path_def rx_full_iff_lang lang.simps w [unfolded lang.simps] by (simp only: rx_lang)
  then show ?thesis by (auto simp: conc_def)
qed

lemma exempt_no_dot: "w \<in> exempt_words \<Longrightarrow> CHR ''.'' \<notin> set w"
proof -
  have "\<not> ch_digit (CHR ''.'')" by (simp add: ch_digit_iff)
  then show "w \<in> exempt_words \<Longrightarrow> CHR ''.'' \<notin> set w" by (auto simp: exempt_words_def list_all_iff)
qed

lemma exempt_tail: "exempt_path (p @ ''.'' @ k) \<longleftrightarrow> exempt_path (''.'' @ k)"
proof
  assume "exempt_path (p @ ''.'' @ k)"
  then obtain u w where uw: "p @ ''.'' @ k = u @ ''.'' @ w" "w \<in> exempt_words" unfolding exempt_iff by blast
  then have "\<exists>us. u = p @ us \<and> us @ ''.'' @ w = ''.'' @ k"
    using exempt_no_dot [OF uw(2)] by (auto simp: append_eq_append_conv2 Cons_eq_append_conv append_eq_Cons_conv)
  then show "exempt_path (''.'' @ k)" unfolding exempt_iff using uw(2) by metis
next
  assume "exempt_path (''.'' @ k)"
  then show "exempt_path (p @ ''.'' @ k)" unfolding exempt_iff by (metis append.assoc)
qed

text \<open>Two paths with the same tail after a dot.\<close>

definition same_tail :: "string \<Rightarrow> string \<Rightarrow> bool" where
  "same_tail p q \<longleftrightarrow> (\<exists>p' q' t. p = p' @ ''.'' @ t \<and> q = q' @ ''.'' @ t)"

lemma same_tail_exempt: "same_tail p q \<Longrightarrow> exempt_path p \<longleftrightarrow> exempt_path q"
  using exempt_tail by (auto simp: same_tail_def)

lemma same_tail_index: "same_tail p q \<Longrightarrow> same_tail (index_path p i) (index_path q i)"
  unfolding same_tail_def index_path_def by (metis append.assoc)

lemma same_tail_key: "same_tail (key_path p k) (key_path q k)"
  unfolding same_tail_def key_path_def by blast

lemma emap_unit: "emap (\<lambda>_. ()) m = Inr () \<longleftrightarrow> is_ok m"
  by (cases m) (auto simp: is_ok_iff)

lemma scan_tail: "same_tail p q \<Longrightarrow> assertNoSensitivePayload v p = Inr () \<longleftrightarrow> assertNoSensitivePayload v q = Inr ()"
proof (induction v p arbitrary: q rule: assertNoSensitivePayload.induct)
  case (1 s path)
  then show ?case using same_tail_exempt [OF 1] by simp
next
  case (2 xs path)
  have "is_ok (assertNoSensitivePayload x (index_path path i)) \<longleftrightarrow> is_ok (assertNoSensitivePayload x (index_path q i))" if "(i, x) \<in> set (enumerate 0 xs)" for i x
    using 2(1) [OF that refl same_tail_index [OF 2(2)]] by (simp add: is_ok_iff)
  then show ?case unfolding assertNoSensitivePayload.simps emap_unit is_ok_mapE by (auto simp: case_prod_unfold)
next
  case (3 ps path)
  have "is_ok (assertNoSensitivePayload v (key_path path k)) \<longleftrightarrow> is_ok (assertNoSensitivePayload v (key_path q k))"
    if "(k, v) \<in> set ps" "\<not> forbidden_field k" for k v
    using 3(1) [OF that(1) refl that(2) same_tail_key] by (simp add: is_ok_iff)
  then show ?case unfolding assertNoSensitivePayload.simps emap_unit is_ok_mapE by (fastforce simp: case_prod_unfold is_ok_iff)
next
  case (4 c ps path)
  have "is_ok (assertNoSensitivePayload v (key_path path k)) \<longleftrightarrow> is_ok (assertNoSensitivePayload v (key_path q k))"
    if "(k, v) \<in> set ps" "\<not> forbidden_field k" for k v
    using 4(1) [OF that(1) refl that(2) same_tail_key] by (simp add: is_ok_iff)
  then show ?case unfolding assertNoSensitivePayload.simps emap_unit is_ok_mapE by (fastforce simp: case_prod_unfold is_ok_iff)
qed simp_all

lemma scan_object:
  "assertNoSensitivePayload (JObj ps) p = Inr () \<longleftrightarrow> (\<forall>(k, v) \<in> set ps. \<not> forbidden_field k \<and> assertNoSensitivePayload v (key_path q k) = Inr ())"
proof -
  have "assertNoSensitivePayload (JObj ps) p = Inr () \<longleftrightarrow> (\<forall>(k, v) \<in> set ps. \<not> forbidden_field k \<and> assertNoSensitivePayload v (key_path p k) = Inr ())"
    unfolding assertNoSensitivePayload.simps emap_unit is_ok_mapE by (intro ball_cong) (auto simp: is_ok_iff split: if_splits)
  also have "\<dots> \<longleftrightarrow> (\<forall>(k, v) \<in> set ps. \<not> forbidden_field k \<and> assertNoSensitivePayload v (key_path q k) = Inr ())"
    using scan_tail [OF same_tail_key] by fastforce
  finally show ?thesis .
qed

lemma scan_object_path: "assertNoSensitivePayload (JObj ps) p = Inr () \<Longrightarrow> assertNoSensitivePayload (JObj ps) q = Inr ()"
  using scan_object [of ps p q] scan_object [of ps q q] by simp

text \<open>A forbidden field name contains one of the words.\<close>

lemma forbidden_field_word: "forbidden_field k \<Longrightarrow> list_ex (str_includes (toLowerCase k)) forbidden_words"
proof -
  assume "forbidden_field k"
  then have "toLowerCase k \<in> lang FORBIDDEN_KEY_RE" by (simp add: forbidden_field_def rx_full_iff_lang)
  then obtain u w v where "toLowerCase k = u @ w @ v" "w \<in> (\<Union>r \<in> set (map rx_lit forbidden_words). lang r)"
    unfolding FORBIDDEN_KEY_RE_def rx_lang conc_UNIV_single by (auto simp: conc_def)
  then show ?thesis by (auto simp: rx_lang list_ex_iff str_includes_iff)
qed

section \<open>Sealed objects\<close>

lemma sealed_Inr:
  assumes "sealed N idFrom idKey hashKey path body = Inr obj"
  obtains i h where "obj = JObj (body @ [(idKey, JStr i), (hashKey, JStr h)])" "idFrom N (JObj body) = Inr i" "settlement_digest N (JObj body) = Inr h"
    "\<forall>p. assertNoSensitivePayload obj p = Inr ()"
proof -
  from assms obtain i h where "idFrom N (JObj body) = Inr i" "settlement_digest N (JObj body) = Inr h"
    "assertNoSensitivePayload (JObj (body @ [(idKey, JStr i), (hashKey, JStr h)])) path = Inr ()" "obj = JObj (body @ [(idKey, JStr i), (hashKey, JStr h)])"
    by (auto simp: sealed_def Let_def ebind_Inr_iff simp del: assertNoSensitivePayload.simps)
  with scan_object_path show thesis by (intro that) blast+
qed

section \<open>Numbers by value\<close>

definition num_value :: "jsnum \<Rightarrow> real" where
  "num_value n = (case decimal n of Some (m, e) \<Rightarrow> of_int m * 10 powi e | None \<Rightarrow> 0)"

lemma dec_less_value: "dec_less (m, e) (n, f) \<longleftrightarrow> real_of_int m * 10 powi e < real_of_int n * 10 powi f"
proof -
  define low where "low = min e f"
  have e: "(10 :: real) powi e = 10 ^ nat (e - low) * 10 powi low" and f: "(10 :: real) powi f = 10 ^ nat (f - low) * 10 powi low"
    by (simp_all add: low_def power_int_add [symmetric] power_int_of_nat [symmetric] flip: power_int_of_nat)
  have pos: "(0 :: real) < 10 powi low" by simp
  have "dec_less (m, e) (n, f) \<longleftrightarrow> real_of_int (m * 10 ^ nat (e - low)) < real_of_int (n * 10 ^ nat (f - low))"
    unfolding of_int_less_iff by (simp add: dec_less_def low_def Let_def)
  also have "\<dots> \<longleftrightarrow> real_of_int (m * 10 ^ nat (e - low)) * 10 powi low < real_of_int (n * 10 ^ nat (f - low)) * 10 powi low"
    using pos by simp
  also have "\<dots> \<longleftrightarrow> real_of_int m * 10 powi e < real_of_int n * 10 powi f" unfolding e f by (simp add: mult.assoc)
  finally show ?thesis .
qed

lemma num_less_value: "is_finite m \<Longrightarrow> is_finite n \<Longrightarrow> num_less m n \<longleftrightarrow> num_value m < num_value n"
  by (cases m; cases n) (simp_all add: num_less_def num_value_def dec_less_value is_finite_def)

section \<open>What the creators return\<close>

lemma job_Inr:
  assumes "createPermissionlessMemoryJob N input = Inr job"
  obtains tenant jobType memory policy usage start till limit paymentAsset i h where
    "job = JObj (job_fields tenant jobType memory policy usage start till limit paymentAsset @ [(''job_id'', JStr i), (''job_hash'', JStr h)])"
    "is_finite limit" "num_less (NInt 0) limit" "\<forall>p. assertNoSensitivePayload job p = Inr ()"
proof -
  from assms obtain tenant jobType memory policy usage start till limit paymentAsset v where
    p: "positiveNumber N v ''max_price_amount'' = Inr limit"
    and s: "sealed N jobIdFrom ''job_id'' ''job_hash'' ''job'' (job_fields tenant jobType memory policy usage start till limit paymentAsset) = Inr job"
    unfolding createPermissionlessMemoryJob_def ebind_Inr_iff if_Inl_Inr_iff by blast
  from p have "is_finite limit" "num_less (NInt 0) limit" by (auto simp: positiveNumber_def ebind_Inr_iff split: if_splits)
  with sealed_Inr [OF s] that show thesis by metis
qed

lemma quote_Inr:
  assumes "createOperatorServiceQuote N input = Inr quote"
  obtains operator svc start till price quoteAsset capacity terms extra i h where
    "quote = JObj (quote_fields (getp input ''job'') operator svc start till price quoteAsset capacity terms @ extra @ [(''quote_id'', JStr i), (''quote_hash'', JStr h)])"
    "fst ` set extra \<subseteq> {''capacity_profile_hash'', ''consumer_gpu_boundary''}"
    "is_finite price" "num_less (NInt 0) price" "getp (getp (getp input ''job'') ''max_price'') ''asset'' = JStr quoteAsset"
    "exceeds N (JNum price) (getp (getp (getp input ''job'') ''max_price'') ''amount'') = Inr False" "\<forall>p. assertNoSensitivePayload quote p = Inr ()"
proof -
  from assms obtain operator svc start till price quoteAsset capacity terms extra v profile jobAsset over where
    p: "positiveNumber N v ''price_amount'' = Inr price" and a: "getE (getp (getp input ''job'') ''max_price'') ''asset'' = Inr jobAsset" "jobAsset = JStr quoteAsset"
    and o: "exceeds N (JNum price) (getp (getp (getp input ''job'') ''max_price'') ''amount'') = Inr over" "\<not> over"
    and e: "profile_part profile svc operator quoteAsset = Inr extra"
    and s: "sealed N quoteIdFrom ''quote_id'' ''quote_hash'' ''quote'' (quote_fields (getp input ''job'') operator svc start till price quoteAsset capacity terms @ extra) = Inr quote"
    unfolding createOperatorServiceQuote_def Let_def ebind_Inr_iff if_Inl_Inr_iff not_not by blast
  from p have "is_finite price" "num_less (NInt 0) price" by (auto simp: positiveNumber_def ebind_Inr_iff split: if_splits)
  moreover have "fst ` set extra \<subseteq> {''capacity_profile_hash'', ''consumer_gpu_boundary''}"
    using e by (auto simp: profile_part_def ebind_Inr_iff split: if_splits)
  moreover have "getp (getp (getp input ''job'') ''max_price'') ''asset'' = JStr quoteAsset" using a by (auto simp: getE_def split: if_splits)
  ultimately show thesis using o sealed_Inr [OF s] that unfolding append_assoc by metis
qed

lemma settlement_receipt_Inr:
  assumes "createServiceSettlementReceipt N input = Inr receipt"
  obtains start settled sref rref i h where
    "receipt = JObj (settlement_receipt_fields (getp input ''job'') (getp input ''quote'') start settled (getp (getp (getp input ''quote'') ''price'') ''asset'') sref rref
       @ [(''settlement_receipt_id'', JStr i), (''settlement_receipt_hash'', JStr h)])"
    "receiptIdFrom N (JObj (settlement_receipt_fields (getp input ''job'') (getp input ''quote'') start settled (getp (getp (getp input ''quote'') ''price'') ''asset'') sref rref)) = Inr i"
    "settlement_digest N (JObj (settlement_receipt_fields (getp input ''job'') (getp input ''quote'') start settled (getp (getp (getp input ''quote'') ''price'') ''asset'') sref rref)) = Inr h"
    "is_finite settled" "\<not> num_less settled (NInt 0)" "exceeds N (JNum settled) (getp (getp (getp input ''quote'') ''price'') ''amount'') = Inr False"
    "\<forall>p. assertNoSensitivePayload receipt p = Inr ()"
proof -
  from assms obtain start settled sref rref v quoted over where
    p: "nonNegativeNumber N v ''settled_amount'' = Inr settled" and a: "getE (getp (getp input ''quote'') ''price'') ''amount'' = Inr quoted"
    and o: "exceeds N (JNum settled) quoted = Inr over" "\<not> over"
    and s: "sealed N receiptIdFrom ''settlement_receipt_id'' ''settlement_receipt_hash'' ''receipt''
      (settlement_receipt_fields (getp input ''job'') (getp input ''quote'') start settled (getp (getp (getp input ''quote'') ''price'') ''asset'') sref rref) = Inr receipt"
    unfolding createServiceSettlementReceipt_def Let_def ebind_Inr_iff if_Inl_Inr_iff by blast
  from p have "is_finite settled" "\<not> num_less settled (NInt 0)" by (auto simp: nonNegativeNumber_def ebind_Inr_iff split: if_splits)
  moreover have "quoted = getp (getp (getp input ''quote'') ''price'') ''amount''" using a by (auto simp: getE_def split: if_splits)
  ultimately show thesis using o sealed_Inr [OF s] that by metis
qed

section \<open>Fields\<close>

lemma job_get:
  assumes "job = JObj (job_fields tenant jobType memory policy usage start till limit paymentAsset @ [(''job_id'', JStr i), (''job_hash'', JStr h)])"
  shows "settlement_isPlainObject job" "getp job ''schema'' = JStr PERMISSIONLESS_MEMORY_JOB_SCHEMA" "getp job ''job_id'' = JStr i" "getp job ''job_hash'' = JStr h"
    "getp job ''usage_event_hash'' = JStr usage" "getp job ''memory_commitment_root'' = JStr memory" "getp job ''policy_hash'' = JStr policy"
    "getp (getp job ''max_price'') ''amount'' = JNum limit" "getp (getp job ''max_price'') ''asset'' = JStr paymentAsset"
  unfolding assms by (simp_all add: settlement_isPlainObject_def job_fields_def obj_get_Cons)

lemma quote_get:
  assumes "quote = JObj (quote_fields job operator svc start till price quoteAsset capacity terms @ extra @ [(''quote_id'', JStr i), (''quote_hash'', JStr h)])"
    and "fst ` set extra \<subseteq> {''capacity_profile_hash'', ''consumer_gpu_boundary''}"
  shows "settlement_isPlainObject quote" "getp quote ''schema'' = JStr OPERATOR_SERVICE_QUOTE_SCHEMA" "getp quote ''quote_id'' = JStr i" "getp quote ''quote_hash'' = JStr h"
    "getp quote ''job_id'' = getp job ''job_id''" "getp quote ''job_hash'' = getp job ''job_hash''"
    "getp quote ''price'' = JObj [(''amount'', JNum price), (''asset'', JStr quoteAsset)]"
proof -
  have "map_of extra ''quote_id'' = None" "map_of extra ''quote_hash'' = None" using assms(2) by (auto simp: map_of_eq_None_iff)
  then have "obj_get (extra @ [(''quote_id'', JStr i), (''quote_hash'', JStr h)]) ''quote_id'' = JStr i"
    "obj_get (extra @ [(''quote_id'', JStr i), (''quote_hash'', JStr h)]) ''quote_hash'' = JStr h"
    by (simp_all add: obj_get_def map_add_def)
  then show "settlement_isPlainObject quote" "getp quote ''schema'' = JStr OPERATOR_SERVICE_QUOTE_SCHEMA" "getp quote ''quote_id'' = JStr i" "getp quote ''quote_hash'' = JStr h"
    "getp quote ''job_id'' = getp job ''job_id''" "getp quote ''job_hash'' = getp job ''job_hash''"
    "getp quote ''price'' = JObj [(''amount'', JNum price), (''asset'', JStr quoteAsset)]"
    unfolding assms(1) by (simp_all add: settlement_isPlainObject_def quote_fields_def obj_get_Cons)
qed

lemma settlement_receipt_get:
  assumes "receipt = JObj (settlement_receipt_fields job quote start settled settledAsset sref rref @ [(''settlement_receipt_id'', JStr i), (''settlement_receipt_hash'', JStr h)])"
  shows "settlement_isPlainObject receipt" "getp receipt ''schema'' = JStr SERVICE_SETTLEMENT_RECEIPT_SCHEMA"
    "getp receipt ''settlement_receipt_id'' = JStr i" "getp receipt ''settlement_receipt_hash'' = JStr h"
    "getp receipt ''job_id'' = getp job ''job_id''" "getp receipt ''job_hash'' = getp job ''job_hash''"
    "getp receipt ''quote_id'' = getp quote ''quote_id''" "getp receipt ''quote_hash'' = getp quote ''quote_hash''"
    "getp receipt ''usage_event_hash'' = getp job ''usage_event_hash''" "getp receipt ''memory_commitment_root'' = getp job ''memory_commitment_root''"
    "getp receipt ''policy_hash'' = getp job ''policy_hash''"
    "getp receipt ''settled_price'' = JObj [(''amount'', JNum settled), (''asset'', settledAsset)]"
    "getp (getp receipt ''settlement_boundary'') ''raw_memory_on_chain'' = JBool False" "getp (getp receipt ''settlement_boundary'') ''token_roi_claim'' = JBool False"
    "omit [''settlement_receipt_id'', ''settlement_receipt_hash''] receipt = JObj (settlement_receipt_fields job quote start settled settledAsset sref rref)"
proof -
  show "omit [''settlement_receipt_id'', ''settlement_receipt_hash''] receipt = JObj (settlement_receipt_fields job quote start settled settledAsset sref rref)"
  proof -
    have "obj_puts (props_of receipt) [] = props_of receipt"
      unfolding assms by (subst obj_puts_fresh) (simp_all add: settlement_receipt_fields_def not_index ch_lower_iff)
    then show ?thesis unfolding omit_def by (simp add: assms settlement_receipt_fields_def)
  qed
qed (simp_all add: assms settlement_isPlainObject_def settlement_receipt_fields_def obj_get_Cons no_flags_def)

end
