(* ===== verification/Sample_Settlement.thy ===== *)
theory Sample_Settlement
  imports SettlementProofs
begin

text \<open>
  A concrete run of the settlement pipeline, for the witnesses: a job, a quote for it and a receipt for
  both, created with the sample runtime.
\<close>

section \<open>Texts that the scan accepts\<close>

definition secret_marks :: "string list" where
  "secret_marks = [''bearer'', ''basic'', ''-----begin '', ''://'', ''raw memory'', ''private prompt'', ''full transcript'', ''decrypted capsule'', ''sk-'', ''akia'']"

definition has_mark :: "string list \<Rightarrow> rx \<Rightarrow> bool" where
  "has_mark ms r \<longleftrightarrow> (\<forall>s \<in> lang r. list_ex (str_includes s) ms)"

lemma mark_middle: "list_ex (str_includes v) ms \<Longrightarrow> list_ex (str_includes (u @ v @ w)) ms"
  unfolding list_ex_iff using str_includes_middle by blast

lemma mark_hd: "has_mark ms r \<Longrightarrow> has_mark ms (rx_seqs (r # rs))"
  using mark_middle [of _ ms "[]"] by (auto simp: has_mark_def rx_lang conc_def)

lemma mark_tl: "has_mark ms (rx_seqs rs) \<Longrightarrow> has_mark ms (rx_seqs (r # rs))"
  using mark_middle [of _ ms _ "[]"] by (auto simp: has_mark_def rx_lang conc_def)

lemma mark_alts: "list_all (has_mark ms) rs \<Longrightarrow> has_mark ms (rx_alts rs)"
  by (auto simp: has_mark_def rx_lang list_all_iff)

lemma mark_lit: "m \<in> set ms \<Longrightarrow> has_mark ms (rx_lit m)"
proof -
  have "str_includes m m" unfolding str_includes_iff by (metis append_Nil append_Nil2)
  then show "m \<in> set ms \<Longrightarrow> has_mark ms (rx_lit m)" by (auto simp: has_mark_def rx_lang list_ex_iff)
qed

lemma mark_secret: "has_mark secret_marks settlement_SECRET_VALUE_RE"
  unfolding settlement_SECRET_VALUE_RE_def
  by (rule mark_alts, simp only: list.pred_inject, intro conjI TrueI;
      (rule mark_lit mark_hd [OF mark_lit] mark_tl [OF mark_tl [OF mark_hd [OF mark_lit]]], simp add: secret_marks_def)?)

lemma secret_text_mark: "secret_text s \<Longrightarrow> list_ex (str_includes (toLowerCase s)) secret_marks"
proof -
  assume "secret_text s"
  then obtain u v w where s: "toLowerCase s = u @ v @ w" "v \<in> lang settlement_SECRET_VALUE_RE" by (auto simp: secret_text_def rx_search_iff)
  with mark_secret mark_middle show ?thesis by (auto simp: has_mark_def)
qed

text \<open>Each mark has one of five characters; digests and identifiers have none of them.\<close>

lemma unmarked: "list_all (\<lambda>c. plain_char c \<and> c \<notin> set ''ri-k'') s \<Longrightarrow> \<not> secret_text s"
proof
  assume a: "list_all (\<lambda>c. plain_char c \<and> c \<notin> set ''ri-k'') s" and "secret_text s"
  moreover from a have "map lower_char s = s" by (auto simp: list_all_iff plain_char map_idI)
  ultimately have "list_ex (str_includes s) secret_marks" using secret_text_mark by (metis toLowerCase_def)
  then obtain m where m: "m \<in> set secret_marks" "set m \<subseteq> set s" unfolding list_ex_iff str_includes_iff by fastforce
  have "\<not> plain_char (CHR ''/'')" by (simp add: plain_char_def ch_lower_iff ch_digit_iff)
  then have "set s \<inter> set ''ri-k/'' = {}" using a by (auto simp: list_all_iff)
  moreover have "set m \<inter> set ''ri-k/'' \<noteq> {}" using m(1) unfolding secret_marks_def by (simp, elim disjE; simp)
  ultimately show False using m(2) by blast
qed

lemma plain_hex: "ch_hex c \<Longrightarrow> plain_char c \<and> c \<notin> set ''ri-k''"
  by (auto simp: ch_hex_def plain_char_def ch_range_def ch_lower_iff ch_digit_iff less_eq_char_def)

lemma digest_clean: "hash_hex N \<Longrightarrow> \<not> secret_text (SHA256_PREFIX @ sha256Str N s)"
proof (rule unmarked)
  assume "hash_hex N"
  then have "list_all ch_hex (sha256Str N s)" by (simp add: hash_hexD)
  then show "list_all (\<lambda>c. plain_char c \<and> c \<notin> set ''ri-k'') (SHA256_PREFIX @ sha256Str N s)"
    using plain_hex by (auto simp: list_all_iff SHA256_PREFIX_def plain_char_def ch_lower_iff ch_digit_iff)
qed

lemma id_clean:
  assumes "hash_hex N" "list_all (\<lambda>c. plain_char c \<and> c \<notin> set ''ri-k'') tag"
  shows "\<not> secret_text (tag @ take 32 (sha256Str N s))"
proof (rule unmarked)
  have "list_all ch_hex (sha256Str N s)" using assms(1) by (simp add: hash_hexD)
  then have "list_all ch_hex (take 32 (sha256Str N s))" by (auto simp: list_all_iff dest: in_set_takeD)
  then show "list_all (\<lambda>c. plain_char c \<and> c \<notin> set ''ri-k'') (tag @ take 32 (sha256Str N s))"
    using plain_hex assms(2) by (auto simp: list_all_iff)
qed

section \<open>Digests exist\<close>

fun no_bigint :: "jsval \<Rightarrow> bool" where
  "no_bigint (JBig i) = False"
| "no_bigint (JArr xs) = (\<forall>x \<in> set xs. no_bigint x)"
| "no_bigint (JObj ps) = (\<forall>p \<in> set ps. no_bigint (snd p))"
| "no_bigint (JInst c ps) = (\<forall>p \<in> set ps. no_bigint (snd p))"
| "no_bigint _ = True"

lemma json_text_ok: "no_bigint v \<Longrightarrow> is_ok (json_text v)"
  by (induction v rule: json_text.induct) (fastforce simp: is_ok_mapE)+

lemma puts_no_big: "(\<forall>p \<in> set ps. no_bigint (snd p)) \<Longrightarrow> (\<forall>p \<in> set (obj_puts ps []). no_bigint (snd p))"
  using set_obj_puts [of ps "[]"] by auto

lemma canonicalize_no_big: "no_bigint v \<Longrightarrow> no_bigint (settlement_canonicalize v)"
proof (induction v rule: settlement_canonicalize.induct)
  case (2 ps)
  then show ?case using puts_no_big [of "map (\<lambda>(k, v). (k, settlement_canonicalize v)) (sort_key fst ps)"] by fastforce
next
  case (3 c ps)
  then show ?case using puts_no_big [of "map (\<lambda>(k, v). (k, settlement_canonicalize v)) (sort_key fst ps)"] by fastforce
next
  case (4 s)
  have "no_bigint (snd p)" if "p \<in> set (index_props i (map (\<lambda>c. JInt (int (of_char c))) s))" for p i
    using that by (induction s arbitrary: i) auto
  then show ?case using puts_no_big [of "sort_key fst (props_of (JBytes s))"] by simp
qed auto

lemma digest_ok:
  assumes "no_bigint (JObj ps)"
  obtains t where "settlement_digest N (JObj ps) = Inr (SHA256_PREFIX @ sha256Str N t)"
proof -
  have "is_ok (json_text (settlement_canonicalize (JObj ps)))" using json_text_ok canonicalize_no_big assms by blast
  then obtain t where "json_text (settlement_canonicalize (JObj ps)) = Inr (Some t)" by (auto simp: is_ok_iff emap_Inr_iff)
  then show thesis using that by (simp add: settlement_digest_def)
qed

text \<open>A body without findings is sealed.\<close>

lemma sealed_ok:
  assumes "hash_hex N" "no_bigint (JObj body)" "assertNoSensitivePayload (JObj body) path = Inr ()" "\<not> forbidden_field idKey" "\<not> forbidden_field hashKey"
    and "list_all (\<lambda>c. plain_char c \<and> c \<notin> set ''ri-k'') tag"
  shows "\<exists>obj. sealed N (id_from tag) idKey hashKey path body = Inr obj"
proof -
  obtain t where t: "settlement_digest N (JObj body) = Inr (SHA256_PREFIX @ sha256Str N t)" using assms(2) by (rule digest_ok)
  then have i: "id_from tag N (JObj body) = Inr (tag @ take 32 (sha256Str N t))" by (simp add: id_from_def)
  have "assertNoSensitivePayload (JObj (body @ [(idKey, JStr (tag @ take 32 (sha256Str N t))), (hashKey, JStr (SHA256_PREFIX @ sha256Str N t))])) path = Inr ()"
    using assms(3-5) digest_clean [OF assms(1)] id_clean [OF assms(1,6)] unfolding scan_object [where q = path] by simp
  with t i show ?thesis by (simp add: sealed_def Let_def del: assertNoSensitivePayload.simps)
qed

section \<open>The sample run\<close>

definition sample_root :: string where
  "sample_root = SHA256_PREFIX @ replicate 64 (CHR ''0'')"

definition sample_job_input :: jsval where
  "sample_job_input = JObj
     [(''job_type'', JStr ''relay.store''), (''max_price_amount'', JInt 10), (''payment_asset'', JStr ''USDC''), (''tenant_id'', JStr ''tenant''),
      (''memory_commitment_root'', JStr sample_root), (''policy_hash'', JStr sample_root), (''usage_event_hash'', JStr sample_root)]"

lemma sample_root_clean: "\<not> secret_text sample_root" "js_trim sample_root = sample_root" "sample_root \<noteq> []" "rx_full ROOT_RE sample_root"
proof -
  have h: "ch_hex (CHR ''0'')" by code_simp
  show "\<not> secret_text sample_root"
    by (rule unmarked) (simp add: sample_root_def SHA256_PREFIX_def list_all_iff plain_char_def ch_lower_iff ch_digit_iff)
  show "js_trim sample_root = sample_root" by (simp add: js_trim_def sample_root_def SHA256_PREFIX_def ch_space_def numeral_eq_Suc)
  show "sample_root \<noteq> []" by (simp add: sample_root_def SHA256_PREFIX_def)
  show "rx_full ROOT_RE sample_root" unfolding ROOT_RE_iff sample_root_def using h by (auto simp: list_all_iff)
qed

lemmas text_eval = toLowerCase_def lower_char_def str_includes_rec char_of_eq_iff

lemma sample_words:
  "\<not> secret_text ''relay.store''" "\<not> secret_text ''USDC''" "\<not> secret_text ''tenant''" "\<not> secret_text ''operator''" "\<not> secret_text ''relay''" "\<not> secret_text ''ref''"
  "\<not> secret_text PERMISSIONLESS_MEMORY_JOB_SCHEMA" "\<not> secret_text OPERATOR_SERVICE_QUOTE_SCHEMA" "\<not> secret_text SERVICE_SETTLEMENT_RECEIPT_SCHEMA"
  "\<not> secret_text EPOCH" "\<not> secret_text ''2100-01-01T00:00:00.000Z''"
  by (rule notI, drule secret_text_mark, simp add: secret_marks_def text_eval PERMISSIONLESS_MEMORY_JOB_SCHEMA_def OPERATOR_SERVICE_QUOTE_SCHEMA_def
     SERVICE_SETTLEMENT_RECEIPT_SCHEMA_def EPOCH_def)+

lemma sample_keys:
  "list_all (\<lambda>k. \<not> forbidden_field k) (map fst (job_fields a b c d e f g h i) @ [''job_id'', ''job_hash''])"
  "list_all (\<lambda>k. \<not> forbidden_field k) (map fst (quote_fields j a b f g h i w d) @ [''quote_id'', ''quote_hash'', ''job'', ''quote''])"
  "list_all (\<lambda>k. \<not> forbidden_field k) (map fst (settlement_receipt_fields j q f h w a b) @ [''settlement_receipt_id'', ''settlement_receipt_hash''])"
  unfolding job_fields_def quote_fields_def settlement_receipt_fields_def list_all_iff
  by (auto dest!: forbidden_field_word simp: forbidden_words_def text_eval)

lemma sample_inner_keys:
  "\<forall>k \<in> {''amount'', ''asset'', ''permissionless_submission'', ''centralized_or_byoc_hot_path'', ''token_roi_claim'', ''provider_invoice_savings_claim'',
     ''service_receipt_required'', ''operator_controls_hot_path'', ''token_profit_claim'', ''permissionless_access'', ''model_forgetting_claim'', ''provider_deletion_claim'',
     ''max_price_amount'', ''payment_asset'', ''price_amount'', ''settlement_ref'', ''service_receipt_ref''}. \<not> forbidden_field k"
  "\<forall>k \<in> set SAFE_FIELD_NAMES. \<not> forbidden_field k"
proof -
  show "\<forall>k \<in> set SAFE_FIELD_NAMES. \<not> forbidden_field k" by (simp add: forbidden_field_def)
qed (auto dest!: forbidden_field_word simp: forbidden_words_def text_eval)

lemma settle_time_texts: "EPOCH = pad4 1970 @ iso_tail 1 1 0 0 0 0" "''2100-01-01T00:00:00.000Z'' = pad4 2100 @ iso_tail 1 1 0 0 0 0"
  by (simp_all add: pad4_def pad3_def pad2_def iso_tail_def EPOCH_def char_eq_iff)

lemma settle_times: "Date_parse N EPOCH = Some 0" "Date_parse N ''2100-01-01T00:00:00.000Z'' = Some 4102444800000"
  unfolding settle_time_texts using Date_parse_text [of 1970 1 1 0 0 0 0 N] Date_parse_text [of 2100 1 1 0 0 0 0 N]
  by (simp_all add: MakeDay_def DayFromYear_def month_start_def)

lemma sample_start: "isoTimestamp N JUndef f JUndef = Inr (JStr EPOCH)" "isoTimestamp N JUndef f FAR_FUTURE = Inr FAR_FUTURE"
  "\<not> not_after N FAR_FUTURE (JStr EPOCH)"
  by (simp_all add: isoTimestamp_def optionalString_def FAR_FUTURE_def not_after_def settle_times)

lemma sample_strings:
  "settlement_requiredString (JStr ''tenant'') f = Inr ''tenant''" "settlement_requiredString (JStr ''operator'') f = Inr ''operator''" "settlement_requiredString (JStr ''ref'') f = Inr ''ref''"
  "accepted ACCEPTED_JOB_TYPES (JStr ''relay.store'') f = Inr ''relay.store''" "accepted ACCEPTED_SERVICE_KINDS (JStr ''relay'') f = Inr ''relay''"
  "asset (JStr ''USDC'') f = Inr ''USDC''" "settlement_root (JStr sample_root) f = Inr sample_root"
  by (simp_all add: settlement_requiredString_def accepted_def asset_def settlement_root_def js_trim_def ch_space_def ACCEPTED_JOB_TYPES_def ACCEPTED_SERVICE_KINDS_def
      ACCEPTED_ASSETS_def ascii_upper_def ch_lower_iff sample_root_clean(2-4) [unfolded js_trim_def])

lemma sample_price: "0 < i \<Longrightarrow> positiveNumber N (JInt i) f = Inr (NInt i)"
  by (simp add: positiveNumber_def js_Number_def js_ToNumber_def is_finite_def)

definition sample_job_fields :: props where
  "sample_job_fields = job_fields ''tenant'' ''relay.store'' sample_root sample_root sample_root (JStr EPOCH) FAR_FUTURE (NInt 10) ''USDC''"

lemma thesis_exempt: "exempt_path (key_path p ''product_thesis'')"
  unfolding exempt_iff key_path_def exempt_words_def by blast

lemma scan_strings: "\<not> secret_text s \<Longrightarrow> assertNoSensitivePayload (JStr s) p = Inr ()"
  by simp

lemma sample_job_clean: "assertNoSensitivePayload (JObj sample_job_fields) p = Inr ()"
proof -
  have k: "\<forall>q \<in> set sample_job_fields. \<not> forbidden_field (fst q)" using sample_keys(1) unfolding sample_job_fields_def by (auto simp: list_all_iff)
  have "\<forall>(k, v) \<in> set sample_job_fields. assertNoSensitivePayload v (key_path p k) = Inr ()"
    unfolding sample_job_fields_def job_fields_def no_flags_def FAR_FUTURE_def using sample_inner_keys
    by (simp add: sample_words sample_root_clean thesis_exempt SAFE_FIELD_NAMES_def)
  with k show ?thesis unfolding scan_object [where q = p] by fastforce
qed

lemma sample_job: "createPermissionlessMemoryJob sample sample_job_input = sealed sample jobIdFrom ''job_id'' ''job_hash'' ''job'' sample_job_fields"
  "\<exists>job. sealed sample jobIdFrom ''job_id'' ''job_hash'' ''job'' sample_job_fields = Inr job"
proof -
  have "assertNoSensitivePayload sample_job_input ''input'' = Inr ()"
    unfolding sample_job_input_def using sample_inner_keys(1) sample_keys(1) unfolding job_fields_def
    by (simp add: sample_words sample_root_clean)
  then show "createPermissionlessMemoryJob sample sample_job_input = sealed sample jobIdFrom ''job_id'' ''job_hash'' ''job'' sample_job_fields"
    by (simp add: createPermissionlessMemoryJob_def sample_job_input_def settlement_isPlainObject_def obj_get_Cons coal_def sample_strings sample_price
       sample_start sample_job_fields_def del: assertNoSensitivePayload.simps)
  show "\<exists>job. sealed sample jobIdFrom ''job_id'' ''job_hash'' ''job'' sample_job_fields = Inr job"
    unfolding jobIdFrom_def using sample_keys(1)
    by (intro sealed_ok [OF hash_hex_sample _ sample_job_clean])
      (simp_all add: sample_job_fields_def job_fields_def no_flags_def FAR_FUTURE_def plain_char_def ch_lower_iff)
qed

definition sample_quote_input :: "jsval \<Rightarrow> jsval" where
  "sample_quote_input job = JObj
     [(''job'', job), (''service_kind'', JStr ''relay''), (''price_amount'', JInt 7), (''operator_id'', JStr ''operator''), (''capacity_ref'', JStr ''ref''),
      (''terms_ref'', JStr ''ref'')]"

definition sample_quote_fields :: "jsval \<Rightarrow> props" where
  "sample_quote_fields job = quote_fields job ''operator'' ''relay'' (JStr EPOCH) FAR_FUTURE (NInt 7) ''USDC'' (JStr ''ref'') ''ref''"

text \<open>A job as the sample run creates it.\<close>

definition sample_job_of :: "jsval \<Rightarrow> bool" where
  "sample_job_of job \<longleftrightarrow> (\<exists>i h. job = JObj (sample_job_fields @ [(''job_id'', JStr i), (''job_hash'', JStr h)]) \<and> \<not> secret_text i \<and> \<not> secret_text h)
     \<and> (\<forall>p. assertNoSensitivePayload job p = Inr ())"

lemma sample_job_get:
  assumes "sample_job_of job"
  shows "settlement_isPlainObject job" "getp job ''schema'' = JStr PERMISSIONLESS_MEMORY_JOB_SCHEMA" "getp job ''max_price'' = JObj [(''amount'', JInt 10), (''asset'', JStr ''USDC'')]"
    "getp job ''expires_at'' = FAR_FUTURE" "getp job ''tenant_id'' = JStr ''tenant''" "getp job ''usage_event_hash'' = JStr sample_root"
    "getp job ''memory_commitment_root'' = JStr sample_root" "getp job ''policy_hash'' = JStr sample_root"
    "\<exists>i. getp job ''job_id'' = JStr i \<and> \<not> secret_text i" "\<exists>h. getp job ''job_hash'' = JStr h \<and> \<not> secret_text h"
  using assms unfolding sample_job_of_def sample_job_fields_def job_fields_def by (auto simp: settlement_isPlainObject_def obj_get_Cons)

lemma sample_quote_clean:
  assumes "sample_job_of job"
  shows "assertNoSensitivePayload (JObj (sample_quote_fields job)) p = Inr ()"
proof -
  obtain i h where ih: "getp job ''job_id'' = JStr i" "\<not> secret_text i" "getp job ''job_hash'' = JStr h" "\<not> secret_text h"
    using sample_job_get [OF assms] by blast
  have k: "\<forall>q \<in> set (sample_quote_fields job). \<not> forbidden_field (fst q)" using sample_keys(2) unfolding sample_quote_fields_def by (auto simp: list_all_iff)
  have "\<forall>(k, v) \<in> set (sample_quote_fields job). assertNoSensitivePayload v (key_path p k) = Inr ()"
    unfolding sample_quote_fields_def quote_fields_def FAR_FUTURE_def ih sample_job_get [OF assms] using sample_inner_keys ih
    by (simp add: sample_words thesis_exempt SAFE_FIELD_NAMES_def)
  with k show ?thesis unfolding scan_object [where q = p] by fastforce
qed

lemma sample_quote:
  assumes "sample_job_of job"
  shows "createOperatorServiceQuote sample (sample_quote_input job) = sealed sample quoteIdFrom ''quote_id'' ''quote_hash'' ''quote'' (sample_quote_fields job)"
    "\<exists>quote. sealed sample quoteIdFrom ''quote_id'' ''quote_hash'' ''quote'' (sample_quote_fields job) = Inr quote"
proof -
  have job: "assertNoSensitivePayload job p = Inr ()" for p using assms by (simp add: sample_job_of_def)
  have "assertNoSensitivePayload (sample_quote_input job) ''input'' = Inr ()"
    unfolding sample_quote_input_def scan_object [where q = "''x''"] using sample_inner_keys(1) sample_keys(2) unfolding quote_fields_def
    by (simp add: sample_words job)
  then show "createOperatorServiceQuote sample (sample_quote_input job) = sealed sample quoteIdFrom ''quote_id'' ''quote_hash'' ''quote'' (sample_quote_fields job)"
    using sample_start(2) [unfolded FAR_FUTURE_def]
    by (simp add: createOperatorServiceQuote_def sample_quote_input_def settlement_isPlainObject_def obj_get_Cons coal_def value_or_def getE_def
       sample_job_get [OF assms, unfolded settlement_isPlainObject_def] sample_strings sample_price sample_start exceeds_def profile_part_def
       sample_quote_fields_def del: assertNoSensitivePayload.simps)
  show "\<exists>quote. sealed sample quoteIdFrom ''quote_id'' ''quote_hash'' ''quote'' (sample_quote_fields job) = Inr quote"
    unfolding quoteIdFrom_def using sample_keys(2)
    by (intro sealed_ok [OF hash_hex_sample _ sample_quote_clean [OF assms]])
      (use sample_job_get [OF assms] in \<open>auto simp: sample_quote_fields_def quote_fields_def FAR_FUTURE_def plain_char_def ch_lower_iff\<close>)
qed

definition sample_receipt_input :: "jsval \<Rightarrow> jsval \<Rightarrow> jsval" where
  "sample_receipt_input job quote = JObj
     [(''job'', job), (''quote'', quote), (''settlement_ref'', JStr ''ref''), (''service_receipt_ref'', JStr ''ref'')]"

definition sample_receipt_fields :: "jsval \<Rightarrow> jsval \<Rightarrow> props" where
  "sample_receipt_fields job quote = settlement_receipt_fields job quote (JStr EPOCH) (NInt 7) (JStr ''USDC'') ''ref'' ''ref''"

definition sample_quote_of :: "jsval \<Rightarrow> jsval \<Rightarrow> bool" where
  "sample_quote_of job quote \<longleftrightarrow> (\<exists>i h. quote = JObj (sample_quote_fields job @ [(''quote_id'', JStr i), (''quote_hash'', JStr h)]) \<and> \<not> secret_text i \<and> \<not> secret_text h)
     \<and> (\<forall>p. assertNoSensitivePayload quote p = Inr ())"

text \<open>The identifier and the digest of a sealed object passed the scan.\<close>

lemma sealed_texts:
  assumes "sealed N idFrom idKey hashKey path body = Inr obj" "idKey \<in> {''job_id'', ''quote_id''}" "hashKey \<in> {''job_hash'', ''quote_hash''}"
  obtains i h where "obj = JObj (body @ [(idKey, JStr i), (hashKey, JStr h)])" "\<not> secret_text i" "\<not> secret_text h" "\<forall>p. assertNoSensitivePayload obj p = Inr ()"
proof -
  obtain i h where o: "obj = JObj (body @ [(idKey, JStr i), (hashKey, JStr h)])" "\<forall>p. assertNoSensitivePayload obj p = Inr ()"
    using assms(1) by (rule sealed_Inr)
  have "\<not> exempt_path (key_path [] k)" if k: "k \<in> {''job_id'', ''quote_id'', ''job_hash'', ''quote_hash''}" for k
  proof
    assume "exempt_path (key_path [] k)"
    then obtain u w where uw: "''.'' @ k = u @ ''.'' @ w" "w \<in> exempt_words" unfolding exempt_iff key_path_def by auto
    have "CHR ''.'' \<notin> set k" using k by auto
    then have "u = []" using uw(1) by (cases u) auto
    with uw have "k \<in> exempt_words" by simp
    then show False using k by (auto simp: exempt_words_def)
  qed
  moreover have "assertNoSensitivePayload (JStr i) (key_path [] idKey) = Inr ()" "assertNoSensitivePayload (JStr h) (key_path [] hashKey) = Inr ()"
    using o scan_object [of "body @ [(idKey, JStr i), (hashKey, JStr h)]" "[]" "[]"] by (simp_all del: assertNoSensitivePayload.simps)
  ultimately have "\<not> secret_text i" "\<not> secret_text h" using assms(2,3) by (auto split: if_splits)
  with o show thesis using that by blast
qed

lemma sample_quote_get:
  assumes "sample_quote_of job quote"
  shows "settlement_isPlainObject quote" "getp quote ''schema'' = JStr OPERATOR_SERVICE_QUOTE_SCHEMA" "getp quote ''price'' = JObj [(''amount'', JInt 7), (''asset'', JStr ''USDC'')]"
    "getp quote ''job_id'' = getp job ''job_id''" "getp quote ''job_hash'' = getp job ''job_hash''" "getp quote ''operator_id'' = JStr ''operator''"
    "getp quote ''service_kind'' = JStr ''relay''"
    "\<exists>i. getp quote ''quote_id'' = JStr i \<and> \<not> secret_text i" "\<exists>h. getp quote ''quote_hash'' = JStr h \<and> \<not> secret_text h"
  using assms unfolding sample_quote_of_def sample_quote_fields_def quote_fields_def by (auto simp: settlement_isPlainObject_def obj_get_Cons)

lemma sample_receipt_clean:
  assumes "sample_job_of job" "sample_quote_of job quote"
  shows "assertNoSensitivePayload (JObj (sample_receipt_fields job quote)) p = Inr ()"
proof -
  obtain i h where ih: "getp job ''job_id'' = JStr i" "\<not> secret_text i" "getp job ''job_hash'' = JStr h" "\<not> secret_text h"
    using sample_job_get [OF assms(1)] by blast
  obtain j g where jg: "getp quote ''quote_id'' = JStr j" "\<not> secret_text j" "getp quote ''quote_hash'' = JStr g" "\<not> secret_text g"
    using sample_quote_get [OF assms(2)] by blast
  have k: "\<forall>q \<in> set (sample_receipt_fields job quote). \<not> forbidden_field (fst q)" using sample_keys(3) unfolding sample_receipt_fields_def by (auto simp: list_all_iff)
  have "\<forall>(k, v) \<in> set (sample_receipt_fields job quote). assertNoSensitivePayload v (key_path p k) = Inr ()"
    unfolding sample_receipt_fields_def settlement_receipt_fields_def no_flags_def ih jg sample_job_get [OF assms(1)] sample_quote_get [OF assms(2)]
    using sample_inner_keys ih jg by (simp add: sample_words sample_root_clean thesis_exempt SAFE_FIELD_NAMES_def)
  with k show ?thesis unfolding scan_object [where q = p] by fastforce
qed

lemma sample_receipt:
  assumes "sample_job_of job" "sample_quote_of job quote"
  shows "\<exists>receipt. createServiceSettlementReceipt sample (sample_receipt_input job quote) = Inr receipt"
proof -
  have clean: "assertNoSensitivePayload job p = Inr ()" "assertNoSensitivePayload quote p = Inr ()" for p
    using assms by (simp_all add: sample_job_of_def sample_quote_of_def)
  obtain i h where ih: "getp job ''job_id'' = JStr i" "getp job ''job_hash'' = JStr h" using sample_job_get [OF assms(1)] by blast
  have "assertNoSensitivePayload (sample_receipt_input job quote) ''input'' = Inr ()"
    unfolding sample_receipt_input_def scan_object [where q = "''x''"] using sample_inner_keys(1) sample_keys(2) unfolding quote_fields_def
    by (simp add: sample_words clean)
  then have "createServiceSettlementReceipt sample (sample_receipt_input job quote)
     = sealed sample receiptIdFrom ''settlement_receipt_id'' ''settlement_receipt_hash'' ''receipt'' (sample_receipt_fields job quote)"
    by (simp add: createServiceSettlementReceipt_def sample_receipt_input_def settlement_isPlainObject_def obj_get_Cons coal_def value_or_def getE_def ih
       sample_job_get [OF assms(1), unfolded settlement_isPlainObject_def] sample_quote_get [OF assms(2), unfolded settlement_isPlainObject_def] sample_strings
       nonNegativeNumber_def js_Number_def js_ToNumber_def is_finite_def sample_start exceeds_def sample_receipt_fields_def del: assertNoSensitivePayload.simps)
  moreover have "\<exists>receipt. sealed sample receiptIdFrom ''settlement_receipt_id'' ''settlement_receipt_hash'' ''receipt'' (sample_receipt_fields job quote) = Inr receipt"
    unfolding receiptIdFrom_def using sample_keys(3)
    by (intro sealed_ok [OF hash_hex_sample _ sample_receipt_clean [OF assms]])
      (use sample_job_get [OF assms(1)] sample_quote_get [OF assms(2)] in
        \<open>auto simp: sample_receipt_fields_def settlement_receipt_fields_def no_flags_def plain_char_def ch_lower_iff\<close>)
  ultimately show ?thesis by simp
qed

lemma sample_pipeline:
  obtains job quote receipt where "createPermissionlessMemoryJob sample sample_job_input = Inr job"
    "createOperatorServiceQuote sample (sample_quote_input job) = Inr quote"
    "createServiceSettlementReceipt sample (sample_receipt_input job quote) = Inr receipt"
proof -
  obtain job where j: "createPermissionlessMemoryJob sample sample_job_input = Inr job" "sample_job_of job"
  proof -
    obtain job where j: "createPermissionlessMemoryJob sample sample_job_input = Inr job" "sealed sample jobIdFrom ''job_id'' ''job_hash'' ''job'' sample_job_fields = Inr job"
      using sample_job by auto
    obtain i h where "job = JObj (sample_job_fields @ [(''job_id'', JStr i), (''job_hash'', JStr h)])" "\<not> secret_text i" "\<not> secret_text h"
      "\<forall>p. assertNoSensitivePayload job p = Inr ()" using j(2) by (rule sealed_texts) auto
    with j that show thesis unfolding sample_job_of_def by blast
  qed
  obtain quote where q: "createOperatorServiceQuote sample (sample_quote_input job) = Inr quote" "sample_quote_of job quote"
  proof -
    obtain quote where q: "createOperatorServiceQuote sample (sample_quote_input job) = Inr quote"
      "sealed sample quoteIdFrom ''quote_id'' ''quote_hash'' ''quote'' (sample_quote_fields job) = Inr quote"
      using sample_quote [OF j(2)] by auto
    obtain i h where "quote = JObj (sample_quote_fields job @ [(''quote_id'', JStr i), (''quote_hash'', JStr h)])" "\<not> secret_text i" "\<not> secret_text h"
      "\<forall>p. assertNoSensitivePayload quote p = Inr ()" using q(2) by (rule sealed_texts) auto
    with q that show thesis unfolding sample_quote_of_def by blast
  qed
  show thesis using that j q sample_receipt [OF j(2) q(2)] by blast
qed

end
