(* ===== verification/SettlementPipeline.thy ===== *)
theory SettlementPipeline
  imports Sample_Settlement
begin

text \<open>
  What the settlement pipeline guarantees: a receipt created for a quote of a job verifies against both,
  and its amount stays within the quoted price and the limit of the job.
\<close>

text \<open>
  C15. The settlement pipeline is consistent: a receipt created for a created quote of a created job passes
  \<open>verifyServiceSettlementReceipt\<close> against both.
\<close>

theorem settlement_receipt_verifies:
  assumes "createPermissionlessMemoryJob N ji = Inr job"
    and "createOperatorServiceQuote N qi = Inr quote" and "getp qi ''job'' = job"
    and "createServiceSettlementReceipt N ri = Inr receipt" and "getp ri ''job'' = job" and "getp ri ''quote'' = quote"
  shows "verifyServiceSettlementReceipt N (JObj [(''job'', job), (''quote'', quote), (''receipt'', receipt)]) = Inr \<lparr>sc_ok = True, sc_errors = []\<rparr>"
proof -
  obtain tenant jobType memory policy usage start till limit paymentAsset i h where
    j: "job = JObj (job_fields tenant jobType memory policy usage start till limit paymentAsset @ [(''job_id'', JStr i), (''job_hash'', JStr h)])"
    and js: "\<forall>p. assertNoSensitivePayload job p = Inr ()" using assms(1) by (rule job_Inr)
  obtain operator svc qstart qtill price quoteAsset capacity terms extra qid qh where
    q: "quote = JObj (quote_fields (getp qi ''job'') operator svc qstart qtill price quoteAsset capacity terms @ extra @ [(''quote_id'', JStr qid), (''quote_hash'', JStr qh)])"
    "fst ` set extra \<subseteq> {''capacity_profile_hash'', ''consumer_gpu_boundary''}" and qs: "\<forall>p. assertNoSensitivePayload quote p = Inr ()"
    using assms(2) by (rule quote_Inr)
  obtain fin settled sref rref ri' rh where
    r: "receipt = JObj (settlement_receipt_fields (getp ri ''job'') (getp ri ''quote'') fin settled (getp (getp (getp ri ''quote'') ''price'') ''asset'') sref rref
       @ [(''settlement_receipt_id'', JStr ri'), (''settlement_receipt_hash'', JStr rh)])"
    and ids: "receiptIdFrom N (JObj (settlement_receipt_fields (getp ri ''job'') (getp ri ''quote'') fin settled (getp (getp (getp ri ''quote'') ''price'') ''asset'') sref rref)) = Inr ri'"
    "settlement_digest N (JObj (settlement_receipt_fields (getp ri ''job'') (getp ri ''quote'') fin settled (getp (getp (getp ri ''quote'') ''price'') ''asset'') sref rref)) = Inr rh"
    and over: "exceeds N (JNum settled) (getp (getp (getp ri ''quote'') ''price'') ''amount'') = Inr False"
    and rs: "\<forall>p. assertNoSensitivePayload receipt p = Inr ()"
    using assms(4) by (rule settlement_receipt_Inr)
  note g = job_get [OF j] quote_get [OF q] settlement_receipt_get [OF r]
  have "\<not> forbidden_field ''job''" "\<not> forbidden_field ''quote''" "\<not> forbidden_field ''receipt''"
    by (auto dest!: forbidden_field_word simp: forbidden_words_def toLowerCase_def lower_char_def str_includes_rec)
  then have "assertNoSensitivePayload (JObj [(''job'', job), (''quote'', quote), (''receipt'', receipt)]) ''verification'' = Inr ()"
    using js qs rs by (simp add: scan_object [where q = "''x''"] del: assertNoSensitivePayload.simps)
  then have "schema_errors (JObj [(''job'', job), (''quote'', quote), (''receipt'', receipt)]) job quote receipt = []"
    unfolding schema_errors_def by (simp add: g push_if_def del: assertNoSensitivePayload.simps)
  moreover have "reference_errors job quote receipt = []"
    unfolding reference_errors_def same_fields_def using assms(3,5,6) by (simp add: g push_if_def)
  ultimately show ?thesis using ids over assms(3,5,6)
    by (simp add: verifyServiceSettlementReceipt_def obj_get_Cons g getE_def settlement_result_def push_if_def)
qed

theorem settlement_receipt_verifies_witness:
  "\<exists>job quote receipt. createPermissionlessMemoryJob sample sample_job_input = Inr job
     \<and> verifyServiceSettlementReceipt sample (JObj [(''job'', job), (''quote'', quote), (''receipt'', receipt)]) = Inr \<lparr>sc_ok = True, sc_errors = []\<rparr>"
proof -
  obtain job quote receipt where p: "createPermissionlessMemoryJob sample sample_job_input = Inr job"
    "createOperatorServiceQuote sample (sample_quote_input job) = Inr quote"
    "createServiceSettlementReceipt sample (sample_receipt_input job quote) = Inr receipt" by (rule sample_pipeline)
  have "verifyServiceSettlementReceipt sample (JObj [(''job'', job), (''quote'', quote), (''receipt'', receipt)]) = Inr \<lparr>sc_ok = True, sc_errors = []\<rparr>"
    by (rule settlement_receipt_verifies [OF p(1,2) _ p(3)]) (simp_all add: sample_quote_input_def sample_receipt_input_def obj_get_Cons)
  with p(1) show ?thesis by blast
qed

text \<open>
  C9. Money stays within its limits: for a receipt of a quote of a job the settled amount is not negative,
  at most the quoted price, which is at most the price limit of the job, and all three are in the same
  asset.
\<close>

theorem settlement_within_limits:
  assumes "createPermissionlessMemoryJob N ji = Inr job"
    and "createOperatorServiceQuote N qi = Inr quote" and "getp qi ''job'' = job"
    and "createServiceSettlementReceipt N ri = Inr receipt" and "getp ri ''quote'' = quote"
  shows "\<exists>s q m unit. getp receipt ''settled_price'' = JObj [(''amount'', JNum s), (''asset'', JStr unit)]
     \<and> getp quote ''price'' = JObj [(''amount'', JNum q), (''asset'', JStr unit)]
     \<and> getp job ''max_price'' = JObj [(''amount'', JNum m), (''asset'', JStr unit)]
     \<and> 0 \<le> num_value s \<and> num_value s \<le> num_value q \<and> num_value q \<le> num_value m \<and> 0 < num_value m"
proof -
  obtain tenant jobType memory policy usage start till limit paymentAsset i h where
    j: "job = JObj (job_fields tenant jobType memory policy usage start till limit paymentAsset @ [(''job_id'', JStr i), (''job_hash'', JStr h)])"
    and lim: "is_finite limit" "num_less (NInt 0) limit" using assms(1) by (rule job_Inr)
  obtain operator svc qstart qtill price quoteAsset capacity terms extra qid qh where
    q: "quote = JObj (quote_fields (getp qi ''job'') operator svc qstart qtill price quoteAsset capacity terms @ extra @ [(''quote_id'', JStr qid), (''quote_hash'', JStr qh)])"
    "fst ` set extra \<subseteq> {''capacity_profile_hash'', ''consumer_gpu_boundary''}"
    and price: "is_finite price" "getp (getp (getp qi ''job'') ''max_price'') ''asset'' = JStr quoteAsset"
      "exceeds N (JNum price) (getp (getp (getp qi ''job'') ''max_price'') ''amount'') = Inr False"
    using assms(2) by (rule quote_Inr)
  obtain fin settled sref rref ri' rh where
    r: "receipt = JObj (settlement_receipt_fields (getp ri ''job'') (getp ri ''quote'') fin settled (getp (getp (getp ri ''quote'') ''price'') ''asset'') sref rref
       @ [(''settlement_receipt_id'', JStr ri'), (''settlement_receipt_hash'', JStr rh)])"
    and settled: "is_finite settled" "\<not> num_less settled (NInt 0)"
    and over: "exceeds N (JNum settled) (getp (getp (getp ri ''quote'') ''price'') ''amount'') = Inr False"
    using assms(4) by (rule settlement_receipt_Inr)
  have zero: "is_finite (NInt 0)" "num_value (NInt 0) = 0" by (simp_all add: is_finite_def num_value_def)
  have max: "getp job ''max_price'' = JObj [(''amount'', JNum limit), (''asset'', JStr paymentAsset)]" unfolding j by (simp add: job_fields_def obj_get_Cons)
  have "\<not> num_less limit price" "quoteAsset = paymentAsset" using price assms(3) max by (simp_all add: exceeds_def obj_get_Cons)
  moreover have "\<not> num_less price settled" using over assms(5) quote_get(7) [OF q] by (simp add: exceeds_def obj_get_Cons)
  ultimately have "0 \<le> num_value settled" "num_value settled \<le> num_value price" "num_value price \<le> num_value limit" "0 < num_value limit"
    using lim price(1) settled zero by (simp_all add: num_less_value not_less)
  then show ?thesis using max quote_get(7) [OF q] settlement_receipt_get(12) [OF r] assms(5) \<open>quoteAsset = paymentAsset\<close>
    by (intro exI [of _ settled] exI [of _ price] exI [of _ limit] exI [of _ paymentAsset]) (simp add: obj_get_Cons)
qed

theorem settlement_within_limits_witness:
  "\<exists>job quote receipt s q m unit. createServiceSettlementReceipt sample (sample_receipt_input job quote) = Inr receipt
     \<and> getp receipt ''settled_price'' = JObj [(''amount'', JNum s), (''asset'', JStr unit)]
     \<and> getp job ''max_price'' = JObj [(''amount'', JNum m), (''asset'', JStr unit)] \<and> num_value s \<le> num_value q \<and> num_value q \<le> num_value m"
proof -
  obtain job quote receipt where p: "createPermissionlessMemoryJob sample sample_job_input = Inr job"
    "createOperatorServiceQuote sample (sample_quote_input job) = Inr quote"
    "createServiceSettlementReceipt sample (sample_receipt_input job quote) = Inr receipt" by (rule sample_pipeline)
  have "getp (sample_quote_input job) ''job'' = job" "getp (sample_receipt_input job quote) ''quote'' = quote"
    by (simp_all add: sample_quote_input_def sample_receipt_input_def obj_get_Cons)
  from settlement_within_limits [OF p(1,2) this(1) p(3) this(2)] p(3) show ?thesis by blast
qed

end
