(* ===== verification/Spec2Isabelle.thy ===== *)
theory Spec2Isabelle
  imports LaunchLedger Checkpoint VaultReplay Boundary ControllerBubble ControllerWeather SettlementPipeline
begin

text \<open>
  \<^bold>\<open>Verification of the Enigma memory packages.\<close>

  Enigma keeps the memories of AI agents in a local vault and proves, with signed receipts, what was
  done with them.  This development models five of its packages, each one file
  \<open>src/packages/<name>/src/index.js\<close>:

  \<^item> \<open>core\<close>: canonical JSON, hashing and signing, memory addresses, Merkle sets, receipts and receipt
    chains, checkpoints, the scan that keeps private text out of public artifacts, and the public launch
    evidence ledger;
  \<^item> \<open>vault\<close>: the stateful store.  Every operation encrypts or decrypts a memory, changes the set of
    active addresses and the tombstones, appends an event, and has \<open>core\<close> create a receipt that commits to
    the event, to the active set and to the log before it.  Bundles carry the public part to another
    machine, where the lifecycle of the memories is derived again from the receipts;
  \<^item> \<open>boundary\<close>: manifests of the paths by which facts can leave an agent, their verification and a
    simulation of scenarios against them;
  \<^item> \<open>controller\<close>: consent grants, recall decisions, private bubbles and weather reports, built on the hash,
    Merkle and public-safe functions of \<open>core\<close>;
  \<^item> \<open>settlement\<close>: jobs, operator quotes and settlement receipts for memory services.

  \<^bold>\<open>Theories and sources.\<close>

  \<^item> \<open>Prelude\<close>: errors and results, traversal, insertion-ordered maps and sets, and the locales below.
    \<open>JsRegex\<close>: regular expressions with a matcher proved to decide their language.  \<open>JsValue\<close>: JavaScript
    values and the language operations the sources use.  \<open>JsNumber\<close>: conversion, comparison and arithmetic of
    numbers.  \<open>JsDate\<close>: the calendar, \<open>Date.parse\<close> and \<open>toISOString\<close>, with their round trip.  \<open>SafeText\<close>:
    texts the public-safe scan accepts.
  \<^item> \<open>NumberText\<close>: the decimal text of a finite number determines the number.
  \<^item> \<open>Canonical\<close> (\<open>canonicalize\<close>): two values, fractional numbers included, have the same encoding exactly when they agree up to the order
    of keys and the sign of zero.  \<open>Hashing\<close>: digests, keyed addresses, Ed25519 wrappers.
  \<^item> \<open>Merkle\<close> (\<open>class MerkleSet\<close>, proofs) and \<open>Merkle_Proofs\<close>: every element has a verifying membership
    proof; an accepted proof is a proof of an element unless the hash has a collision among the strings
    hashed; roots bind the set; honest non-membership proofs verify, and forged ones exist.
  \<^item> \<open>PublicSafe\<close> (\<open>scanPublicSafeFields\<close> and the guarded hash): the scan accepts exactly the public-safe
    values; the hash of any other value is refused.
  \<^item> \<open>Receipts\<close>, \<open>ReceiptChain\<close>, \<open>Checkpoint\<close>: created artifacts verify; an accepted receipt carries a
    signature over exactly its fields; an accepted chain is consecutive, linked by hashes and
    commits to its log, and equal head hashes mean equal chains.
  \<^item> \<open>LaunchLedger\<close>: rebuilding a ledger from its own output changes nothing; the advisor says ship exactly
    when nothing is missing.
  \<^item> \<open>VaultPublic\<close> (projections), \<open>Vault\<close> (state and operations), \<open>VaultState\<close> (invariants of the memory
    state: a tombstoned address is never recalled), \<open>VaultLog\<close> (after any sequence of operations, failed ones
    included, the receipts of the vault pass \<open>verifyReceiptChain\<close>), \<open>VaultLifecycle\<close> (what each operation
    does to the memories; decryption returns what was stored), \<open>VaultBundle\<close> (\<open>exportBundle\<close>,
    \<open>importBundle\<close>), \<open>VaultReplay\<close> (refinement: the lifecycle that \<open>deriveReceiptLifecycle\<close> replays from the
    receipts is the lifecycle of the vault that wrote them).
  \<^item> \<open>Boundary\<close>: verification agrees with a declarative definition of well-formed manifests; classification is
    fail-closed; a passing simulation has only committed or blocked rows.
  \<^item> \<open>Controller\<close> (the functions), \<open>ControllerGrant\<close>, \<open>ControllerRecall\<close>, \<open>ControllerBubble\<close>,
    \<open>ControllerWeather\<close>: an accepted grant is in force and covers the scope; a recall decision shares context
    exactly when there is no reason against it; a bubble closes once and its counts add up; the
    status of a weather report agrees with its tiles.
  \<^item> \<open>Settlement\<close> (the functions), \<open>SettlementProofs\<close>, \<open>SettlementPipeline\<close>: what a settlement charges is
    within the quote, which is within the limit of the job; settlement receipts verify.
  \<^item> \<open>Sample_Runtime\<close>, \<open>Sample_Run\<close>, \<open>Sample_Vault\<close>, \<open>Sample_Controller\<close>, \<open>Sample_Settlement\<close>: a concrete
    runtime and concrete runs on which witnesses evaluate the properties.

  \<^bold>\<open>Interfaces.\<close>  Insertion-ordered maps are used through the locale \<open>key_value_store\<close> (interpretation \<open>jm\<close>),
  sets through \<open>set_adt\<close> (\<open>js_set\<close>) and its extension \<open>set_digest\<close>, a set with a root that
  binds it (\<open>ms\<close>, on \<open>MerkleSet\<close>); the verifiers that return a list of errors share the locale \<open>verifier\<close>
  (\<open>cg\<close> on \<open>verifyConsentGrant\<close>, \<open>bm\<close> on \<open>verifyBoundaryManifest\<close>).

  \<^bold>\<open>Runtime.\<close>  What is not in the repository is a parameter.  The record \<open>node\<close> holds SHA-256, HMAC, Ed25519,
  base64, the clock, \<open>Date.parse\<close> outside the ISO formats, the reading of numeric texts, double arithmetic
  beyond the safe integers and the elements of a \<open>Set\<close>; \<open>vnode\<close> adds AES-GCM, scrypt, key generation, dates,
  collation and JSON parsing; the random values of a call are its argument \<open>fresh\<close>.  Assumptions are named
  hypotheses: \<open>hash_hex\<close> (a digest is 64 hexadecimal digits), \<open>key_pair_ok\<close> (what a key signs verifies),
  decryption inverts encryption, and freedom from collisions on the finitely many strings that the
  functions in question hash.  The sample runtime satisfies them.

  \<^bold>\<open>Limits of the representation.\<close>  Values are finite trees, so cyclic objects do not exist and objects are
  compared by structure where the code compares references.  Strings hold code units below 256.  Finite
  numbers are named by the decimal notation \<open>String\<close> gives them, integers that it writes in plain digits by
  their value and all others by digits and exponent; minus zero and the non-finite values are apart.
  Addition is exact where the result is a safe integer and left to the runtime elsewhere, so the numbering of
  a chain is known to be consecutive from starts whose numbers stay safe.  A \<open>Set\<close> can be iterated, a
  \<open>Map\<close> instance cannot.  Class
  instances convert to \<open>NaN\<close>, own \<open>toString\<close> and \<open>valueOf\<close> properties are not consulted, and the key
  \<open>__proto__\<close> is an ordinary one.  Options that are \<open>null\<close> read as an object without properties.  A day above
  the length of its month rolls over, as in V8.  The field \<open>warnings\<close> of controller results is always empty
  and is left out.  The clock is constant within a call, and one fresh UUID
  stands for those that one call draws.  The sequences of operations (\<open>steps\<close>) that the invariants of the
  vault range over consist of remember, recall, update and delete; \<open>exportBundle\<close> and \<open>importBundle\<close>, which
  append receipts of their own, are modelled but are not among them.  Every function is total: loops recurse over lists or towards a bound, and no fuel is
  used; a function that may throw returns a sum, a vault operation also returns the state it leaves.

  \<^bold>\<open>Not modelled.\<close>  \<open>createSettlementBatch\<close> orders operators by the collation of the host.  The JSON schema
  constants of \<open>controller\<close> are data no function reads.  \<open>metering\<close> and \<open>optimizer\<close> compute in rounded
  doubles; \<open>storage\<close> is SQL text; \<open>adapters\<close>, \<open>connectors\<close> and \<open>importers\<close> read files of other
  programs; \<open>mcp-server\<close>, \<open>hosted-cloud\<close> and the programs under \<open>src/apps\<close> and \<open>src/scripts\<close> are input
  and output around the packages; \<open>cortex-v3\<close> is Rust and services over a chain client.  \<open>passport\<close>,
  \<open>mesh\<close>, \<open>proof-network\<close> and \<open>enterprise\<close> build public objects in the manner of \<open>controller\<close> and would be
  modelled next.
\<close>

end
